theory Spec2Isabelle
  imports Complex_Main
begin

section \<open>MazeInterface: the wall grid behind \<open>setWall\<close>\<close>

text \<open>
  \<open>MazeInterface\<close> holds a pointer to a \<open>std::vector<std::vector<BasicTile>>\<close>, indexed
  \<open>[x][y]\<close>, and prints its diagnostics through \<open>SimUtilities::print\<close>. The grid and the
  printed lines together are the state that \<open>setWall\<close> can change.
\<close>

datatype Direction = NORTH | EAST | SOUTH | WEST

text \<open>
  Modelled from the spec: the declaration of \<open>BasicTile\<close> is not part of the sources. The
  spec gives a tile one boolean per direction, so \<open>walls\<close> is a total table and the access
  \<open>walls.at(d)\<close> always finds its entry.
\<close>

record BasicTile =
  walls :: "Direction \<Rightarrow> bool"

record MazeInterface =
  m_basicMaze :: "BasicTile list list"
  printed :: "string list"

text \<open>The only exception the function can meet is the one thrown by \<open>std::vector::at\<close>.\<close>

datatype exn = out_of_range

text \<open>
  \<open>getWidth\<close> and \<open>getHeight\<close> return \<open>int\<close>, narrowing a \<open>size_t\<close>: the value is
  taken modulo \<open>2^32\<close> and read as a signed 32-bit number.
\<close>

definition size_to_int :: "nat \<Rightarrow> int" where
  "size_to_int n =
     (let m = int n mod 4294967296 in if m < 2147483648 then m else m - 4294967296)"

definition getWidth :: "'a MazeInterface_scheme \<Rightarrow> int" where
  "getWidth s = size_to_int (length (m_basicMaze s))"

definition getHeight :: "'a MazeInterface_scheme \<Rightarrow> int" where
  "getHeight s =
     (if length (m_basicMaze s) > 0 then size_to_int (length (m_basicMaze s ! 0)) else 0)"

text \<open>
  \<open>std::vector::at\<close> with an \<open>int\<close> argument: the index is converted to \<open>size_t\<close>, so a
  negative one becomes larger than any size, and every index that is not below the size throws.
\<close>

definition vector_at :: "'a list \<Rightarrow> int \<Rightarrow> exn + 'a" where
  "vector_at xs i = (if 0 \<le> i \<and> nat i < length xs then Inr (xs ! nat i) else Inl out_of_range)"

text \<open>\<open>std::to_string(int)\<close>: decimal digits, with a leading minus sign for a negative number.\<close>

definition digit_char :: "nat \<Rightarrow> char" where
  "digit_char n = ''0123456789'' ! n"

function nat_to_string :: "nat \<Rightarrow> string" where
  "nat_to_string n =
     (if n < 10 then [digit_char n] else nat_to_string (n div 10) @ [digit_char (n mod 10)])"
  by pat_completeness auto
termination
  by (relation "measure id") auto

declare nat_to_string.simps [simp del]

definition to_string :: "int \<Rightarrow> string" where
  "to_string i = (if i < 0 then CHR ''-'' # nat_to_string (nat (- i)) else nat_to_string (nat i))"

text \<open>The two diagnostics, as the source concatenates them.\<close>

definition outOfBoundsMessage :: "int \<Rightarrow> int \<Rightarrow> int \<Rightarrow> int \<Rightarrow> string" where
  "outOfBoundsMessage w h x y =
     ''Error: The generated maze width and height values are '' @ to_string w @ '' and ''
       @ to_string h @ '', respectively.'' @ ''There is no tile at position ('' @ to_string x
       @ '', '' @ to_string y @ ''), and thus you cannot set its wall value.''"

definition unknownDirectionMessage :: "char \<Rightarrow> string" where
  "unknownDirectionMessage direction =
     ''Error: The character '' @ [CHR 0x27] @ [direction] @ [CHR 0x27]
       @ '' is not mapped to a valid direction.''"

definition print :: "string \<Rightarrow> 'a MazeInterface_scheme \<Rightarrow> 'a MazeInterface_scheme" where
  "print msg s = s\<lparr>printed := printed s @ [msg]\<rparr>"

text \<open>
  \<open>setWall\<close>. The table \<open>CHAR_TO_DIRECTION\<close> is declared outside the sources and is a
  parameter here; \<open>mapContains\<close> followed by \<open>at\<close> on the same key is the lookup
  \<open>tbl direction\<close>. The result is \<open>Inl\<close> when an exception leaves the function (nothing has
  been written by then) and \<open>Inr\<close> of the state after the call otherwise.
\<close>

definition setWall ::
  "(char \<rightharpoonup> Direction) \<Rightarrow> 'a MazeInterface_scheme \<Rightarrow> int \<Rightarrow> int \<Rightarrow> char \<Rightarrow> bool
     \<Rightarrow> exn + 'a MazeInterface_scheme" where
  "setWall tbl s x y direction wallExists =
     (if x < 0 \<or> getWidth s \<le> x \<or> y < 0 \<or> getHeight s \<le> y
      then Inr (print (outOfBoundsMessage (getWidth s) (getHeight s) x y) s)
      else case tbl direction of
        None \<Rightarrow> Inr (print (unknownDirectionMessage direction) s)
      | Some d \<Rightarrow>
          (case vector_at (m_basicMaze s) x of
             Inl e \<Rightarrow> Inl e
           | Inr column \<Rightarrow>
               (case vector_at column y of
                  Inl e \<Rightarrow> Inl e
                | Inr tile \<Rightarrow>
                    Inr (s\<lparr>m_basicMaze := (m_basicMaze s)
                          [nat x := column[nat y := tile\<lparr>walls := (walls tile)(d := wallExists)\<rparr>]]\<rparr>))))"

text \<open>A grid is rectangular when every column is as long as the first one.\<close>

definition rectangular :: "'a list list \<Rightarrow> bool" where
  "rectangular g = list_all (\<lambda>column. length column = length (hd g)) g"

text \<open>Concrete data for the evaluations below: the usual code table and three small grids.\<close>

definition CHAR_TO_DIRECTION :: "char \<rightharpoonup> Direction" where
  "CHAR_TO_DIRECTION =
     [CHR ''n'' \<mapsto> NORTH, CHR ''e'' \<mapsto> EAST, CHR ''s'' \<mapsto> SOUTH, CHR ''w'' \<mapsto> WEST]"

definition open_tile :: BasicTile where
  "open_tile = \<lparr>walls = (\<lambda>d. False)\<rparr>"

definition square_maze :: MazeInterface where
  "square_maze = \<lparr>m_basicMaze = [[open_tile, open_tile], [open_tile, open_tile]], printed = []\<rparr>"

definition empty_maze :: MazeInterface where
  "empty_maze = \<lparr>m_basicMaze = [], printed = []\<rparr>"

section \<open>IEEE 754 arithmetic\<close>

text \<open>
  \<open>TransformationMatrix.cpp\<close> computes in \<open>double\<close> and stores in \<open>float\<close>: the IEEE 754
  formats binary64 and binary32 with the default rounding (to nearest, ties to even), every
  operation being rounded to the type the language gives it. A finite value
  is a sign, a significand and an exponent, standing for \<open>\<plusminus> significand * 2 ^ exponent\<close>; the
  significand is odd, or zero with exponent zero (the two signed zeros), so that equal values
  are equal terms. A format is its precision and its largest exponent.
\<close>

datatype ieee = Finite bool nat int | Infinity bool | NaN

type_synonym format = "nat \<times> int"

definition binary32 :: format where
  "binary32 = (24, 127)"

definition binary64 :: format where
  "binary64 = (53, 1023)"

text \<open>The number of binary digits of a natural number, and the odd-significand form.\<close>

function bit_length :: "nat \<Rightarrow> nat" where
  "bit_length n = (if n = 0 then 0 else Suc (bit_length (n div 2)))"
  by pat_completeness auto
termination
  by (relation "measure id") auto

declare bit_length.simps [simp del]

function normal_form :: "nat \<Rightarrow> int \<Rightarrow> nat \<times> int" where
  "normal_form m e =
     (if m = 0 then (0, 0) else if even m then normal_form (m div 2) (e + 1) else (m, e))"
  by pat_completeness auto
termination
  by (relation "measure fst") auto

declare normal_form.simps [simp del]

text \<open>
  Rounding the exact value \<open>n / d * 2 ^ k\<close> (with \<open>n\<close>, \<open>d\<close> positive) to a format:
  \<open>floor_log2 n d\<close> is the exponent of the leading binary digit of \<open>n / d\<close>; the unit in the
  last place is \<open>2 ^ quantum\<close>, which stops decreasing at the smallest exponent (subnormal
  numbers); \<open>scaled\<close> is the value in these units, rounded to the nearest integer with ties
  to even; a result at or beyond \<open>2 ^ (emax + 1)\<close> overflows to an infinity, and a result
  that rounds to nothing is a zero of the same sign.
\<close>

definition floor_log2_near :: "nat \<Rightarrow> nat \<Rightarrow> int \<Rightarrow> int" where
  "floor_log2_near n d k =
     (if 0 \<le> k then (if d * 2 ^ nat k \<le> n then k else k - 1)
      else (if d \<le> n * 2 ^ nat (- k) then k else k - 1))"

definition floor_log2 :: "nat \<Rightarrow> nat \<Rightarrow> int" where
  "floor_log2 n d = floor_log2_near n d (int (bit_length n) - int (bit_length d))"

definition nearest_even :: "nat \<Rightarrow> nat \<Rightarrow> nat \<Rightarrow> nat" where
  "nearest_even f r d =
     (if 2 * r < d then f else if d < 2 * r then f + 1 else if even f then f else f + 1)"

definition round_even :: "nat \<Rightarrow> nat \<Rightarrow> nat" where
  "round_even n d = nearest_even (n div d) (n mod d) d"

definition scaled :: "nat \<Rightarrow> nat \<Rightarrow> int \<Rightarrow> nat" where
  "scaled n d sh =
     (if 0 \<le> sh then round_even (n * 2 ^ nat sh) d else round_even n (d * 2 ^ nat (- sh)))"

definition quantum :: "format \<Rightarrow> int \<Rightarrow> int" where
  "quantum fmt e = max e (1 - snd fmt) - (int (fst fmt) - 1)"

definition finite_of :: "bool \<Rightarrow> nat \<times> int \<Rightarrow> ieee" where
  "finite_of s me = Finite s (fst me) (snd me)"

definition pack :: "format \<Rightarrow> bool \<Rightarrow> int \<Rightarrow> nat \<Rightarrow> int \<Rightarrow> ieee" where
  "pack fmt s e m qe =
     (if snd fmt < e \<or> (e = snd fmt \<and> m = 2 ^ fst fmt) then Infinity s
      else finite_of s (normal_form m qe))"

definition round_at :: "format \<Rightarrow> bool \<Rightarrow> nat \<Rightarrow> nat \<Rightarrow> int \<Rightarrow> int \<Rightarrow> ieee" where
  "round_at fmt s n d k e = pack fmt s e (scaled n d (k - quantum fmt e)) (quantum fmt e)"

definition round_to :: "format \<Rightarrow> bool \<Rightarrow> nat \<Rightarrow> nat \<Rightarrow> int \<Rightarrow> ieee" where
  "round_to fmt s n d k =
     (if n = 0 then Finite s 0 0 else round_at fmt s n d k (floor_log2 n d + k))"

text \<open>
  The operations. Sums and products of finite values are exact integers times a power of two
  and are rounded once; a zero sum is negative only when both operands are negative zeros;
  invalid operations give \<open>NaN\<close>, and division of a non-zero value by a zero gives an
  infinity. \<open>fp_less\<close> is the comparison \<open><\<close>, false whenever an operand is \<open>NaN\<close>.
\<close>

definition is_zero :: "ieee \<Rightarrow> bool" where
  "is_zero x = (case x of Finite s m e \<Rightarrow> m = 0 | _ \<Rightarrow> False)"

definition sign_of :: "ieee \<Rightarrow> bool" where
  "sign_of x = (case x of Finite s m e \<Rightarrow> s | Infinity s \<Rightarrow> s | NaN \<Rightarrow> False)"

definition fp_neg :: "ieee \<Rightarrow> ieee" where
  "fp_neg x =
     (case x of Finite s m e \<Rightarrow> Finite (\<not> s) m e | Infinity s \<Rightarrow> Infinity (\<not> s) | NaN \<Rightarrow> NaN)"

definition signed :: "bool \<Rightarrow> nat \<Rightarrow> int" where
  "signed s m = (if s then - int m else int m)"

definition aligned :: "bool \<Rightarrow> nat \<Rightarrow> int \<Rightarrow> int \<Rightarrow> int" where
  "aligned s m e g = signed s m * 2 ^ nat (e - g)"

definition round_sum :: "format \<Rightarrow> bool \<Rightarrow> int \<Rightarrow> int \<Rightarrow> ieee" where
  "round_sum fmt both_negative v g =
     (if v = 0 then Finite both_negative 0 0 else round_to fmt (v < 0) (nat \<bar>v\<bar>) 1 g)"

fun fp_add :: "format \<Rightarrow> ieee \<Rightarrow> ieee \<Rightarrow> ieee" where
  "fp_add fmt NaN y = NaN"
| "fp_add fmt x NaN = NaN"
| "fp_add fmt (Infinity s) (Infinity t) = (if s = t then Infinity s else NaN)"
| "fp_add fmt (Infinity s) y = Infinity s"
| "fp_add fmt x (Infinity t) = Infinity t"
| "fp_add fmt (Finite s m e) (Finite t n f) =
     round_sum fmt (s \<and> t) (aligned s m e (min e f) + aligned t n f (min e f)) (min e f)"

definition fp_sub :: "format \<Rightarrow> ieee \<Rightarrow> ieee \<Rightarrow> ieee" where
  "fp_sub fmt x y = fp_add fmt x (fp_neg y)"

fun fp_mul :: "format \<Rightarrow> ieee \<Rightarrow> ieee \<Rightarrow> ieee" where
  "fp_mul fmt NaN y = NaN"
| "fp_mul fmt x NaN = NaN"
| "fp_mul fmt (Infinity s) y = (if is_zero y then NaN else Infinity (s \<noteq> sign_of y))"
| "fp_mul fmt x (Infinity t) = (if is_zero x then NaN else Infinity (sign_of x \<noteq> t))"
| "fp_mul fmt (Finite s m e) (Finite t n f) = round_to fmt (s \<noteq> t) (m * n) 1 (e + f)"

fun fp_div :: "format \<Rightarrow> ieee \<Rightarrow> ieee \<Rightarrow> ieee" where
  "fp_div fmt NaN y = NaN"
| "fp_div fmt x NaN = NaN"
| "fp_div fmt (Infinity s) (Infinity t) = NaN"
| "fp_div fmt (Infinity s) (Finite t n f) = Infinity (s \<noteq> t)"
| "fp_div fmt (Finite s m e) (Infinity t) = Finite (s \<noteq> t) 0 0"
| "fp_div fmt (Finite s m e) (Finite t n f) =
     (if n = 0 then (if m = 0 then NaN else Infinity (s \<noteq> t))
      else round_to fmt (s \<noteq> t) m n (e - f))"

fun fp_less :: "ieee \<Rightarrow> ieee \<Rightarrow> bool" where
  "fp_less NaN y = False"
| "fp_less x NaN = False"
| "fp_less (Infinity s) (Infinity t) = (s \<and> \<not> t)"
| "fp_less (Infinity s) y = s"
| "fp_less x (Infinity t) = (\<not> t)"
| "fp_less (Finite s m e) (Finite t n f) = (aligned s m e (min e f) < aligned t n f (min e f))"

text \<open>
  The two C++ types, the conversions between them (\<open>narrow\<close> rounds a \<open>double\<close> to
  \<open>float\<close>, \<open>widen\<close> is exact), the conversion from \<open>int\<close>, and decimal literals
  (\<open>decimal 5 10\<close> is \<open>0.5\<close>).
\<close>

type_synonym double = ieee
type_synonym float = ieee

definition dbl :: "int \<Rightarrow> double" where
  "dbl i = round_to binary64 (i < 0) (nat \<bar>i\<bar>) 1 0"

definition decimal :: "nat \<Rightarrow> nat \<Rightarrow> double" where
  "decimal n d = round_to binary64 False n d 0"

definition narrow :: "double \<Rightarrow> float" where
  "narrow x = (case x of Finite s m e \<Rightarrow> round_to binary32 s m 1 e | _ \<Rightarrow> x)"

definition widen :: "float \<Rightarrow> double" where
  "widen x = x"

section \<open>TransformationMatrix\<close>

subsection \<open>The arithmetic as a parameter\<close>

text \<open>
  The functions of \<open>TransformationMatrix.cpp\<close> are written once, over the operations they
  use: the \<open>double\<close> operations, the \<open>float\<close> product, the conversions, \<open>int\<close> to
  \<open>double\<close>, and decimal literals. \<open>ieee_arith\<close> is the arithmetic the program runs in.
  \<open>exact_arith\<close> reads the same formulas over the real numbers, with no rounding: it is the
  arithmetic in which the specification states its equalities.
\<close>

record ('d, 'f) arith =
  d_add :: "'d \<Rightarrow> 'd \<Rightarrow> 'd"
  d_sub :: "'d \<Rightarrow> 'd \<Rightarrow> 'd"
  d_mul :: "'d \<Rightarrow> 'd \<Rightarrow> 'd"
  d_div :: "'d \<Rightarrow> 'd \<Rightarrow> 'd"
  d_neg :: "'d \<Rightarrow> 'd"
  d_less :: "'d \<Rightarrow> 'd \<Rightarrow> bool"
  d_int :: "int \<Rightarrow> 'd"
  d_lit :: "nat \<Rightarrow> nat \<Rightarrow> 'd"
  f_mul :: "'f \<Rightarrow> 'f \<Rightarrow> 'f"
  to_float :: "'d \<Rightarrow> 'f"
  to_double :: "'f \<Rightarrow> 'd"

definition ieee_arith :: "(double, float) arith" where
  "ieee_arith =
     \<lparr>d_add = fp_add binary64, d_sub = fp_sub binary64, d_mul = fp_mul binary64,
      d_div = fp_div binary64, d_neg = fp_neg, d_less = fp_less, d_int = dbl, d_lit = decimal,
      f_mul = fp_mul binary32, to_float = narrow, to_double = widen\<rparr>"

definition exact_arith :: "(real, real) arith" where
  "exact_arith =
     \<lparr>d_add = (\<lambda>x y. x + y), d_sub = (\<lambda>x y. x - y), d_mul = (\<lambda>x y. x * y),
      d_div = (\<lambda>x y. x / y), d_neg = (\<lambda>x. - x), d_less = (\<lambda>x y. x < y),
      d_int = (\<lambda>i. of_int i), d_lit = (\<lambda>n d. of_nat n / of_nat d),
      f_mul = (\<lambda>x y. x * y), to_float = (\<lambda>x. x), to_double = (\<lambda>x. x)\<rparr>"

text \<open>\<open>std::min(a, b)\<close> returns \<open>b\<close> when \<open>b < a\<close> and \<open>a\<close> otherwise.\<close>

definition std_min :: "('d, 'f) arith \<Rightarrow> 'd \<Rightarrow> 'd \<Rightarrow> 'd" where
  "std_min A a b = (if d_less A b a then b else a)"

subsection \<open>\<open>multiply4x4Matrices\<close>\<close>

text \<open>
  Modelled from the spec: the macro \<open>ASSERT_EQ\<close> comes from \<open>Assert.h\<close>, which is not part of
  the sources; the spec makes a failed assertion fatal, so it ends the computation with
  \<open>assertion_failed\<close>. The three loops run over \<open>0..3\<close>; each product is a \<open>float\<close>
  product, accumulated in the \<open>double\<close> variable \<open>value\<close> (here \<open>val\<close>) and stored as
  \<open>float\<close> by \<open>push_back\<close>.
\<close>

datatype fatal = assertion_failed

definition multiply4x4Matrices :: "('d, 'f) arith \<Rightarrow> 'f list \<Rightarrow> 'f list \<Rightarrow> fatal + 'f list" where
  "multiply4x4Matrices A left right =
     (if length left \<noteq> 16 then Inl assertion_failed
      else if length right \<noteq> 16 then Inl assertion_failed
      else
        let result =
          fold (\<lambda>i result.
            fold (\<lambda>j result.
              let val =
                fold (\<lambda>k val.
                    d_add A val
                      (to_double A (f_mul A (left ! (4 * i + k)) (right ! (4 * k + j)))))
                  [0..<4] (d_lit A 0 1)
              in result @ [to_float A val])
            [0..<4] result)
          [0..<4] []
        in if length result \<noteq> 16 then Inl assertion_failed else Inr result)"

subsection \<open>\<open>mapPixelCoordinateToOpenGlCoordinate\<close>\<close>

definition mapPixelCoordinateToOpenGlCoordinate ::
  "('d, 'f) arith \<Rightarrow> 'd \<times> 'd \<Rightarrow> int \<times> int \<Rightarrow> 'd \<times> 'd" where
  "mapPixelCoordinateToOpenGlCoordinate A coordinate windowSize =
     (d_sub A (d_div A (d_mul A (d_int A 2) (fst coordinate)) (d_int A (fst windowSize)))
        (d_int A 1),
      d_sub A (d_div A (d_mul A (d_int A 2) (snd coordinate)) (d_int A (snd windowSize)))
        (d_int A 1))"

subsection \<open>\<open>getFullMapTransformationMatrix\<close>\<close>

text \<open>
  The argument \<open>wallWidth\<close> is the \<open>double\<close> that \<open>wallWidth.getMeters()\<close> returns (the
  class \<open>Distance\<close> is declared outside the sources). Pixel positions and sizes are \<open>int\<close>
  pairs, converted to \<open>double\<close> where the source mixes them with \<open>double\<close> values.
\<close>

definition getFullMapTransformationMatrix ::
  "('d, 'f) arith \<Rightarrow> 'd \<Rightarrow> 'd \<times> 'd \<Rightarrow> int \<times> int \<Rightarrow> int \<times> int \<Rightarrow> int \<times> int
     \<Rightarrow> fatal + 'f list" where
  "getFullMapTransformationMatrix A wallWidth physicalMazeSize fullMapPosition fullMapSize
       windowSize =
     (let one = to_float A (d_lit A 1 1);
          zero = to_float A (d_lit A 0 1);
          initialTranslationMatrix =
            [one, zero, zero, to_float A (d_mul A (d_lit A 5 10) wallWidth),
             zero, one, zero, to_float A (d_mul A (d_lit A 5 10) wallWidth),
             zero, zero, one, zero,
             zero, zero, zero, one];
          physicalWidth = fst physicalMazeSize;
          physicalHeight = snd physicalMazeSize;
          pixelsPerMeter =
            std_min A (d_div A (d_int A (fst fullMapSize)) physicalWidth)
                      (d_div A (d_int A (snd fullMapSize)) physicalHeight);
          pixelWidth = d_mul A pixelsPerMeter physicalWidth;
          pixelHeight = d_mul A pixelsPerMeter physicalHeight;
          openGlOrigin = mapPixelCoordinateToOpenGlCoordinate A (d_int A 0, d_int A 0) windowSize;
          openGlMazeSize =
            mapPixelCoordinateToOpenGlCoordinate A (pixelWidth, pixelHeight) windowSize;
          openGlWidth = d_sub A (fst openGlMazeSize) (fst openGlOrigin);
          openGlHeight = d_sub A (snd openGlMazeSize) (snd openGlOrigin);
          horizontalScaling = d_div A openGlWidth physicalWidth;
          verticalScaling = d_div A openGlHeight physicalHeight;
          scalingMatrix =
            [to_float A horizontalScaling, zero, zero, zero,
             zero, to_float A verticalScaling, zero, zero,
             zero, zero, one, zero,
             zero, zero, zero, one];
          pixelLowerLeftCornerX =
            d_add A (d_int A (fst fullMapPosition))
              (d_mul A (d_lit A 5 10) (d_sub A (d_int A (fst fullMapSize)) pixelWidth));
          pixelLowerLeftCornerY =
            d_add A (d_int A (snd fullMapPosition))
              (d_mul A (d_lit A 5 10) (d_sub A (d_int A (snd fullMapSize)) pixelHeight));
          openGlLowerLeftCorner =
            mapPixelCoordinateToOpenGlCoordinate A (pixelLowerLeftCornerX, pixelLowerLeftCornerY)
              windowSize;
          translationMatrix =
            [one, zero, zero, to_float A (fst openGlLowerLeftCorner),
             zero, one, zero, to_float A (snd openGlLowerLeftCorner),
             zero, zero, one, zero,
             zero, zero, zero, one]
      in case multiply4x4Matrices A scalingMatrix initialTranslationMatrix of
           Inl failure \<Rightarrow> Inl failure
         | Inr product \<Rightarrow> multiply4x4Matrices A translationMatrix product)"

subsection \<open>\<open>getZoomedMapTransformationMatrix\<close>\<close>

text \<open>
  The classes \<open>Coordinate\<close>, \<open>Cartesian\<close>, \<open>Angle\<close> and \<open>Degrees\<close> are declared outside the
  sources. A mouse translation is the pair of \<open>double\<close>s that \<open>getX().getMeters()\<close> and
  \<open>getY().getMeters()\<close> return, and the difference of two translations is taken
  componentwise. The angle \<open>theta\<close> enters the function only through \<open>std::cos(theta)\<close> and
  \<open>std::sin(theta)\<close>, which are the arguments \<open>cosTheta\<close> and \<open>sinTheta\<close>.
\<close>

definition getZoomedMapTransformationMatrix ::
  "('d, 'f) arith \<Rightarrow> 'd \<times> 'd \<Rightarrow> int \<times> int \<Rightarrow> int \<times> int \<Rightarrow> int \<times> int \<Rightarrow> 'd \<Rightarrow> 'd \<Rightarrow> bool
     \<Rightarrow> 'd \<times> 'd \<Rightarrow> 'd \<times> 'd \<Rightarrow> 'd \<Rightarrow> 'd \<Rightarrow> fatal + 'f list" where
  "getZoomedMapTransformationMatrix A physicalMazeSize zoomedMapPosition zoomedMapSize windowSize
       screenPixelsPerMeter zoomedMapScale rotateZoomedMap initialMouseTranslation
       currentMouseTranslation cosTheta sinTheta =
     (let one = to_float A (d_lit A 1 1);
          zero = to_float A (d_lit A 0 1);
          physicalWidth = fst physicalMazeSize;
          physicalHeight = snd physicalMazeSize;
          pixelsPerMeter = d_mul A screenPixelsPerMeter zoomedMapScale;
          pixelWidth = d_mul A pixelsPerMeter physicalWidth;
          pixelHeight = d_mul A pixelsPerMeter physicalHeight;
          openGlOrigin = mapPixelCoordinateToOpenGlCoordinate A (d_int A 0, d_int A 0) windowSize;
          openGlMazeSize =
            mapPixelCoordinateToOpenGlCoordinate A (pixelWidth, pixelHeight) windowSize;
          openGlWidth = d_sub A (fst openGlMazeSize) (fst openGlOrigin);
          openGlHeight = d_sub A (snd openGlMazeSize) (snd openGlOrigin);
          horizontalScaling = d_div A openGlWidth physicalWidth;
          verticalScaling = d_div A openGlHeight physicalHeight;
          scalingMatrix =
            [to_float A horizontalScaling, zero, zero, zero,
             zero, to_float A verticalScaling, zero, zero,
             zero, zero, one, zero,
             zero, zero, zero, one];
          centerXPixels = d_mul A (fst initialMouseTranslation) pixelsPerMeter;
          centerYPixels = d_mul A (snd initialMouseTranslation) pixelsPerMeter;
          zoomedMapCenterXPixels =
            d_add A (d_int A (fst zoomedMapPosition))
              (d_mul A (d_lit A 5 10) (d_int A (fst zoomedMapSize)));
          zoomedMapCenterYPixels =
            d_add A (d_int A (snd zoomedMapPosition))
              (d_mul A (d_lit A 5 10) (d_int A (snd zoomedMapSize)));
          staticTranslationXPixels = d_sub A zoomedMapCenterXPixels centerXPixels;
          staticTranslationYPixels = d_sub A zoomedMapCenterYPixels centerYPixels;
          staticTranslation =
            mapPixelCoordinateToOpenGlCoordinate A
              (staticTranslationXPixels, staticTranslationYPixels) windowSize;
          mouseTranslationDelta =
            (d_sub A (fst currentMouseTranslation) (fst initialMouseTranslation),
             d_sub A (snd currentMouseTranslation) (snd initialMouseTranslation));
          dynamicTranslationXPixels = d_mul A (fst mouseTranslationDelta) pixelsPerMeter;
          dynamicTranslationYPixels = d_mul A (snd mouseTranslationDelta) pixelsPerMeter;
          dynamicTranslation =
            mapPixelCoordinateToOpenGlCoordinate A
              (dynamicTranslationXPixels, dynamicTranslationYPixels) windowSize;
          horizontalTranslation =
            d_add A (d_sub A (fst staticTranslation) (fst dynamicTranslation)) (fst openGlOrigin);
          verticalTranslation =
            d_add A (d_sub A (snd staticTranslation) (snd dynamicTranslation)) (snd openGlOrigin);
          translationMatrix =
            [one, zero, zero, to_float A horizontalTranslation,
             zero, one, zero, to_float A verticalTranslation,
             zero, zero, one, zero,
             zero, zero, zero, one];
          rotationMatrix =
            [to_float A cosTheta, to_float A sinTheta, zero, zero,
             to_float A (d_neg A sinTheta), to_float A cosTheta, zero, zero,
             zero, zero, one, zero,
             zero, zero, zero, one];
          inverseScalingMatrix =
            [to_float A (d_div A (d_lit A 1 1) horizontalScaling), zero, zero, zero,
             zero, to_float A (d_div A (d_lit A 1 1) verticalScaling), zero, zero,
             zero, zero, one, zero,
             zero, zero, zero, one];
          zoomedMapCenterOpenGl =
            mapPixelCoordinateToOpenGlCoordinate A
              (zoomedMapCenterXPixels, zoomedMapCenterYPixels) windowSize;
          translateToOriginMatrix =
            [one, zero, zero, to_float A (fst zoomedMapCenterOpenGl),
             zero, one, zero, to_float A (snd zoomedMapCenterOpenGl),
             zero, zero, one, zero,
             zero, zero, zero, one];
          inverseTranslateToOriginMatrix =
            [one, zero, zero, to_float A (d_neg A (fst zoomedMapCenterOpenGl)),
             zero, one, zero, to_float A (d_neg A (snd zoomedMapCenterOpenGl)),
             zero, zero, one, zero,
             zero, zero, zero, one]
      in case multiply4x4Matrices A translationMatrix scalingMatrix of
           Inl failure \<Rightarrow> Inl failure
         | Inr zoomedMapCameraMatrix \<Rightarrow>
             if rotateZoomedMap then
               (case multiply4x4Matrices A inverseTranslateToOriginMatrix zoomedMapCameraMatrix of
                  Inl failure \<Rightarrow> Inl failure
                | Inr m1 \<Rightarrow>
                (case multiply4x4Matrices A inverseScalingMatrix m1 of
                  Inl failure \<Rightarrow> Inl failure
                | Inr m2 \<Rightarrow>
                (case multiply4x4Matrices A rotationMatrix m2 of
                  Inl failure \<Rightarrow> Inl failure
                | Inr m3 \<Rightarrow>
                (case multiply4x4Matrices A scalingMatrix m3 of
                  Inl failure \<Rightarrow> Inl failure
                | Inr m4 \<Rightarrow> multiply4x4Matrices A translateToOriginMatrix m4))))
             else Inr zoomedMapCameraMatrix)"

subsection \<open>The vocabulary of the specification\<close>

text \<open>
  The translation and scaling matrices, and the row-major product
  \<open>result[i][j] = \<Sum>k. left[i][k] * right[k][j]\<close>, written out for the four terms of each
  sum, with the operations in the order and the types of the code.
\<close>

definition Translation :: "('d, 'f) arith \<Rightarrow> 'f \<Rightarrow> 'f \<Rightarrow> 'f list" where
  "Translation A tx ty =
     (let one = to_float A (d_lit A 1 1); zero = to_float A (d_lit A 0 1)
      in [one, zero, zero, tx,
          zero, one, zero, ty,
          zero, zero, one, zero,
          zero, zero, zero, one])"

definition Scaling :: "('d, 'f) arith \<Rightarrow> 'f \<Rightarrow> 'f \<Rightarrow> 'f list" where
  "Scaling A sx sy =
     (let one = to_float A (d_lit A 1 1); zero = to_float A (d_lit A 0 1)
      in [sx, zero, zero, zero,
          zero, sy, zero, zero,
          zero, zero, one, zero,
          zero, zero, zero, one])"

definition entry :: "('d, 'f) arith \<Rightarrow> 'f list \<Rightarrow> 'f list \<Rightarrow> nat \<Rightarrow> nat \<Rightarrow> 'f" where
  "entry A left right i j =
     to_float A
       (d_add A
         (d_add A
           (d_add A
             (d_add A (d_lit A 0 1)
               (to_double A (f_mul A (left ! (4 * i)) (right ! j))))
             (to_double A (f_mul A (left ! (4 * i + 1)) (right ! (4 + j)))))
           (to_double A (f_mul A (left ! (4 * i + 2)) (right ! (8 + j)))))
         (to_double A (f_mul A (left ! (4 * i + 3)) (right ! (12 + j)))))"

definition matmul :: "('d, 'f) arith \<Rightarrow> 'f list \<Rightarrow> 'f list \<Rightarrow> 'f list" where
  "matmul A left right = map (\<lambda>n. entry A left right (n div 4) (n mod 4)) [0..<16]"

text \<open>
  A matrix is applied to a vertex \<open>(x, y, 0, 1)\<close> by the renderer, outside the sources. To say
  where a physical point lands, the finite entries of a \<open>float\<close> matrix are read as real
  numbers (\<open>the_value\<close>) and the matrix is applied exactly; \<open>openGlToPixel\<close> inverts
  \<open>mapPixelCoordinateToOpenGlCoordinate\<close>.
\<close>

definition the_value :: "ieee \<Rightarrow> real" where
  "the_value x =
     (case x of
        Finite s m e \<Rightarrow>
          (if s then - 1 else 1) * of_nat m * (if 0 \<le> e then 2 ^ nat e else 1 / 2 ^ nat (- e))
      | _ \<Rightarrow> 0)"

definition apply_matrix :: "real list \<Rightarrow> real \<times> real \<Rightarrow> real \<times> real" where
  "apply_matrix M v =
     (M ! 0 * fst v + M ! 1 * snd v + M ! 3, M ! 4 * fst v + M ! 5 * snd v + M ! 7)"

definition openGlToPixel :: "real \<times> real \<Rightarrow> int \<times> int \<Rightarrow> real \<times> real" where
  "openGlToPixel c windowSize =
     ((fst c + 1) * of_int (fst windowSize) / 2, (snd c + 1) * of_int (snd windowSize) / 2)"

text \<open>
  In exact arithmetic every matrix of the transformation code has the shape of a plane affine
  map: a linear part \<open>a b / c d\<close> and a translation \<open>tx ty\<close>.
\<close>

definition affine :: "real \<Rightarrow> real \<Rightarrow> real \<Rightarrow> real \<Rightarrow> real \<Rightarrow> real \<Rightarrow> real list" where
  "affine a b tx c d ty =
     [a, b, 0, tx,
      c, d, 0, ty,
      0, 0, 1, 0,
      0, 0, 0, 1]"

text \<open>
  The matrix of the full-map scenario: wall width 0.012 m, a maze of 1 m by 1 m, and a map of
  400 by 400 pixels at the origin of a window of 400 by 400 pixels.
\<close>

definition full_map_example :: "float list" where
  "full_map_example =
     [Finite False 1 1, Finite False 0 0, Finite False 0 0, Finite True 16575889 (- 24),
      Finite False 0 0, Finite False 1 1, Finite False 0 0, Finite True 16575889 (- 24),
      Finite False 0 0, Finite False 0 0, Finite False 1 0, Finite False 0 0,
      Finite False 0 0, Finite False 0 0, Finite False 0 0, Finite False 1 0]"

text \<open>
  The matrices of a zoomed-map scenario: a maze of 1 m by 1 m, a map of 400 by 400 pixels at
  the origin of a window of 400 by 400 pixels, 100 screen pixels per meter, zoom 3, the mouse
  at rest at (0.3 m, 0.3 m), and \<open>theta = 0\<close>; without and with rotation.
\<close>

definition zoomed_example_camera :: "float list" where
  "zoomed_example_camera =
     [Finite False 3 (- 1), Finite False 0 0, Finite False 0 0, Finite True 7549747 (- 24),
      Finite False 0 0, Finite False 3 (- 1), Finite False 0 0, Finite True 7549747 (- 24),
      Finite False 0 0, Finite False 0 0, Finite False 1 0, Finite False 0 0,
      Finite False 0 0, Finite False 0 0, Finite False 0 0, Finite False 1 0]"

definition zoomed_example_rotated :: "float list" where
  "zoomed_example_rotated =
     [Finite False 3 (- 1), Finite False 0 0, Finite False 0 0, Finite True 15099495 (- 25),
      Finite False 0 0, Finite False 3 (- 1), Finite False 0 0, Finite True 15099495 (- 25),
      Finite False 0 0, Finite False 0 0, Finite False 1 0, Finite False 0 0,
      Finite False 0 0, Finite False 0 0, Finite False 0 0, Finite False 1 0]"

text \<open>The same scenario with zoom 0: the camera matrix, and the matrix returned with rotation.\<close>

definition zoomed_zero_camera :: "float list" where
  "zoomed_zero_camera =
     [Finite False 0 0, Finite False 0 0, Finite False 0 0, Finite False 0 0,
      Finite False 0 0, Finite False 0 0, Finite False 0 0, Finite False 0 0,
      Finite False 0 0, Finite False 0 0, Finite False 1 0, Finite False 0 0,
      Finite False 0 0, Finite False 0 0, Finite False 0 0, Finite False 1 0]"

definition zoomed_zero_rotated :: "float list" where
  "zoomed_zero_rotated =
     [NaN, NaN, NaN, NaN, NaN, NaN, NaN, NaN, NaN, NaN, NaN, NaN, NaN, NaN, NaN, NaN]"

subsection \<open>The full-map algorithm in the words of the specification\<close>











subsection \<open>Values and rounding errors\<close>

text \<open>
  The vocabulary of the error analysis: a value is finite when it is neither an infinity nor
  \<open>NaN\<close>; the unit roundoff \<open>2^-p\<close> of a format bounds the relative error of one
  rounding, and \<open>underflow_unit\<close>, half the distance between two subnormal numbers, bounds
  its absolute error below the normal range.
\<close>

definition is_finite :: "ieee \<Rightarrow> bool" where
  "is_finite x = (case x of Finite s m e \<Rightarrow> True | _ \<Rightarrow> False)"

definition unit_roundoff :: "format \<Rightarrow> real" where
  "unit_roundoff fmt = 2 powi (- int (fst fmt))"

definition underflow_unit :: "format \<Rightarrow> real" where
  "underflow_unit fmt = 2 powi (1 - snd fmt - int (fst fmt))"

text \<open>
  A real number is exact in a format when the format holds it: an integer below \<open>2^p\<close>
  times a power of two that is not below the smallest one, and below the overflow threshold.
  \<open>representable\<close> is the same test on a finite value of the model, and can be evaluated.
\<close>

definition exact_in :: "format \<Rightarrow> real \<Rightarrow> bool" where
  "exact_in fmt r =
     (\<exists>M E. \<bar>r\<bar> = real M * 2 powi E \<and> M < 2 ^ fst fmt \<and> 2 - snd fmt - int (fst fmt) \<le> E
        \<and> \<bar>r\<bar> < 2 powi (snd fmt + 1))"

definition representable :: "format \<Rightarrow> ieee \<Rightarrow> bool" where
  "representable fmt x =
     (case x of
        Finite s m e \<Rightarrow>
          m < 2 ^ fst fmt \<and> 2 - snd fmt - int (fst fmt) \<le> e
            \<and> int (bit_length m) + e \<le> snd fmt + 1
      | _ \<Rightarrow> False)"

definition sign_factor :: "bool \<Rightarrow> real" where
  "sign_factor s = (if s then - 1 else 1)"

text \<open>
  One entry of the product as the loop of \<open>multiply4x4Matrices\<close> computes it: four
  \<open>float\<close> products, added one after the other to a \<open>double\<close> that starts at zero, and
  converted to \<open>float\<close>.
\<close>

definition dot4 :: "float \<Rightarrow> float \<Rightarrow> float \<Rightarrow> float \<Rightarrow> float \<Rightarrow> float \<Rightarrow> float \<Rightarrow> float \<Rightarrow> float" where
  "dot4 a0 b0 a1 b1 a2 b2 a3 b3 =
     narrow
       (fp_add binary64
         (fp_add binary64
           (fp_add binary64
             (fp_add binary64 (Finite False 0 0) (fp_mul binary32 a0 b0))
             (fp_mul binary32 a1 b1))
           (fp_mul binary32 a2 b2))
         (fp_mul binary32 a3 b3))"

text \<open>
  The identity matrix in \<open>float\<close>, matrices whose entries are finite and bounded in
  magnitude, and a matrix with an infinite entry together with its product with the identity.
\<close>

definition identity_matrix :: "float list" where
  "identity_matrix =
     [Finite False 1 0, Finite False 0 0, Finite False 0 0, Finite False 0 0,
      Finite False 0 0, Finite False 1 0, Finite False 0 0, Finite False 0 0,
      Finite False 0 0, Finite False 0 0, Finite False 1 0, Finite False 0 0,
      Finite False 0 0, Finite False 0 0, Finite False 0 0, Finite False 1 0]"

definition bounded_by :: "real \<Rightarrow> float list \<Rightarrow> bool" where
  "bounded_by K m = list_all (\<lambda>x. is_finite x \<and> \<bar>the_value x\<bar> \<le> K) m"

definition infinity_example :: "float list" where
  "infinity_example =
     [Infinity False, Finite False 0 0, Finite False 0 0, Finite False 0 0,
      Finite False 0 0, Finite False 1 0, Finite False 0 0, Finite False 0 0,
      Finite False 0 0, Finite False 0 0, Finite False 1 0, Finite False 0 0,
      Finite False 0 0, Finite False 0 0, Finite False 0 0, Finite False 1 0]"

definition infinity_product :: "float list" where
  "infinity_product =
     [Infinity False, Finite False 0 0, Finite False 0 0, Finite False 0 0,
      NaN, Finite False 1 0, Finite False 0 0, Finite False 0 0,
      NaN, Finite False 0 0, Finite False 1 0, Finite False 0 0,
      NaN, Finite False 0 0, Finite False 0 0, Finite False 1 0]"

section \<open>Properties of \<open>setWall\<close>\<close>

subsection \<open>Auxiliary facts\<close>

text \<open>
  An index that passes the bounds check against the narrowed size is below the size itself,
  whatever the size is.
\<close>

lemma size_to_int_le:
  assumes "0 \<le> x" "x < size_to_int n"
  shows "nat x < n"
proof -
  have "int n mod 4294967296 \<le> int n"
    by (rule zmod_le_nonneg_dividend) simp
  moreover have "size_to_int n \<le> int n mod 4294967296"
    by (simp add: size_to_int_def Let_def)
  ultimately have "x < int n"
    using assms(2) by linarith
  with assms(1) show ?thesis
    by linarith
qed

lemma in_bounds_access:
  assumes "0 \<le> x" "x < getWidth s" "0 \<le> y" "y < getHeight s"
  shows "nat x < length (m_basicMaze s)" and "nat y < length (m_basicMaze s ! 0)"
  using assms size_to_int_le[of x "length (m_basicMaze s)"]  size_to_int_le[of y "length (m_basicMaze s ! 0)"]
  by (auto simp: getWidth_def getHeight_def split: if_splits)

lemma rectangular_nth:
  assumes "rectangular g" "i < length g"
  shows "length (g ! i) = length (g ! 0)"
proof -
  from assms(2) have ne: "g \<noteq> []" by auto
  from assms have "length (g ! i) = length (hd g)"
    unfolding rectangular_def list_all_length by blast
  with ne show ?thesis by (simp add: hd_conv_nth)
qed

lemma message_distinct: "unknownDirectionMessage c \<noteq> outOfBoundsMessage w h x y"
  by (simp add: unknownDirectionMessage_def outOfBoundsMessage_def)

subsection \<open>Coordinates outside the grid\<close>

text \<open>
  C7: for every \<open>(x, y)\<close> with \<open>x\<close> outside \<open>[0, width)\<close> or \<open>y\<close> outside \<open>[0, height)\<close>,
  negative values included, \<open>setWall\<close> returns normally (no exception), leaves the grid as
  it was, and prints the out-of-bounds message, which spells out the width and height that
  \<open>getWidth\<close> and \<open>getHeight\<close> report and the offending \<open>x\<close> and \<open>y\<close>.
\<close>

theorem setWall_out_of_bounds:
  assumes "x < 0 \<or> getWidth s \<le> x \<or> y < 0 \<or> getHeight s \<le> y"
  shows "\<exists>s'. setWall tbl s x y direction wallExists = Inr s'
           \<and> m_basicMaze s' = m_basicMaze s
           \<and> printed s' = printed s @
               [''Error: The generated maze width and height values are '' @ to_string (getWidth s)
                 @ '' and '' @ to_string (getHeight s)
                 @ '', respectively.There is no tile at position ('' @ to_string x @ '', ''
                 @ to_string y @ ''), and thus you cannot set its wall value.'']"
  using assms by (simp add: setWall_def print_def outOfBoundsMessage_def)

text \<open>The theorem at the square 2 by 2 maze, for the position \<open>(-1, 5)\<close>.\<close>

theorem setWall_out_of_bounds_witness:
  "((-1::int) < 0 \<or> getWidth square_maze \<le> -1 \<or> (5::int) < 0 \<or> getHeight square_maze \<le> 5)
   \<and> (\<exists>s'. setWall CHAR_TO_DIRECTION square_maze (-1) 5 (CHR ''n'') True = Inr s'
           \<and> m_basicMaze s' = m_basicMaze square_maze
           \<and> printed s' = [''Error: The generated maze width and height values are 2 and 2, respectively.There is no tile at position (-1, 5), and thus you cannot set its wall value.''])"
  using setWall_out_of_bounds [of "-1" square_maze 5 CHAR_TO_DIRECTION "CHR ''n''" True]
  by (simp add: getWidth_def getHeight_def size_to_int_def square_maze_def to_string_def
      nat_to_string.simps digit_char_def)

subsection \<open>Direction characters outside the code table\<close>

text \<open>
  C8, as the code has it: for a direction character that is not a key of the code table,
  \<open>setWall\<close> returns normally and leaves the grid as it was, for every \<open>(x, y)\<close>. When
  \<open>(x, y)\<close> is inside the grid it prints the unknown-direction message, which differs from
  the out-of-bounds message; when \<open>(x, y)\<close> is outside the grid the bounds check comes first
  and the out-of-bounds message is printed instead.
\<close>

theorem setWall_unknown_direction:
  assumes "tbl direction = None"
  shows "\<exists>s'. setWall tbl s x y direction wallExists = Inr s'
           \<and> m_basicMaze s' = m_basicMaze s
           \<and> printed s' = printed s @
               [if 0 \<le> x \<and> x < getWidth s \<and> 0 \<le> y \<and> y < getHeight s
                then ''Error: The character '' @ [CHR 0x27, direction, CHR 0x27]
                       @ '' is not mapped to a valid direction.''
                else outOfBoundsMessage (getWidth s) (getHeight s) x y]
           \<and> ''Error: The character '' @ [CHR 0x27, direction, CHR 0x27]
                 @ '' is not mapped to a valid direction.''
               \<noteq> outOfBoundsMessage (getWidth s) (getHeight s) x y"
  using assms message_distinct [of direction "getWidth s" "getHeight s" x y]
  by (auto simp add: setWall_def print_def unknownDirectionMessage_def)

text \<open>The theorem at the square maze, position \<open>(1, 0)\<close> and the character \<open>q\<close>.\<close>

theorem setWall_unknown_direction_witness:
  "CHAR_TO_DIRECTION (CHR ''q'') = None
   \<and> (\<exists>s'. setWall CHAR_TO_DIRECTION square_maze 1 0 (CHR ''q'') True = Inr s'
          \<and> m_basicMaze s' = m_basicMaze square_maze
          \<and> printed s' = [''Error: The character '' @ [CHR 0x27] @ ''q'' @ [CHR 0x27] @ '' is not mapped to a valid direction.''])"
  using setWall_unknown_direction [of CHAR_TO_DIRECTION "CHR ''q''" square_maze 1 0 True]
  by (auto simp add: CHAR_TO_DIRECTION_def getWidth_def getHeight_def size_to_int_def square_maze_def)

text \<open>
  C8 as stated fails for a position outside the grid: at \<open>(5, 0)\<close> of the square maze the
  unknown character \<open>q\<close> produces the out-of-bounds message, not the unknown-direction one.
\<close>

theorem setWall_unknown_direction_counterexample:
  "CHAR_TO_DIRECTION (CHR ''q'') = None
   \<and> setWall CHAR_TO_DIRECTION square_maze 5 0 (CHR ''q'') True
       = Inr (square_maze\<lparr>printed := [''Error: The generated maze width and height values are 2 and 2, respectively.There is no tile at position (5, 0), and thus you cannot set its wall value.'']\<rparr>)
   \<and> ''Error: The generated maze width and height values are 2 and 2, respectively.There is no tile at position (5, 0), and thus you cannot set its wall value.''
       \<noteq> unknownDirectionMessage (CHR ''q'')"
  by (simp add: CHAR_TO_DIRECTION_def setWall_def getWidth_def getHeight_def size_to_int_def
      square_maze_def print_def outOfBoundsMessage_def unknownDirectionMessage_def to_string_def
      nat_to_string.simps digit_char_def)

subsection \<open>A valid write\<close>

text \<open>
  C9: the grid is the \<open>TileGrid\<close> of the specification, a two-dimensional array with one
  inner length, so every column is as long as the first. For \<open>(x, y)\<close> inside
  \<open>[0, width) \<times> [0, height)\<close> and a direction character of the code table, \<open>setWall\<close>
  returns normally, prints nothing, keeps the shape of the grid, sets the flag of that
  direction of tile \<open>(x, y)\<close> to the given value (so that reading it back gives the new
  value), and leaves every other flag of that tile and every other tile as they were.
\<close>

theorem setWall_writes_one_flag:
  assumes "rectangular (m_basicMaze s)"
    and "0 \<le> x" "x < getWidth s" "0 \<le> y" "y < getHeight s"
    and "tbl direction = Some d"
  shows "\<exists>s'. setWall tbl s x y direction wallExists = Inr s'
           \<and> printed s' = printed s
           \<and> map length (m_basicMaze s') = map length (m_basicMaze s)
           \<and> walls (m_basicMaze s' ! nat x ! nat y) d = wallExists
           \<and> (\<forall>d'. d' \<noteq> d \<longrightarrow>
                 walls (m_basicMaze s' ! nat x ! nat y) d' = walls (m_basicMaze s ! nat x ! nat y) d')
           \<and> (\<forall>i j. i < length (m_basicMaze s) \<longrightarrow> j < length (m_basicMaze s ! i)
                 \<longrightarrow> (i, j) \<noteq> (nat x, nat y)
                 \<longrightarrow> m_basicMaze s' ! i ! j = m_basicMaze s ! i ! j)"
proof -
  let ?g = "m_basicMaze s"
  let ?tile = "?g ! nat x ! nat y"
  let ?g' = "?g[nat x := (?g ! nat x)[nat y := ?tile\<lparr>walls := (walls ?tile)(d := wallExists)\<rparr>]]"
  have xlt: "nat x < length ?g"
    using assms(2-5) by (rule in_bounds_access(1))
  have ylt0: "nat y < length (?g ! 0)"
    using assms(2-5) by (rule in_bounds_access(2))
  have "length (?g ! nat x) = length (?g ! 0)"
    using assms(1) xlt by (rule rectangular_nth)
  with ylt0 have ylt: "nat y < length (?g ! nat x)"
    by simp
  have run: "setWall tbl s x y direction wallExists = Inr (s\<lparr>m_basicMaze := ?g'\<rparr>)"
    using assms(2-6) xlt ylt by (simp add: setWall_def vector_at_def)
  have shape: "map length ?g' = map length ?g"
    using xlt by (simp add: map_update list_update_same_conv)
  have other: "?g' ! i ! j = ?g ! i ! j" if "i < length ?g" "(i, j) \<noteq> (nat x, nat y)" for i j
    using that xlt by (cases "i = nat x") auto
  show ?thesis
    unfolding run using xlt ylt shape other by (intro exI[of _ "s\<lparr>m_basicMaze := ?g'\<rparr>"]) simp
qed

text \<open>The theorem at the square maze: writing the east wall of tile \<open>(1, 0)\<close>.\<close>

theorem setWall_writes_one_flag_witness:
  "rectangular (m_basicMaze square_maze)
   \<and> (0::int) \<le> 1 \<and> 1 < getWidth square_maze \<and> (0::int) \<le> 0 \<and> 0 < getHeight square_maze
   \<and> CHAR_TO_DIRECTION (CHR ''e'') = Some EAST
   \<and> (\<exists>s'. setWall CHAR_TO_DIRECTION square_maze 1 0 (CHR ''e'') True = Inr s'
          \<and> printed s' = []
          \<and> walls (m_basicMaze s' ! 1 ! 0) EAST
          \<and> \<not> walls (m_basicMaze s' ! 1 ! 0) NORTH
          \<and> m_basicMaze s' ! 0 ! 1 = open_tile)"
proof -
  have h: "rectangular (m_basicMaze square_maze)"
    "(0::int) \<le> 1" "1 < getWidth square_maze" "(0::int) \<le> 0" "0 < getHeight square_maze"
    "CHAR_TO_DIRECTION (CHR ''e'') = Some EAST"
    by (simp_all add: rectangular_def getWidth_def getHeight_def size_to_int_def square_maze_def
        CHAR_TO_DIRECTION_def)
  from setWall_writes_one_flag [where tbl = CHAR_TO_DIRECTION and direction = "CHR ''e''" and wallExists = True, OF h] obtain s' where
    r: "setWall CHAR_TO_DIRECTION square_maze 1 0 (CHR ''e'') True = Inr s'"
      "printed s' = printed square_maze"
      "walls (m_basicMaze s' ! nat 1 ! nat 0) EAST = True"
      "\<forall>d'. d' \<noteq> EAST \<longrightarrow>
         walls (m_basicMaze s' ! nat 1 ! nat 0) d' = walls (m_basicMaze square_maze ! nat 1 ! nat 0) d'"
      "\<forall>i j. i < length (m_basicMaze square_maze) \<longrightarrow> j < length (m_basicMaze square_maze ! i)
         \<longrightarrow> (i, j) \<noteq> (nat 1, nat 0)
         \<longrightarrow> m_basicMaze s' ! i ! j = m_basicMaze square_maze ! i ! j"
    by blast
  from r(4) have n: "walls (m_basicMaze s' ! 1 ! 0) NORTH = walls (m_basicMaze square_maze ! 1 ! 0) NORTH"
    by simp
  from r(5) have o: "m_basicMaze s' ! 0 ! 1 = m_basicMaze square_maze ! 0 ! 1"
    by (simp add: square_maze_def)
  show ?thesis
    using h r(1,2,3) n o by (simp add: square_maze_def open_tile_def)
qed

subsection \<open>Rectangular grids\<close>

text \<open>
  C10: the height that the bounds check uses is the length of column 0, and 0 when the grid
  has no column. In a rectangular grid, a call that passes the bounds check and the
  direction check reads column \<open>x\<close> and tile \<open>y\<close> of it inside their ranges, and no exception
  leaves \<open>setWall\<close>.
\<close>

theorem setWall_rectangular_no_exception:
  "(m_basicMaze s = [] \<longrightarrow> getHeight s = 0)
   \<and> (m_basicMaze s \<noteq> [] \<longrightarrow> getHeight s = size_to_int (length (m_basicMaze s ! 0)))
   \<and> (rectangular (m_basicMaze s) \<and> 0 \<le> x \<and> x < getWidth s \<and> 0 \<le> y \<and> y < getHeight s
        \<and> tbl direction = Some d
      \<longrightarrow> vector_at (m_basicMaze s) x = Inr (m_basicMaze s ! nat x)
          \<and> vector_at (m_basicMaze s ! nat x) y = Inr (m_basicMaze s ! nat x ! nat y)
          \<and> (\<forall>e. setWall tbl s x y direction wallExists \<noteq> Inl e))"
proof (intro conjI impI)
  show "getHeight s = 0" if "m_basicMaze s = []"
    using that by (simp add: getHeight_def)
  show "getHeight s = size_to_int (length (m_basicMaze s ! 0))" if "m_basicMaze s \<noteq> []"
    using that by (simp add: getHeight_def)
next
  let ?g = "m_basicMaze s"
  assume a: "rectangular ?g \<and> 0 \<le> x \<and> x < getWidth s \<and> 0 \<le> y \<and> y < getHeight s
        \<and> tbl direction = Some d"
  then have r: "rectangular ?g" and x0: "0 \<le> x" and xw: "x < getWidth s"
    and y0: "0 \<le> y" and yh: "y < getHeight s" and t: "tbl direction = Some d"
    by simp_all
  have xlt: "nat x < length ?g"
    using x0 xw y0 yh by (rule in_bounds_access(1))
  have ylt0: "nat y < length (?g ! 0)"
    using x0 xw y0 yh by (rule in_bounds_access(2))
  have "length (?g ! nat x) = length (?g ! 0)"
    using r xlt by (rule rectangular_nth)
  with ylt0 have ylt: "nat y < length (?g ! nat x)" by simp
  show a1: "vector_at ?g x = Inr (?g ! nat x)"
    using xlt x0 by (simp add: vector_at_def)
  show a2: "vector_at (?g ! nat x) y = Inr (?g ! nat x ! nat y)"
    using ylt y0 by (simp add: vector_at_def)
  have inb: "\<not> (x < 0 \<or> getWidth s \<le> x \<or> y < 0 \<or> getHeight s \<le> y)"
    using x0 xw y0 yh by simp
  have "\<exists>s'. setWall tbl s x y direction wallExists = Inr s'"
    unfolding setWall_def by (simp only: inb if_False t option.case a1 a2 sum.case) blast
  then show "\<forall>e. setWall tbl s x y direction wallExists \<noteq> Inl e"
    by auto
qed

text \<open>
  The theorem at the maze without columns, whose height is 0, and at the square maze: the
  south wall of tile \<open>(1, 1)\<close>.
\<close>

theorem setWall_rectangular_no_exception_witness:
  "m_basicMaze empty_maze = [] \<and> getHeight empty_maze = 0
   \<and> m_basicMaze square_maze \<noteq> []
   \<and> rectangular (m_basicMaze square_maze)
   \<and> (0::int) \<le> 1 \<and> 1 < getWidth square_maze \<and> (0::int) \<le> 1 \<and> 1 < getHeight square_maze
   \<and> CHAR_TO_DIRECTION (CHR ''s'') = Some SOUTH
   \<and> getHeight square_maze = 2
   \<and> vector_at (m_basicMaze square_maze) 1 = Inr [open_tile, open_tile]
   \<and> vector_at [open_tile, open_tile] 1 = Inr open_tile
   \<and> (\<forall>e. setWall CHAR_TO_DIRECTION square_maze 1 1 (CHR ''s'') False \<noteq> Inl e)"
proof -
  have e: "m_basicMaze empty_maze = []"
    by (simp add: empty_maze_def)
  have n: "m_basicMaze square_maze \<noteq> []"
    by (simp add: square_maze_def)
  have h: "rectangular (m_basicMaze square_maze) \<and> (0::int) \<le> 1 \<and> 1 < getWidth square_maze
      \<and> (0::int) \<le> 1 \<and> 1 < getHeight square_maze \<and> CHAR_TO_DIRECTION (CHR ''s'') = Some SOUTH"
    by (simp add: rectangular_def getWidth_def getHeight_def size_to_int_def square_maze_def
        CHAR_TO_DIRECTION_def)
  show ?thesis
    using e n h
      setWall_rectangular_no_exception [of empty_maze]
      setWall_rectangular_no_exception [where s = square_maze and x = 1 and y = 1
        and tbl = CHAR_TO_DIRECTION and direction = "CHR ''s''" and d = SOUTH
        and wallExists = False]
    by (simp add: square_maze_def size_to_int_def)
qed

section \<open>Properties of the transformation matrices\<close>

subsection \<open>Evaluating the arithmetic\<close>

text \<open>
  The recursive functions are unfolded on numerals only, so that the simplifier evaluates a
  closed term from the inside out.
\<close>

lemma bit_length_numeral:
  "bit_length 0 = 0"
  "bit_length 1 = 1"
  "bit_length (Suc 0) = 1"
  "bit_length (numeral k) = Suc (bit_length (numeral k div 2))"
  by (simp_all add: bit_length.simps [of 0] bit_length.simps [of 1] bit_length.simps [of "Suc 0"]
      bit_length.simps [of "numeral k"])

lemma normal_form_numeral:
  "normal_form 0 e = (0, 0)"
  "normal_form 1 e = (1, e)"
  "normal_form (Suc 0) e = (1, e)"
  "normal_form (numeral k) e =
     (if even (numeral k :: nat) then normal_form (numeral k div 2) (e + 1) else (numeral k, e))"
  by (simp_all add: normal_form.simps [of 0] normal_form.simps [of 1] normal_form.simps [of "Suc 0"]
      normal_form.simps [of "numeral k"])

lemma ieee_arith_simps:
  "d_add ieee_arith = fp_add binary64"
  "d_sub ieee_arith = fp_sub binary64"
  "d_mul ieee_arith = fp_mul binary64"
  "d_div ieee_arith = fp_div binary64"
  "d_neg ieee_arith = fp_neg"
  "d_less ieee_arith = fp_less"
  "d_int ieee_arith = dbl"
  "d_lit ieee_arith = decimal"
  "f_mul ieee_arith = fp_mul binary32"
  "to_float ieee_arith = narrow"
  "to_double ieee_arith = widen"
  by (simp_all add: ieee_arith_def)

lemma exact_arith_simps:
  "d_add exact_arith x y = x + y"
  "d_sub exact_arith x y = x - y"
  "d_mul exact_arith x y = x * y"
  "d_div exact_arith x y = x / y"
  "d_neg exact_arith x = - x"
  "d_less exact_arith x y = (x < y)"
  "d_int exact_arith i = of_int i"
  "d_lit exact_arith n d = of_nat n / of_nat d"
  "f_mul exact_arith x y = x * y"
  "to_float exact_arith x = x"
  "to_double exact_arith x = x"
  by (simp_all add: exact_arith_def)

lemmas fp_simps = ieee_arith_simps round_to_def round_at_def pack_def finite_of_def quantum_def
  scaled_def round_even_def nearest_even_def floor_log2_def floor_log2_near_def binary64_def
  binary32_def bit_length_numeral normal_form_numeral round_sum_def aligned_def fp_sub_def
  fp_neg_def signed_def is_zero_def sign_of_def dbl_def decimal_def narrow_def widen_def
  std_min_def

text \<open>A few values of the arithmetic, as the hardware gives them.\<close>

lemma ieee_examples:
  "decimal 1 10 = Finite False 3602879701896397 (- 55)"
  "narrow (decimal 1 10) = Finite False 13421773 (- 27)"
  "fp_div binary64 (dbl 1) (dbl 3) = Finite False 6004799503160661 (- 54)"
  "fp_add binary64 (decimal 1 10) (decimal 2 10) = Finite False 1351079888211149 (- 52)"
  "fp_div binary64 (dbl (- 1)) (dbl 0) = Infinity True"
  "fp_mul binary32 (Infinity False) (Finite True 0 0) = NaN"
  "fp_add binary64 (Finite True 0 0) (Finite False 0 0) = Finite False 0 0"
  "fp_sub binary64 (decimal 1 10) (decimal 1 10) = Finite False 0 0"
  by (simp_all add: fp_simps)

lemma one_value: "narrow (decimal 1 1) = Finite False 1 0"
  by (simp add: fp_simps)

lemma zero_value: "narrow (decimal 0 1) = Finite False 0 0"
  by (simp add: fp_simps)

lemma double_zero: "decimal 0 1 = Finite False 0 0"
  by (simp add: fp_simps)

lemma Translation_values:
  "Translation ieee_arith tx ty =
     [Finite False 1 0, Finite False 0 0, Finite False 0 0, tx,
      Finite False 0 0, Finite False 1 0, Finite False 0 0, ty,
      Finite False 0 0, Finite False 0 0, Finite False 1 0, Finite False 0 0,
      Finite False 0 0, Finite False 0 0, Finite False 0 0, Finite False 1 0]"
  by (simp only: Translation_def Let_def ieee_arith_simps one_value zero_value)

lemma Scaling_values:
  "Scaling ieee_arith sx sy =
     [sx, Finite False 0 0, Finite False 0 0, Finite False 0 0,
      Finite False 0 0, sy, Finite False 0 0, Finite False 0 0,
      Finite False 0 0, Finite False 0 0, Finite False 1 0, Finite False 0 0,
      Finite False 0 0, Finite False 0 0, Finite False 0 0, Finite False 1 0]"
  by (simp only: Scaling_def Let_def ieee_arith_simps one_value zero_value)

subsection \<open>The loops of \<open>multiply4x4Matrices\<close> compute the row-major product\<close>

lemma upt_4: "[0..<4] = [0, 1, 2, 3]"
  by (simp add: upt_rec)

lemma upt_16: "[0..<16] = [0, 1, 2, 3, 4, 5, 6, 7, 8, 9, 10, 11, 12, 13, 14, 15]"
  by (simp add: upt_rec)

lemma matmul_entries:
  "matmul A l r =
     [entry A l r 0 0, entry A l r 0 1, entry A l r 0 2, entry A l r 0 3,
      entry A l r 1 0, entry A l r 1 1, entry A l r 1 2, entry A l r 1 3,
      entry A l r 2 0, entry A l r 2 1, entry A l r 2 2, entry A l r 2 3,
      entry A l r 3 0, entry A l r 3 1, entry A l r 3 2, entry A l r 3 3]"
  by (simp add: matmul_def upt_16)

lemma length_matmul: "length (matmul A l r) = 16"
  by (simp add: matmul_def)

lemma multiply_matmul:
  assumes "length left = 16" "length right = 16"
  shows "multiply4x4Matrices A left right = Inr (matmul A left right)"
  using assms by (simp add: multiply4x4Matrices_def matmul_entries entry_def upt_4 Let_def)

lemma length_Translation: "length (Translation A tx ty) = 16"
  by (simp add: Translation_def Let_def)

lemma length_Scaling: "length (Scaling A sx sy) = 16"
  by (simp add: Scaling_def Let_def)

text \<open>
  C6: in every arithmetic, when either operand does not have 16 elements the call ends in
  the fatal assertion; when both have 16 elements no assertion fires and a matrix of 16
  elements is returned.
\<close>

theorem multiply4x4Matrices_size_contract:
  "(length left \<noteq> 16 \<or> length right \<noteq> 16
      \<longrightarrow> multiply4x4Matrices A left right = Inl assertion_failed)
   \<and> (length left = 16 \<and> length right = 16
      \<longrightarrow> (\<exists>result. multiply4x4Matrices A left right = Inr result \<and> length result = 16))"
proof (intro conjI impI)
  assume "length left \<noteq> 16 \<or> length right \<noteq> 16"
  then show "multiply4x4Matrices A left right = Inl assertion_failed"
    by (auto simp: multiply4x4Matrices_def)
next
  assume "length left = 16 \<and> length right = 16"
  then have "multiply4x4Matrices A left right = Inr (matmul A left right)"
    by (simp add: multiply_matmul)
  then show "\<exists>result. multiply4x4Matrices A left right = Inr result \<and> length result = 16"
    by (simp add: length_matmul)
qed

text \<open>
  The theorem in the arithmetic of the program, for an empty left operand, for a right
  operand of three elements, and for two matrices of 16 elements.
\<close>

theorem multiply4x4Matrices_size_contract_witness:
  "multiply4x4Matrices ieee_arith [] full_map_example = Inl assertion_failed
   \<and> multiply4x4Matrices ieee_arith full_map_example [NaN, NaN, NaN] = Inl assertion_failed
   \<and> (\<exists>result. multiply4x4Matrices ieee_arith full_map_example full_map_example = Inr result
          \<and> length result = 16)"
  using multiply4x4Matrices_size_contract [of "[]" full_map_example ieee_arith]
    multiply4x4Matrices_size_contract [of full_map_example "[NaN, NaN, NaN]" ieee_arith]
    multiply4x4Matrices_size_contract [of full_map_example full_map_example ieee_arith]
  by (simp add: full_map_example_def)

subsection \<open>The full-map matrix\<close>

text \<open>The body of \<open>getFullMapTransformationMatrix\<close> with both products carried out.\<close>

lemma getFullMapTransformationMatrix_matmul:
  "getFullMapTransformationMatrix A wallWidth physicalMazeSize fullMapPosition fullMapSize
       windowSize =
     (let physicalWidth = fst physicalMazeSize;
          physicalHeight = snd physicalMazeSize;
          pixelsPerMeter =
            std_min A (d_div A (d_int A (fst fullMapSize)) physicalWidth)
                      (d_div A (d_int A (snd fullMapSize)) physicalHeight);
          pixelWidth = d_mul A pixelsPerMeter physicalWidth;
          pixelHeight = d_mul A pixelsPerMeter physicalHeight;
          openGlOrigin = mapPixelCoordinateToOpenGlCoordinate A (d_int A 0, d_int A 0) windowSize;
          openGlMazeSize =
            mapPixelCoordinateToOpenGlCoordinate A (pixelWidth, pixelHeight) windowSize;
          horizontalScaling =
            d_div A (d_sub A (fst openGlMazeSize) (fst openGlOrigin)) physicalWidth;
          verticalScaling =
            d_div A (d_sub A (snd openGlMazeSize) (snd openGlOrigin)) physicalHeight;
          openGlLowerLeftCorner =
            mapPixelCoordinateToOpenGlCoordinate A
              (d_add A (d_int A (fst fullMapPosition))
                 (d_mul A (d_lit A 5 10) (d_sub A (d_int A (fst fullMapSize)) pixelWidth)),
               d_add A (d_int A (snd fullMapPosition))
                 (d_mul A (d_lit A 5 10) (d_sub A (d_int A (snd fullMapSize)) pixelHeight)))
              windowSize
      in Inr (matmul A
                (Translation A (to_float A (fst openGlLowerLeftCorner))
                   (to_float A (snd openGlLowerLeftCorner)))
                (matmul A (Scaling A (to_float A horizontalScaling) (to_float A verticalScaling))
                   (Translation A (to_float A (d_mul A (d_lit A 5 10) wallWidth))
                      (to_float A (d_mul A (d_lit A 5 10) wallWidth))))))"
proof -
  have inner: "multiply4x4Matrices A (Scaling A sx sy) (Translation A tx ty)
      = Inr (matmul A (Scaling A sx sy) (Translation A tx ty))" for sx sy tx ty
    by (simp add: multiply_matmul length_Scaling length_Translation)
  have outer: "multiply4x4Matrices A (Translation A tx ty) (matmul A l r)
      = Inr (matmul A (Translation A tx ty) (matmul A l r))" for tx ty l r
    by (simp add: multiply_matmul length_matmul length_Translation)
  have "getFullMapTransformationMatrix A wallWidth physicalMazeSize fullMapPosition fullMapSize
       windowSize =
     (let physicalWidth = fst physicalMazeSize;
          physicalHeight = snd physicalMazeSize;
          pixelsPerMeter =
            std_min A (d_div A (d_int A (fst fullMapSize)) physicalWidth)
                      (d_div A (d_int A (snd fullMapSize)) physicalHeight);
          pixelWidth = d_mul A pixelsPerMeter physicalWidth;
          pixelHeight = d_mul A pixelsPerMeter physicalHeight;
          openGlOrigin = mapPixelCoordinateToOpenGlCoordinate A (d_int A 0, d_int A 0) windowSize;
          openGlMazeSize =
            mapPixelCoordinateToOpenGlCoordinate A (pixelWidth, pixelHeight) windowSize;
          horizontalScaling =
            d_div A (d_sub A (fst openGlMazeSize) (fst openGlOrigin)) physicalWidth;
          verticalScaling =
            d_div A (d_sub A (snd openGlMazeSize) (snd openGlOrigin)) physicalHeight;
          openGlLowerLeftCorner =
            mapPixelCoordinateToOpenGlCoordinate A
              (d_add A (d_int A (fst fullMapPosition))
                 (d_mul A (d_lit A 5 10) (d_sub A (d_int A (fst fullMapSize)) pixelWidth)),
               d_add A (d_int A (snd fullMapPosition))
                 (d_mul A (d_lit A 5 10) (d_sub A (d_int A (snd fullMapSize)) pixelHeight)))
              windowSize
      in case multiply4x4Matrices A
                (Scaling A (to_float A horizontalScaling) (to_float A verticalScaling))
                (Translation A (to_float A (d_mul A (d_lit A 5 10) wallWidth))
                   (to_float A (d_mul A (d_lit A 5 10) wallWidth))) of
           Inl failure \<Rightarrow> Inl failure
         | Inr product \<Rightarrow>
             multiply4x4Matrices A
               (Translation A (to_float A (fst openGlLowerLeftCorner))
                  (to_float A (snd openGlLowerLeftCorner)))
               product)"
    by (simp only: getFullMapTransformationMatrix_def Translation_def Scaling_def Let_def)
  then show ?thesis
    by (simp only: inner outer Let_def sum.case)
qed















text \<open>The full-map scenario in the arithmetic of the program, evaluated step by step.\<close>

lemma full_map_example_value:
  "getFullMapTransformationMatrix ieee_arith (decimal 12 1000) (dbl 1, dbl 1) (0, 0) (400, 400)
     (400, 400) = Inr full_map_example"
proof -
  have hw: "narrow (fp_mul binary64 (decimal 5 10) (decimal 12 1000)) = Finite False 6442451 (- 30)"
    by (simp add: fp_simps)
  have ppm: "std_min ieee_arith (fp_div binary64 (dbl 400) (dbl 1)) (fp_div binary64 (dbl 400) (dbl 1))
      = Finite False 25 4"
    by (simp add: fp_simps)
  have pw: "fp_mul binary64 (Finite False 25 4) (dbl 1) = Finite False 25 4"
    by (simp add: fp_simps)
  have origin: "mapPixelCoordinateToOpenGlCoordinate ieee_arith (dbl 0, dbl 0) (400, 400)
      = (Finite True 1 0, Finite True 1 0)"
    by (simp add: mapPixelCoordinateToOpenGlCoordinate_def fp_simps)
  have mz: "mapPixelCoordinateToOpenGlCoordinate ieee_arith (Finite False 25 4, Finite False 25 4)
        (400, 400)
      = (Finite False 1 0, Finite False 1 0)"
    by (simp add: mapPixelCoordinateToOpenGlCoordinate_def fp_simps)
  have hs: "narrow (fp_div binary64 (fp_sub binary64 (Finite False 1 0) (Finite True 1 0)) (dbl 1))
      = Finite False 1 1"
    by (simp add: fp_simps)
  have ll: "fp_add binary64 (dbl 0)
        (fp_mul binary64 (decimal 5 10) (fp_sub binary64 (dbl 400) (Finite False 25 4)))
      = Finite False 0 0"
    by (simp add: fp_simps)
  have llndc: "mapPixelCoordinateToOpenGlCoordinate ieee_arith (Finite False 0 0, Finite False 0 0)
        (400, 400)
      = (Finite True 1 0, Finite True 1 0)"
    by (simp add: mapPixelCoordinateToOpenGlCoordinate_def fp_simps)
  have tf: "narrow (Finite True 1 0) = Finite True 1 0"
    by (simp add: fp_simps)
  have inner: "matmul ieee_arith (Scaling ieee_arith (Finite False 1 1) (Finite False 1 1))
        (Translation ieee_arith (Finite False 6442451 (- 30)) (Finite False 6442451 (- 30)))
      = [Finite False 1 1, Finite False 0 0, Finite False 0 0, Finite False 6442451 (- 29),
         Finite False 0 0, Finite False 1 1, Finite False 0 0, Finite False 6442451 (- 29),
         Finite False 0 0, Finite False 0 0, Finite False 1 0, Finite False 0 0,
         Finite False 0 0, Finite False 0 0, Finite False 0 0, Finite False 1 0]"
    apply (simp only: matmul_entries entry_def Scaling_values Translation_values ieee_arith_simps
        double_zero)
    apply (simp add: fp_simps)
    done
  have outer: "matmul ieee_arith (Translation ieee_arith (Finite True 1 0) (Finite True 1 0))
        [Finite False 1 1, Finite False 0 0, Finite False 0 0, Finite False 6442451 (- 29),
         Finite False 0 0, Finite False 1 1, Finite False 0 0, Finite False 6442451 (- 29),
         Finite False 0 0, Finite False 0 0, Finite False 1 0, Finite False 0 0,
         Finite False 0 0, Finite False 0 0, Finite False 0 0, Finite False 1 0]
      = full_map_example"
    apply (simp only: matmul_entries entry_def Translation_values ieee_arith_simps double_zero
        full_map_example_def)
    apply (simp add: fp_simps)
    done
  show ?thesis
    by (simp only: getFullMapTransformationMatrix_matmul Let_def fst_conv snd_conv
        ieee_arith_simps hw ppm pw origin mz hs ll llndc tf inner outer)
qed

lemma full_map_example_images:
  "openGlToPixel (apply_matrix (map the_value full_map_example) (0, 0)) (400, 400)
     = (5033175 / 2097152, 5033175 / 2097152)"
  "openGlToPixel (apply_matrix (map the_value full_map_example) (1, 1)) (400, 400)
     = (843893975 / 2097152, 843893975 / 2097152)"
  by (simp_all add: openGlToPixel_def apply_matrix_def full_map_example_def the_value_def)

text \<open>The same scenario in exact arithmetic.\<close>

lemma full_map_example_exact:
  "getFullMapTransformationMatrix exact_arith (12 / 1000) (1, 1) (0, 0) (400, 400) (400, 400)
     = Inr [2, 0, 0, - 247 / 250,
            0, 2, 0, - 247 / 250,
            0, 0, 1, 0,
            0, 0, 0, 1]"
  by (simp add: getFullMapTransformationMatrix_matmul Let_def matmul_entries entry_def
      Translation_def Scaling_def mapPixelCoordinateToOpenGlCoordinate_def std_min_def
      exact_arith_simps)

subsection \<open>The zoomed-map matrix\<close>

text \<open>The products of \<open>getZoomedMapTransformationMatrix\<close>, carried out.\<close>

lemma getZoomedMapTransformationMatrix_matmul:
  "getZoomedMapTransformationMatrix A physicalMazeSize zoomedMapPosition zoomedMapSize windowSize
       screenPixelsPerMeter zoomedMapScale rotateZoomedMap initialMouseTranslation
       currentMouseTranslation cosTheta sinTheta =
     (let one = to_float A (d_lit A 1 1);
          zero = to_float A (d_lit A 0 1);
          pixelsPerMeter = d_mul A screenPixelsPerMeter zoomedMapScale;
          openGlOrigin = mapPixelCoordinateToOpenGlCoordinate A (d_int A 0, d_int A 0) windowSize;
          openGlMazeSize =
            mapPixelCoordinateToOpenGlCoordinate A
              (d_mul A pixelsPerMeter (fst physicalMazeSize),
               d_mul A pixelsPerMeter (snd physicalMazeSize)) windowSize;
          horizontalScaling =
            d_div A (d_sub A (fst openGlMazeSize) (fst openGlOrigin)) (fst physicalMazeSize);
          verticalScaling =
            d_div A (d_sub A (snd openGlMazeSize) (snd openGlOrigin)) (snd physicalMazeSize);
          zoomedMapCenterXPixels =
            d_add A (d_int A (fst zoomedMapPosition))
              (d_mul A (d_lit A 5 10) (d_int A (fst zoomedMapSize)));
          zoomedMapCenterYPixels =
            d_add A (d_int A (snd zoomedMapPosition))
              (d_mul A (d_lit A 5 10) (d_int A (snd zoomedMapSize)));
          staticTranslation =
            mapPixelCoordinateToOpenGlCoordinate A
              (d_sub A zoomedMapCenterXPixels (d_mul A (fst initialMouseTranslation) pixelsPerMeter),
               d_sub A zoomedMapCenterYPixels (d_mul A (snd initialMouseTranslation) pixelsPerMeter))
              windowSize;
          dynamicTranslation =
            mapPixelCoordinateToOpenGlCoordinate A
              (d_mul A (d_sub A (fst currentMouseTranslation) (fst initialMouseTranslation))
                 pixelsPerMeter,
               d_mul A (d_sub A (snd currentMouseTranslation) (snd initialMouseTranslation))
                 pixelsPerMeter)
              windowSize;
          horizontalTranslation =
            d_add A (d_sub A (fst staticTranslation) (fst dynamicTranslation)) (fst openGlOrigin);
          verticalTranslation =
            d_add A (d_sub A (snd staticTranslation) (snd dynamicTranslation)) (snd openGlOrigin);
          zoomedMapCenterOpenGl =
            mapPixelCoordinateToOpenGlCoordinate A
              (zoomedMapCenterXPixels, zoomedMapCenterYPixels) windowSize;
          scalingMatrix = Scaling A (to_float A horizontalScaling) (to_float A verticalScaling);
          rotationMatrix =
            [to_float A cosTheta, to_float A sinTheta, zero, zero,
             to_float A (d_neg A sinTheta), to_float A cosTheta, zero, zero,
             zero, zero, one, zero,
             zero, zero, zero, one];
          inverseScalingMatrix =
            Scaling A (to_float A (d_div A (d_lit A 1 1) horizontalScaling))
              (to_float A (d_div A (d_lit A 1 1) verticalScaling));
          zoomedMapCameraMatrix =
            matmul A
              (Translation A (to_float A horizontalTranslation) (to_float A verticalTranslation))
              scalingMatrix
      in Inr (if rotateZoomedMap then
                matmul A
                  (Translation A (to_float A (fst zoomedMapCenterOpenGl))
                     (to_float A (snd zoomedMapCenterOpenGl)))
                  (matmul A scalingMatrix
                     (matmul A rotationMatrix
                        (matmul A inverseScalingMatrix
                           (matmul A
                              (Translation A (to_float A (d_neg A (fst zoomedMapCenterOpenGl)))
                                 (to_float A (d_neg A (snd zoomedMapCenterOpenGl))))
                              zoomedMapCameraMatrix))))
              else zoomedMapCameraMatrix))"
  unfolding getZoomedMapTransformationMatrix_def Translation_def Scaling_def Let_def
  by (simp add: multiply_matmul length_matmul)

subsection \<open>Exact arithmetic\<close>

lemma exact_literals:
  "d_lit exact_arith 0 1 = 0"
  "d_lit exact_arith 1 1 = 1"
  "d_lit exact_arith 5 10 = 1 / 2"
  by (simp_all add: exact_arith_simps)

lemma Translation_affine: "Translation exact_arith tx ty = affine 1 0 tx 0 1 ty"
  by (simp add: Translation_def affine_def exact_arith_simps)

lemma Scaling_affine: "Scaling exact_arith sx sy = affine sx 0 0 0 sy 0"
  by (simp add: Scaling_def affine_def exact_arith_simps)

lemma matmul_affine:
  "matmul exact_arith (affine a b tx c d ty) (affine a' b' tx' c' d' ty') =
     affine (a * a' + b * c') (a * b' + b * d') (a * tx' + b * ty' + tx)
            (c * a' + d * c') (c * b' + d * d') (c * tx' + d * ty' + ty)"
  by (simp add: matmul_entries entry_def affine_def exact_arith_simps)

lemma apply_affine:
  "apply_matrix (affine a b tx c d ty) (x, y) = (a * x + b * y + tx, c * x + d * y + ty)"
  by (simp add: apply_matrix_def affine_def)

lemma list_of_16:
  assumes "length a = 16"
  shows "a = [a ! 0, a ! 1, a ! 2, a ! 3, a ! 4, a ! 5, a ! 6, a ! 7,
              a ! 8, a ! 9, a ! 10, a ! 11, a ! 12, a ! 13, a ! 14, a ! 15]"
proof -
  have "a = map ((!) a) [0..<16]"
    using assms map_nth [of a] by simp
  then show ?thesis
    by (simp add: upt_16 numeral_2_eq_2 [symmetric])
qed

lemma matmul_exact_assoc:
  assumes "length a = 16" "length b = 16" "length c = 16"
  shows "matmul exact_arith (matmul exact_arith a b) c = matmul exact_arith a (matmul exact_arith b c)"
  by (simp add: matmul_entries entry_def exact_arith_simps algebra_simps
      numeral_2_eq_2 [symmetric])

lemma matmul_exact_identity:
  assumes "length a = 16"
  shows "matmul exact_arith a (affine 1 0 0 0 1 0) = a"
    and "matmul exact_arith (affine 1 0 0 0 1 0) a = a"
proof -
  have "matmul exact_arith a (affine 1 0 0 0 1 0) =
      [a ! 0, a ! 1, a ! 2, a ! 3, a ! 4, a ! 5, a ! 6, a ! 7,
       a ! 8, a ! 9, a ! 10, a ! 11, a ! 12, a ! 13, a ! 14, a ! 15]"
    by (simp add: matmul_entries entry_def exact_arith_simps affine_def
        numeral_2_eq_2 [symmetric])
  then show "matmul exact_arith a (affine 1 0 0 0 1 0) = a"
    using list_of_16 [OF assms] by simp
  have "matmul exact_arith (affine 1 0 0 0 1 0) a =
      [a ! 0, a ! 1, a ! 2, a ! 3, a ! 4, a ! 5, a ! 6, a ! 7,
       a ! 8, a ! 9, a ! 10, a ! 11, a ! 12, a ! 13, a ! 14, a ! 15]"
    by (simp add: matmul_entries entry_def exact_arith_simps affine_def
        numeral_2_eq_2 [symmetric])
  then show "matmul exact_arith (affine 1 0 0 0 1 0) a = a"
    using list_of_16 [OF assms] by simp
qed

lemma rotation_affine:
  "[c, s, 0, 0, ns, c', 0, 0, 0, 0, 1, 0, 0, 0, 0, 1] = affine c s 0 ns c' 0"
  by (simp add: affine_def)

lemmas exact_zoomed_simps = getZoomedMapTransformationMatrix_matmul Let_def Translation_affine
  Scaling_affine rotation_affine matmul_affine mapPixelCoordinateToOpenGlCoordinate_def
  exact_arith_simps

lemma zoomed_camera_exact:
  "getZoomedMapTransformationMatrix exact_arith (pw, ph) (px, py) (sx, sy) (ww, wh)
       screenPixelsPerMeter zoomedMapScale False (ix, iy) (cx, cy) cosTheta sinTheta =
     Inr (affine
            ((2 * (screenPixelsPerMeter * zoomedMapScale * pw) / of_int ww - 1
               - (2 * 0 / of_int ww - 1)) / pw)
            0
            (2 * (of_int px + 1 / 2 * of_int sx - ix * (screenPixelsPerMeter * zoomedMapScale))
                 / of_int ww - 1
               - (2 * ((cx - ix) * (screenPixelsPerMeter * zoomedMapScale)) / of_int ww - 1)
               + (2 * 0 / of_int ww - 1))
            0
            ((2 * (screenPixelsPerMeter * zoomedMapScale * ph) / of_int wh - 1
               - (2 * 0 / of_int wh - 1)) / ph)
            (2 * (of_int py + 1 / 2 * of_int sy - iy * (screenPixelsPerMeter * zoomedMapScale))
                 / of_int wh - 1
               - (2 * ((cy - iy) * (screenPixelsPerMeter * zoomedMapScale)) / of_int wh - 1)
               + (2 * 0 / of_int wh - 1)))"
  by (simp add: exact_zoomed_simps)

lemma zoomed_centre_exact:
  assumes "pw \<noteq> 0" "ph \<noteq> 0" "ww \<noteq> 0" "wh \<noteq> 0"
  shows "\<exists>M. getZoomedMapTransformationMatrix exact_arith (pw, ph) (px, py) (sx, sy) (ww, wh)
             screenPixelsPerMeter zoomedMapScale False (x, y) (x, y) cosTheta sinTheta = Inr M
           \<and> apply_matrix M (x, y) =
               mapPixelCoordinateToOpenGlCoordinate exact_arith
                 (of_int px + 1 / 2 * of_int sx, of_int py + 1 / 2 * of_int sy) (ww, wh)"
  using assms
  by (simp add: zoomed_camera_exact apply_affine mapPixelCoordinateToOpenGlCoordinate_def
      exact_arith_simps field_simps)

lemma zoomed_rotation_identity_exact:
  assumes "pw \<noteq> 0" "ph \<noteq> 0" "ww \<noteq> 0" "wh \<noteq> 0" "screenPixelsPerMeter * zoomedMapScale \<noteq> 0"
  shows "getZoomedMapTransformationMatrix exact_arith (pw, ph) (px, py) (sx, sy) (ww, wh)
           screenPixelsPerMeter zoomedMapScale True (ix, iy) (cx, cy) 1 0
       = getZoomedMapTransformationMatrix exact_arith (pw, ph) (px, py) (sx, sy) (ww, wh)
           screenPixelsPerMeter zoomedMapScale False (ix, iy) (cx, cy) 1 0"
  using assms
  by (simp add: exact_zoomed_simps) (simp add: affine_def field_simps)

text \<open>The zoomed-map scenario in the arithmetic of the program, evaluated step by step.\<close>

lemma zoomed_example_scalars:
  "mapPixelCoordinateToOpenGlCoordinate ieee_arith (dbl 0, dbl 0) (400, 400)
     = (Finite True 1 0, Finite True 1 0)"
  "mapPixelCoordinateToOpenGlCoordinate ieee_arith
     (fp_mul binary64 (fp_mul binary64 (dbl 100) (dbl 3)) (dbl 1),
      fp_mul binary64 (fp_mul binary64 (dbl 100) (dbl 3)) (dbl 1)) (400, 400)
     = (Finite False 1 (- 1), Finite False 1 (- 1))"
  "mapPixelCoordinateToOpenGlCoordinate ieee_arith
     (fp_add binary64 (dbl 0) (fp_mul binary64 (decimal 5 10) (dbl 400)),
      fp_add binary64 (dbl 0) (fp_mul binary64 (decimal 5 10) (dbl 400))) (400, 400)
     = (Finite False 0 0, Finite False 0 0)"
  "mapPixelCoordinateToOpenGlCoordinate ieee_arith
     (fp_sub binary64 (fp_add binary64 (dbl 0) (fp_mul binary64 (decimal 5 10) (dbl 400)))
        (fp_mul binary64 (decimal 3 10) (fp_mul binary64 (dbl 100) (dbl 3))),
      fp_sub binary64 (fp_add binary64 (dbl 0) (fp_mul binary64 (decimal 5 10) (dbl 400)))
        (fp_mul binary64 (decimal 3 10) (fp_mul binary64 (dbl 100) (dbl 3)))) (400, 400)
     = (Finite True 2026619832316723 (- 52), Finite True 2026619832316723 (- 52))"
  "mapPixelCoordinateToOpenGlCoordinate ieee_arith
     (fp_mul binary64 (fp_sub binary64 (decimal 3 10) (decimal 3 10))
        (fp_mul binary64 (dbl 100) (dbl 3)),
      fp_mul binary64 (fp_sub binary64 (decimal 3 10) (decimal 3 10))
        (fp_mul binary64 (dbl 100) (dbl 3))) (400, 400)
     = (Finite True 1 0, Finite True 1 0)"
  by (simp_all add: mapPixelCoordinateToOpenGlCoordinate_def fp_simps)

lemma zoomed_example_entries:
  "narrow (fp_div binary64 (fp_sub binary64 (Finite False 1 (- 1)) (Finite True 1 0)) (dbl 1))
     = Finite False 3 (- 1)"
  "narrow (fp_div binary64 (decimal 1 1)
      (fp_div binary64 (fp_sub binary64 (Finite False 1 (- 1)) (Finite True 1 0)) (dbl 1)))
     = Finite False 11184811 (- 24)"
  "narrow (fp_add binary64
      (fp_sub binary64 (Finite True 2026619832316723 (- 52)) (Finite True 1 0))
      (Finite True 1 0))
     = Finite True 7549747 (- 24)"
  "narrow (Finite False 0 0) = Finite False 0 0"
  "narrow (fp_neg (Finite False 0 0)) = Finite True 0 0"
  "narrow (dbl 1) = Finite False 1 0"
  "narrow (dbl 0) = Finite False 0 0"
  "narrow (fp_neg (dbl 0)) = Finite True 0 0"
  by (simp_all add: fp_simps)

lemma zoomed_example_camera_product:
  "matmul ieee_arith
     (Translation ieee_arith (Finite True 7549747 (- 24)) (Finite True 7549747 (- 24)))
     (Scaling ieee_arith (Finite False 3 (- 1)) (Finite False 3 (- 1)))
   = zoomed_example_camera"
  apply (simp only: matmul_entries entry_def Scaling_values Translation_values ieee_arith_simps
      double_zero zoomed_example_camera_def)
  apply (simp add: fp_simps)
  done

lemma zoomed_example_camera_value:
  "getZoomedMapTransformationMatrix ieee_arith (dbl 1, dbl 1) (0, 0) (400, 400) (400, 400)
       (dbl 100) (dbl 3) False (decimal 3 10, decimal 3 10) (decimal 3 10, decimal 3 10)
       (dbl 1) (dbl 0)
     = Inr zoomed_example_camera"
  by (simp only: getZoomedMapTransformationMatrix_matmul Let_def if_False fst_conv snd_conv
      ieee_arith_simps zoomed_example_scalars zoomed_example_entries
      zoomed_example_camera_product)

lemma zoomed_example_rotation_products:
  "matmul ieee_arith (Translation ieee_arith (Finite True 0 0) (Finite True 0 0))
     zoomed_example_camera
   = zoomed_example_camera"
  "matmul ieee_arith
     (Scaling ieee_arith (Finite False 11184811 (- 24)) (Finite False 11184811 (- 24)))
     zoomed_example_camera
   = [Finite False 1 0, Finite False 0 0, Finite False 0 0, Finite True 5033165 (- 24),
      Finite False 0 0, Finite False 1 0, Finite False 0 0, Finite True 5033165 (- 24),
      Finite False 0 0, Finite False 0 0, Finite False 1 0, Finite False 0 0,
      Finite False 0 0, Finite False 0 0, Finite False 0 0, Finite False 1 0]"
  "matmul ieee_arith
     [Finite False 1 0, Finite False 0 0, Finite False 0 0, Finite False 0 0,
      Finite True 0 0, Finite False 1 0, Finite False 0 0, Finite False 0 0,
      Finite False 0 0, Finite False 0 0, Finite False 1 0, Finite False 0 0,
      Finite False 0 0, Finite False 0 0, Finite False 0 0, Finite False 1 0]
     [Finite False 1 0, Finite False 0 0, Finite False 0 0, Finite True 5033165 (- 24),
      Finite False 0 0, Finite False 1 0, Finite False 0 0, Finite True 5033165 (- 24),
      Finite False 0 0, Finite False 0 0, Finite False 1 0, Finite False 0 0,
      Finite False 0 0, Finite False 0 0, Finite False 0 0, Finite False 1 0]
   = [Finite False 1 0, Finite False 0 0, Finite False 0 0, Finite True 5033165 (- 24),
      Finite False 0 0, Finite False 1 0, Finite False 0 0, Finite True 5033165 (- 24),
      Finite False 0 0, Finite False 0 0, Finite False 1 0, Finite False 0 0,
      Finite False 0 0, Finite False 0 0, Finite False 0 0, Finite False 1 0]"
  "matmul ieee_arith (Scaling ieee_arith (Finite False 3 (- 1)) (Finite False 3 (- 1)))
     [Finite False 1 0, Finite False 0 0, Finite False 0 0, Finite True 5033165 (- 24),
      Finite False 0 0, Finite False 1 0, Finite False 0 0, Finite True 5033165 (- 24),
      Finite False 0 0, Finite False 0 0, Finite False 1 0, Finite False 0 0,
      Finite False 0 0, Finite False 0 0, Finite False 0 0, Finite False 1 0]
   = zoomed_example_rotated"
  "matmul ieee_arith (Translation ieee_arith (Finite False 0 0) (Finite False 0 0))
     zoomed_example_rotated
   = zoomed_example_rotated"
      apply (simp_all only: matmul_entries entry_def Scaling_values Translation_values
        ieee_arith_simps double_zero zoomed_example_camera_def zoomed_example_rotated_def)
      apply (simp_all add: fp_simps)
  done

lemma zoomed_example_rotated_value:
  "getZoomedMapTransformationMatrix ieee_arith (dbl 1, dbl 1) (0, 0) (400, 400) (400, 400)
       (dbl 100) (dbl 3) True (decimal 3 10, decimal 3 10) (decimal 3 10, decimal 3 10)
       (dbl 1) (dbl 0)
     = Inr zoomed_example_rotated"
  by (simp only: getZoomedMapTransformationMatrix_matmul Let_def if_True fst_conv snd_conv
      ieee_arith_simps zoomed_example_scalars zoomed_example_entries zero_value one_value
      zoomed_example_camera_product zoomed_example_rotation_products)

lemma zoomed_example_differ: "zoomed_example_rotated \<noteq> zoomed_example_camera"
  by (simp add: zoomed_example_rotated_def zoomed_example_camera_def)

lemma zoomed_example_image:
  "apply_matrix (map the_value zoomed_example_camera)
       (the_value (decimal 3 10), the_value (decimal 3 10))
     = (429496729 / 36028797018963968, 429496729 / 36028797018963968)"
  "the_value (decimal 3 10) = 5404319552844595 / 18014398509481984"
  by (simp_all add: apply_matrix_def zoomed_example_camera_def the_value_def fp_simps)

text \<open>The scenario with zoom 0.\<close>

lemma zoomed_zero_scalars:
  "mapPixelCoordinateToOpenGlCoordinate ieee_arith
     (fp_mul binary64 (fp_mul binary64 (dbl 100) (dbl 0)) (dbl 1),
      fp_mul binary64 (fp_mul binary64 (dbl 100) (dbl 0)) (dbl 1)) (400, 400)
     = (Finite True 1 0, Finite True 1 0)"
  "mapPixelCoordinateToOpenGlCoordinate ieee_arith
     (fp_sub binary64 (fp_add binary64 (dbl 0) (fp_mul binary64 (decimal 5 10) (dbl 400)))
        (fp_mul binary64 (decimal 3 10) (fp_mul binary64 (dbl 100) (dbl 0))),
      fp_sub binary64 (fp_add binary64 (dbl 0) (fp_mul binary64 (decimal 5 10) (dbl 400)))
        (fp_mul binary64 (decimal 3 10) (fp_mul binary64 (dbl 100) (dbl 0)))) (400, 400)
     = (Finite False 0 0, Finite False 0 0)"
  "mapPixelCoordinateToOpenGlCoordinate ieee_arith
     (fp_mul binary64 (fp_sub binary64 (decimal 3 10) (decimal 3 10))
        (fp_mul binary64 (dbl 100) (dbl 0)),
      fp_mul binary64 (fp_sub binary64 (decimal 3 10) (decimal 3 10))
        (fp_mul binary64 (dbl 100) (dbl 0))) (400, 400)
     = (Finite True 1 0, Finite True 1 0)"
  by (simp_all add: mapPixelCoordinateToOpenGlCoordinate_def fp_simps)

lemma zoomed_zero_entries:
  "narrow (fp_div binary64 (fp_sub binary64 (Finite True 1 0) (Finite True 1 0)) (dbl 1))
     = Finite False 0 0"
  "narrow (fp_div binary64 (decimal 1 1)
      (fp_div binary64 (fp_sub binary64 (Finite True 1 0) (Finite True 1 0)) (dbl 1)))
     = Infinity False"
  "narrow (fp_add binary64 (fp_sub binary64 (Finite False 0 0) (Finite True 1 0))
      (Finite True 1 0))
     = Finite False 0 0"
  by (simp_all add: fp_simps)

lemma zoomed_zero_products:
  "matmul ieee_arith (Translation ieee_arith (Finite False 0 0) (Finite False 0 0))
     (Scaling ieee_arith (Finite False 0 0) (Finite False 0 0))
   = zoomed_zero_camera"
  "matmul ieee_arith (Translation ieee_arith (Finite True 0 0) (Finite True 0 0))
     zoomed_zero_camera
   = zoomed_zero_camera"
  "matmul ieee_arith (Scaling ieee_arith (Infinity False) (Infinity False)) zoomed_zero_camera
   = [NaN, NaN, NaN, NaN, NaN, NaN, NaN, NaN,
      Finite False 0 0, Finite False 0 0, Finite False 1 0, Finite False 0 0,
      Finite False 0 0, Finite False 0 0, Finite False 0 0, Finite False 1 0]"
  "matmul ieee_arith
     [Finite False 1 0, Finite False 0 0, Finite False 0 0, Finite False 0 0,
      Finite True 0 0, Finite False 1 0, Finite False 0 0, Finite False 0 0,
      Finite False 0 0, Finite False 0 0, Finite False 1 0, Finite False 0 0,
      Finite False 0 0, Finite False 0 0, Finite False 0 0, Finite False 1 0]
     [NaN, NaN, NaN, NaN, NaN, NaN, NaN, NaN,
      Finite False 0 0, Finite False 0 0, Finite False 1 0, Finite False 0 0,
      Finite False 0 0, Finite False 0 0, Finite False 0 0, Finite False 1 0]
   = zoomed_zero_rotated"
  "matmul ieee_arith (Scaling ieee_arith (Finite False 0 0) (Finite False 0 0))
     zoomed_zero_rotated
   = zoomed_zero_rotated"
  "matmul ieee_arith (Translation ieee_arith (Finite False 0 0) (Finite False 0 0))
     zoomed_zero_rotated
   = zoomed_zero_rotated"
      apply (simp_all only: matmul_entries entry_def Scaling_values Translation_values
        ieee_arith_simps double_zero zoomed_zero_camera_def zoomed_zero_rotated_def)
      apply (simp_all add: fp_simps)
  done

lemma zoomed_zero_values:
  "getZoomedMapTransformationMatrix ieee_arith (dbl 1, dbl 1) (0, 0) (400, 400) (400, 400)
       (dbl 100) (dbl 0) False (decimal 3 10, decimal 3 10) (decimal 3 10, decimal 3 10)
       (dbl 1) (dbl 0)
     = Inr zoomed_zero_camera"
  "getZoomedMapTransformationMatrix ieee_arith (dbl 1, dbl 1) (0, 0) (400, 400) (400, 400)
       (dbl 100) (dbl 0) True (decimal 3 10, decimal 3 10) (decimal 3 10, decimal 3 10)
       (dbl 1) (dbl 0)
     = Inr zoomed_zero_rotated"
  by (simp_all only: getZoomedMapTransformationMatrix_matmul Let_def if_True if_False fst_conv
      snd_conv ieee_arith_simps zoomed_example_scalars zoomed_zero_scalars zoomed_zero_entries
      zoomed_example_entries zero_value one_value zoomed_zero_products)

text \<open>
  C2, as the code has it: in the full-map scenario the matrix sends the physical point
  \<open>(0, 0)\<close> to the pixel at offset \<open>0.5 * wallWidth * pixelsPerMeter = 2.4\<close> from the
  lower-left corner \<open>(0, 0)\<close> of the target region on both axes, and the physical point
  \<open>(1, 1)\<close> to the pixel at the upper-right corner \<open>(400, 400)\<close> plus that same offset on both
  axes. In the arithmetic of the program this holds up to the rounding of the \<open>float\<close>
  entries, which is below one ten-thousandth of a pixel; in exact arithmetic it holds exactly.
\<close>

theorem full_map_example_pixels:
  "getFullMapTransformationMatrix ieee_arith (decimal 12 1000) (dbl 1, dbl 1) (0, 0) (400, 400)
     (400, 400) = Inr full_map_example
   \<and> openGlToPixel (apply_matrix (map the_value full_map_example) (0, 0)) (400, 400)
     = (5033175 / 2097152, 5033175 / 2097152)
   \<and> \<bar>5033175 / 2097152 - (0 + 1 / 2 * (12 / 1000) * 400)\<bar> < (1 / 10000 :: real)
   \<and> openGlToPixel (apply_matrix (map the_value full_map_example) (1, 1)) (400, 400)
     = (843893975 / 2097152, 843893975 / 2097152)
   \<and> \<bar>843893975 / 2097152 - (400 + 1 / 2 * (12 / 1000) * 400)\<bar> < (1 / 10000 :: real)
   \<and> (\<exists>M. getFullMapTransformationMatrix exact_arith (12 / 1000) (1, 1) (0, 0) (400, 400)
            (400, 400) = Inr M
          \<and> openGlToPixel (apply_matrix M (0, 0)) (400, 400)
            = (0 + 1 / 2 * (12 / 1000) * 400, 0 + 1 / 2 * (12 / 1000) * 400)
          \<and> openGlToPixel (apply_matrix M (1, 1)) (400, 400)
            = (400 + 1 / 2 * (12 / 1000) * 400, 400 + 1 / 2 * (12 / 1000) * 400))"
proof -
  have "\<exists>M. getFullMapTransformationMatrix exact_arith (12 / 1000) (1, 1) (0, 0) (400, 400)
            (400, 400) = Inr M
          \<and> openGlToPixel (apply_matrix M (0, 0)) (400, 400)
            = (0 + 1 / 2 * (12 / 1000) * 400, 0 + 1 / 2 * (12 / 1000) * 400)
          \<and> openGlToPixel (apply_matrix M (1, 1)) (400, 400)
            = (400 + 1 / 2 * (12 / 1000) * 400, 400 + 1 / 2 * (12 / 1000) * 400)"
    unfolding full_map_example_exact by (simp add: openGlToPixel_def apply_matrix_def)
  then show ?thesis
    using full_map_example_value full_map_example_images by simp
qed

text \<open>
  C2 as stated fails for the point \<open>(1, 1)\<close>: its image is more than four pixels away from
  the upper-right corner minus the offset, in the arithmetic of the program and in exact
  arithmetic alike.
\<close>

theorem full_map_example_upper_right_counterexample:
  "getFullMapTransformationMatrix ieee_arith (decimal 12 1000) (dbl 1, dbl 1) (0, 0) (400, 400)
     (400, 400) = Inr full_map_example
   \<and> openGlToPixel (apply_matrix (map the_value full_map_example) (1, 1)) (400, 400)
     = (843893975 / 2097152, 843893975 / 2097152)
   \<and> 4 < \<bar>843893975 / 2097152 - (400 - 1 / 2 * (12 / 1000) * 400 :: real)\<bar>
   \<and> getFullMapTransformationMatrix exact_arith (12 / 1000) (1, 1) (0, 0) (400, 400) (400, 400)
     = Inr [2, 0, 0, - 247 / 250, 0, 2, 0, - 247 / 250, 0, 0, 1, 0, 0, 0, 0, 1]
   \<and> openGlToPixel
       (apply_matrix [2, 0, 0, - 247 / 250, 0, 2, 0, - 247 / 250, 0, 0, 1, 0, 0, 0, 0, 1] (1, 1))
       (400, 400)
     = (2012 / 5, 2012 / 5)
   \<and> 4 < \<bar>2012 / 5 - (400 - 1 / 2 * (12 / 1000) * 400 :: real)\<bar>"
proof -
  have "openGlToPixel
       (apply_matrix [2, 0, 0, - 247 / 250, 0, 2, 0, - 247 / 250, 0, 0, 1, 0, 0, 0, 0, 1] (1, 1))
       (400, 400)
     = (2012 / 5, 2012 / 5)"
    by (simp add: openGlToPixel_def apply_matrix_def)
  then show ?thesis
    using full_map_example_value full_map_example_images full_map_example_exact by simp
qed

subsection \<open>The zoomed map keeps the mouse at the centre\<close>

text \<open>
  C3, as the code has it: with rotation disabled, non-zero physical dimensions and window
  size, and the current mouse position equal to the initial one, the formulas of
  \<open>getZoomedMapTransformationMatrix\<close>, evaluated in exact arithmetic, give a matrix that maps
  the mouse position exactly to the image of the pixel
  \<open>zoomedMapPosition + 0.5 * zoomedMapSize\<close> under \<open>mapPixelCoordinateToOpenGlCoordinate\<close>.
  (The \<open>float\<close> matrix that the program returns agrees with this up to rounding only.)
\<close>

theorem zoomed_map_centres_mouse:
  assumes "physicalWidth \<noteq> 0" "physicalHeight \<noteq> 0" "fst windowSize \<noteq> 0" "snd windowSize \<noteq> 0"
  shows "\<exists>M. getZoomedMapTransformationMatrix exact_arith (physicalWidth, physicalHeight)
             zoomedMapPosition zoomedMapSize windowSize screenPixelsPerMeter zoomedMapScale
             False (x, y) (x, y) cosTheta sinTheta = Inr M
           \<and> apply_matrix M (x, y) =
               mapPixelCoordinateToOpenGlCoordinate exact_arith
                 (of_int (fst zoomedMapPosition) + 1 / 2 * of_int (fst zoomedMapSize),
                  of_int (snd zoomedMapPosition) + 1 / 2 * of_int (snd zoomedMapSize))
                 windowSize"
  using assms
    zoomed_centre_exact [of physicalWidth physicalHeight "fst windowSize" "snd windowSize"
      "fst zoomedMapPosition" "snd zoomedMapPosition" "fst zoomedMapSize" "snd zoomedMapSize"
      screenPixelsPerMeter zoomedMapScale x y cosTheta sinTheta]
  by simp

text \<open>
  The theorem for the maze of 1 m by 1 m, the 400 by 400 map and window, 100 screen pixels
  per meter, zoom 3, and the mouse at (0.3, 0.3): the image is the centre \<open>(0, 0)\<close>.
\<close>

theorem zoomed_map_centres_mouse_witness:
  "(1 :: real) \<noteq> 0 \<and> fst (400 :: int, 400 :: int) \<noteq> 0 \<and> snd (400 :: int, 400 :: int) \<noteq> 0
   \<and> (\<exists>M. getZoomedMapTransformationMatrix exact_arith (1, 1) (0, 0) (400, 400) (400, 400)
            100 3 False (3 / 10, 3 / 10) (3 / 10, 3 / 10) 1 0 = Inr M
          \<and> apply_matrix M (3 / 10, 3 / 10) = (0, 0))"
  using zoomed_map_centres_mouse [of 1 1 "(400, 400)" "(0, 0)" "(400, 400)" 100 3 "3 / 10" "3 / 10"
      1 0]
  by (simp add: mapPixelCoordinateToOpenGlCoordinate_def exact_arith_simps)

text \<open>
  C3 as stated fails in the arithmetic of the program: in the same scenario the centre pixel
  \<open>(200, 200)\<close> has the image \<open>(0, 0)\<close>, exactly and as the program computes it, while the
  returned matrix, applied exactly, sends the mouse position to a point \<open>2^-25\<close> away from it
  when the position is taken as the \<open>float\<close> nearest to 0.3, and about \<open>1.2 * 10^-8\<close> away
  when it is taken as the \<open>double\<close>.
\<close>

theorem zoomed_map_centres_mouse_counterexample:
  "getZoomedMapTransformationMatrix ieee_arith (dbl 1, dbl 1) (0, 0) (400, 400) (400, 400)
       (dbl 100) (dbl 3) False (decimal 3 10, decimal 3 10) (decimal 3 10, decimal 3 10)
       (dbl 1) (dbl 0)
     = Inr zoomed_example_camera
   \<and> apply_matrix (map the_value zoomed_example_camera)
       (the_value (decimal 3 10), the_value (decimal 3 10))
     = (429496729 / 36028797018963968, 429496729 / 36028797018963968)
   \<and> apply_matrix (map the_value zoomed_example_camera)
       (the_value (narrow (decimal 3 10)), the_value (narrow (decimal 3 10)))
     = (1 / 33554432, 1 / 33554432)
   \<and> mapPixelCoordinateToOpenGlCoordinate exact_arith
       (of_int 0 + 1 / 2 * of_int 400, of_int 0 + 1 / 2 * of_int 400) (400, 400)
     = (0, 0)
   \<and> mapPixelCoordinateToOpenGlCoordinate ieee_arith
       (fp_add binary64 (dbl 0) (fp_mul binary64 (decimal 5 10) (dbl 400)),
        fp_add binary64 (dbl 0) (fp_mul binary64 (decimal 5 10) (dbl 400))) (400, 400)
     = (Finite False 0 0, Finite False 0 0)
   \<and> (429496729 / 36028797018963968 :: real) \<noteq> 0
   \<and> (1 / 33554432 :: real) \<noteq> 0"
proof -
  have "apply_matrix (map the_value zoomed_example_camera)
       (the_value (narrow (decimal 3 10)), the_value (narrow (decimal 3 10)))
     = (1 / 33554432, 1 / 33554432)"
    by (simp add: apply_matrix_def zoomed_example_camera_def the_value_def fp_simps)
  moreover have "mapPixelCoordinateToOpenGlCoordinate exact_arith
       (of_int 0 + 1 / 2 * of_int 400, of_int 0 + 1 / 2 * of_int 400) (400, 400)
     = (0, 0)"
    by (simp add: mapPixelCoordinateToOpenGlCoordinate_def exact_arith_simps)
  ultimately show ?thesis
    using zoomed_example_camera_value zoomed_example_image(1) zoomed_example_scalars(3)
    by simp
qed

subsection \<open>Rotation by \<open>theta = 0\<close>\<close>

text \<open>
  C4, as the code has it: with rotation enabled and \<open>theta = 0\<close> (a heading of 90 degrees),
  so that \<open>cos theta = 1\<close>, \<open>sin theta = 0\<close> and the rotation matrix is the identity, and
  with non-zero physical dimensions, window size and pixels per meter, the formulas of
  \<open>getZoomedMapTransformationMatrix\<close>, evaluated in exact arithmetic, give the same matrix as
  with rotation disabled: the product of the six matrices is the camera matrix. (The \<open>float\<close>
  matrices that the program returns agree up to rounding only.)
\<close>

theorem zoomed_map_rotation_by_zero:
  assumes "physicalWidth \<noteq> 0" "physicalHeight \<noteq> 0" "fst windowSize \<noteq> 0" "snd windowSize \<noteq> 0"
    and "screenPixelsPerMeter * zoomedMapScale \<noteq> 0"
  shows "getZoomedMapTransformationMatrix exact_arith (physicalWidth, physicalHeight)
           zoomedMapPosition zoomedMapSize windowSize screenPixelsPerMeter zoomedMapScale
           True initialMouseTranslation currentMouseTranslation 1 0
       = getZoomedMapTransformationMatrix exact_arith (physicalWidth, physicalHeight)
           zoomedMapPosition zoomedMapSize windowSize screenPixelsPerMeter zoomedMapScale
           False initialMouseTranslation currentMouseTranslation 1 0"
  using assms
    zoomed_rotation_identity_exact [of physicalWidth physicalHeight "fst windowSize"
      "snd windowSize" screenPixelsPerMeter zoomedMapScale
      "fst zoomedMapPosition" "snd zoomedMapPosition" "fst zoomedMapSize" "snd zoomedMapSize"
      "fst initialMouseTranslation" "snd initialMouseTranslation"
      "fst currentMouseTranslation" "snd currentMouseTranslation"]
  by simp

text \<open>The theorem in the scenario above, with the mouse moved to (0.5, 0.4).\<close>

theorem zoomed_map_rotation_by_zero_witness:
  "(1 :: real) \<noteq> 0 \<and> fst (400 :: int, 400 :: int) \<noteq> 0 \<and> snd (400 :: int, 400 :: int) \<noteq> 0
   \<and> (100 :: real) * 3 \<noteq> 0
   \<and> getZoomedMapTransformationMatrix exact_arith (1, 1) (0, 0) (400, 400) (400, 400) 100 3
         True (3 / 10, 3 / 10) (1 / 2, 2 / 5) 1 0
       = Inr [3 / 2, 0, 0, - 3 / 4, 0, 3 / 2, 0, - 3 / 5, 0, 0, 1, 0, 0, 0, 0, 1]"
  using zoomed_map_rotation_by_zero [of 1 1 "(400, 400)" 100 3 "(0, 0)" "(400, 400)"
      "(3 / 10, 3 / 10)" "(1 / 2, 2 / 5)"]
  by (simp add: zoomed_camera_exact affine_def)

text \<open>
  C4 as stated fails in the arithmetic of the program. In the scenario above the two returned
  matrices differ in their translation entries; and with zoom 0 the inverse scaling is
  infinite, so that the matrix returned with rotation consists of \<open>NaN\<close>s while the camera
  matrix is finite.
\<close>

theorem zoomed_map_rotation_by_zero_counterexample:
  "getZoomedMapTransformationMatrix ieee_arith (dbl 1, dbl 1) (0, 0) (400, 400) (400, 400)
       (dbl 100) (dbl 3) True (decimal 3 10, decimal 3 10) (decimal 3 10, decimal 3 10)
       (dbl 1) (dbl 0)
     = Inr zoomed_example_rotated
   \<and> getZoomedMapTransformationMatrix ieee_arith (dbl 1, dbl 1) (0, 0) (400, 400) (400, 400)
       (dbl 100) (dbl 3) False (decimal 3 10, decimal 3 10) (decimal 3 10, decimal 3 10)
       (dbl 1) (dbl 0)
     = Inr zoomed_example_camera
   \<and> zoomed_example_rotated \<noteq> zoomed_example_camera
   \<and> getZoomedMapTransformationMatrix ieee_arith (dbl 1, dbl 1) (0, 0) (400, 400) (400, 400)
       (dbl 100) (dbl 0) True (decimal 3 10, decimal 3 10) (decimal 3 10, decimal 3 10)
       (dbl 1) (dbl 0)
     = Inr zoomed_zero_rotated
   \<and> getZoomedMapTransformationMatrix ieee_arith (dbl 1, dbl 1) (0, 0) (400, 400) (400, 400)
       (dbl 100) (dbl 0) False (decimal 3 10, decimal 3 10) (decimal 3 10, decimal 3 10)
       (dbl 1) (dbl 0)
     = Inr zoomed_zero_camera
   \<and> zoomed_zero_rotated \<noteq> zoomed_zero_camera"
  using zoomed_example_rotated_value zoomed_example_camera_value zoomed_example_differ
    zoomed_zero_values
  by (simp add: zoomed_zero_rotated_def zoomed_zero_camera_def)

section \<open>Rounding errors of the arithmetic\<close>

subsection \<open>Rounding to a format\<close>

lemma the_value_Finite:
  "the_value (Finite s m e) = (if s then - 1 else 1) * real m * 2 powi e"
  by (simp add: the_value_def power_int_def field_simps)

lemma bit_length_pos: "0 < n \<Longrightarrow> 0 < bit_length n"
  by (simp add: bit_length.simps [of n])

lemma bit_length_bounds:
  "0 < n \<Longrightarrow> 2 ^ (bit_length n - 1) \<le> n \<and> n < 2 ^ bit_length n"
proof (induction n rule: bit_length.induct)
  case (1 n)
  show ?case
  proof (cases "n div 2 = 0")
    case True
    with 1(2) have "n = 1"
      by (simp add: div_eq_0_iff)
    then show ?thesis
      by (simp add: bit_length.simps [of 1] bit_length.simps [of 0] bit_length.simps [of "Suc 0"])
  next
    case False
    then have pos: "0 < n div 2"
      by simp
    from 1(2) have "n \<noteq> 0"
      by simp
    from 1(1) [OF this pos] have IH: "2 ^ (bit_length (n div 2) - 1) \<le> n div 2"
      "n div 2 < 2 ^ bit_length (n div 2)"
      by simp_all
    have bl: "bit_length n = Suc (bit_length (n div 2))"
      using 1(2) by (simp add: bit_length.simps [of n])
    from bit_length_pos [OF pos] obtain j where j: "bit_length (n div 2) = Suc j"
      by (cases "bit_length (n div 2)") simp_all
    have "2 ^ (bit_length n - 1) = 2 * 2 ^ j"
      by (simp add: bl j)
    also have "\<dots> \<le> 2 * (n div 2)"
      using IH(1) by (simp add: j)
    also have "\<dots> \<le> n"
      by simp
    finally have lo: "2 ^ (bit_length n - 1) \<le> n" .
    have "n < 2 * (n div 2) + 2"
      by linarith
    also have "\<dots> \<le> 2 * 2 ^ bit_length (n div 2)"
      using IH(2) by simp
    finally have "n < 2 ^ bit_length n"
      by (simp add: bl)
    with lo show ?thesis
      by simp
  qed
qed

lemma powi_nat: "0 \<le> k \<Longrightarrow> (2::real) powi k = 2 ^ nat k"
  by (simp add: power_int_def)

lemma powi_neg_nat: "k \<le> 0 \<Longrightarrow> (2::real) powi k = 1 / 2 ^ nat (- k)"
  by (cases "k = 0") (simp_all add: power_int_def field_simps)

lemma powi_diff_nat: "(2::real) powi (int a - int b) = 2 ^ a / 2 ^ b"
  by (simp add: power_int_diff)

lemma powi_Suc: "(2::real) powi (k + 1) = 2 * 2 powi k"
  by (simp add: power_int_add)

lemma powi_pred: "(2::real) powi (k - 1) = 2 powi k / 2"
  by (simp add: power_int_diff)

lemma floor_log2_near_bounds:
  assumes "0 < d"
    and "2 powi (k - 1) * real d \<le> real n" "real n < 2 powi (k + 1) * real d"
  shows "2 powi (floor_log2_near n d k) * real d \<le> real n
         \<and> real n < 2 powi (floor_log2_near n d k + 1) * real d"
proof (cases "0 \<le> k")
  case True
  have eq: "(d * 2 ^ nat k \<le> n) = (2 powi k * real d \<le> real n)"
  proof -
    have "(d * 2 ^ nat k \<le> n) = (real (d * 2 ^ nat k) \<le> real n)"
      by (simp only: of_nat_le_iff)
    also have "real (d * 2 ^ nat k) = 2 powi k * real d"
      using True by (simp add: powi_nat)
    finally show ?thesis .
  qed
  show ?thesis
    using assms True eq by (auto simp: floor_log2_near_def not_le)
next
  case False
  then have neg: "k \<le> 0" by simp
  have eq: "(d \<le> n * 2 ^ nat (- k)) = (2 powi k * real d \<le> real n)"
  proof -
    have "(d \<le> n * 2 ^ nat (- k)) = (real d \<le> real (n * 2 ^ nat (- k)))"
      by (simp only: of_nat_le_iff)
    also have "\<dots> = (real d \<le> real n * 2 ^ nat (- k))"
      by simp
    also have "\<dots> = (real d / 2 ^ nat (- k) \<le> real n)"
      by (simp add: field_simps)
    also have "real d / 2 ^ nat (- k) = 2 powi k * real d"
      using neg by (simp add: powi_neg_nat)
    finally show ?thesis .
  qed
  show ?thesis
    using assms False eq by (auto simp: floor_log2_near_def not_le)
qed

lemma floor_log2_bounds:
  assumes "0 < n" "0 < d"
  shows "2 powi (floor_log2 n d) * real d \<le> real n
         \<and> real n < 2 powi (floor_log2 n d + 1) * real d"
proof -
  let ?a = "bit_length n" and ?b = "bit_length d"
  from bit_length_bounds [OF assms(1)] have n: "2 ^ (?a - 1) \<le> n" "n < 2 ^ ?a"
    by simp_all
  from bit_length_bounds [OF assms(2)] have d: "2 ^ (?b - 1) \<le> d" "d < 2 ^ ?b"
    by simp_all
  from bit_length_pos [OF assms(1)] obtain a' where a': "?a = Suc a'"
    by (cases ?a) simp_all
  from bit_length_pos [OF assms(2)] obtain b' where b': "?b = Suc b'"
    by (cases ?b) simp_all
  have "real (2 ^ a') \<le> real n" "real n < real (2 ^ Suc a')"
    using n unfolding a' by (simp_all only: of_nat_le_iff of_nat_less_iff diff_Suc_1)
  then have nr: "(2::real) ^ a' \<le> real n" "real n < 2 ^ Suc a'"
    by simp_all
  have "real (2 ^ b') \<le> real d" "real d < real (2 ^ Suc b')"
    using d unfolding b' by (simp_all only: of_nat_le_iff of_nat_less_iff diff_Suc_1)
  then have dr: "(2::real) ^ b' \<le> real d" "real d < 2 ^ Suc b'"
    by simp_all
  let ?k = "int ?a - int ?b"
  have k: "?k = int a' - int b'"
    by (simp add: a' b')
  have "2 powi (?k - 1) * real d = 2 ^ a' / 2 ^ Suc b' * real d"
    unfolding k by (simp add: power_int_diff)
  also have "\<dots> \<le> 2 ^ a'"
    using dr(2) by (simp add: field_simps)
  finally have lo: "2 powi (?k - 1) * real d \<le> real n"
    using nr(1) by linarith
  have "real n < 2 ^ Suc a'"
    by (rule nr(2))
  also have "\<dots> = 2 powi (?k + 1) * 2 ^ b'"
    unfolding k by (simp add: power_int_diff power_int_add)
  also have "\<dots> \<le> 2 powi (?k + 1) * real d"
    using dr(1) by (simp add: mult_left_mono)
  finally have hi: "real n < 2 powi (?k + 1) * real d" .
  show ?thesis
    unfolding floor_log2_def using floor_log2_near_bounds [OF assms(2) lo hi] .
qed

lemma round_even_error:
  assumes "0 < d"
  shows "\<bar>real (round_even n d) - real n / real d\<bar> \<le> 1 / 2"
proof -
  let ?f = "n div d" and ?r = "n mod d"
  have n: "real n = real ?f * real d + real ?r"
    by (metis div_mult_mod_eq of_nat_add of_nat_mult)
  have r: "real ?r < real d"
    using assms by simp
  have q: "real n / real d = real ?f + real ?r / real d"
    using assms by (simp add: n field_simps)
  have dpos: "0 < real d"
    using assms by simp
  consider "2 * ?r < d" | "d < 2 * ?r" | "2 * ?r = d"
    by linarith
  then show ?thesis
  proof cases
    case 1
    then have "real ?r / real d \<le> 1 / 2"
      using dpos by (simp add: field_simps)
    with 1 show ?thesis
      by (simp add: round_even_def nearest_even_def q)
  next
    case 2
    then have "1 / 2 \<le> real ?r / real d"
      using dpos by (simp add: field_simps)
    moreover have "real ?r / real d \<le> 1"
      using r dpos by (simp add: field_simps)
    ultimately show ?thesis
      using 2 by (simp add: round_even_def nearest_even_def q)
  next
    case 3
    then have "real d = 2 * real ?r"
      by (metis of_nat_mult of_nat_numeral)
    then have "real ?r / real d = 1 / 2"
      using dpos by (simp add: field_simps)
    with 3 show ?thesis
      by (simp add: round_even_def nearest_even_def q)
  qed
qed

lemma scaled_error:
  assumes "0 < d"
  shows "\<bar>real (scaled n d sh) - real n / real d * 2 powi sh\<bar> \<le> 1 / 2"
proof (cases "0 \<le> sh")
  case True
  have eq: "real n / real d * 2 powi sh = real (n * 2 ^ nat sh) / real d"
    using True by (simp add: powi_nat)
  have s: "scaled n d sh = round_even (n * 2 ^ nat sh) d"
    using True by (simp add: scaled_def)
  show ?thesis
    unfolding s eq by (rule round_even_error [OF assms])
next
  case False
  then have neg: "sh \<le> 0" by simp
  have pos: "0 < d * 2 ^ nat (- sh)"
    using assms by simp
  have eq: "real n / real d * 2 powi sh = real n / real (d * 2 ^ nat (- sh))"
    using neg by (simp add: powi_neg_nat)
  have s: "scaled n d sh = round_even n (d * 2 ^ nat (- sh))"
    using False by (simp add: scaled_def)
  show ?thesis
    unfolding s eq by (rule round_even_error [OF pos])
qed

lemma normal_form_value:
  "real (fst (normal_form m e)) * 2 powi (snd (normal_form m e)) = real m * 2 powi e"
proof (induction m e rule: normal_form.induct)
  case (1 m e)
  show ?case
  proof (cases "m = 0")
    case True
    then show ?thesis
      by (simp add: normal_form.simps [of 0])
  next
    case False
    show ?thesis
    proof (cases "even m")
      case True
      then have m: "real m = 2 * real (m div 2)"
        by (metis dvd_mult_div_cancel of_nat_mult of_nat_numeral)
      have nf: "normal_form m e = normal_form (m div 2) (e + 1)"
        using False True by (simp add: normal_form.simps [of m])
      show ?thesis
        unfolding nf 1 [OF False True] by (simp add: m powi_Suc)
    next
      case odd: False
      then show ?thesis
        using False by (simp add: normal_form.simps [of m])
    qed
  qed
qed

lemma powi_add: "(2::real) powi (a + b) = 2 powi a * 2 powi b"
  by (simp add: power_int_add)

lemma powi_mono: "a \<le> b \<Longrightarrow> (2::real) powi a \<le> 2 powi b"
  by (simp add: power_int_increasing)

lemma powi_less_cancel: "(2::real) powi a < 2 powi b \<Longrightarrow> a < b"
proof (rule ccontr)
  assume "2 powi a < (2::real) powi b" "\<not> a < b"
  then have "(2::real) powi b \<le> 2 powi a"
    by (simp add: powi_mono)
  with \<open>2 powi a < (2::real) powi b\<close> show False
    by simp
qed

lemma powi_pos: "0 < (2::real) powi a"
  by (simp add: zero_less_power_int)

text \<open>The core of rounding: the scaled significand is within one half of the exact one.\<close>

lemma round_to_core:
  assumes d: "0 < d" and n: "0 < n"
    and hi: "real n / real d * 2 powi k < 2 powi (snd fmt)"
  shows "\<exists>m e. round_to fmt s n d k = Finite s m e
           \<and> \<bar>real m * 2 powi e - real n / real d * 2 powi k\<bar>
               \<le> 2 powi (quantum fmt (floor_log2 n d + k) - 1)
           \<and> 2 powi (floor_log2 n d + k) \<le> real n / real d * 2 powi k
           \<and> real n / real d * 2 powi k < 2 powi (floor_log2 n d + k + 1)"
proof -
  let ?x = "real n / real d * 2 powi k"
  let ?e = "floor_log2 n d + k"
  let ?q = "quantum fmt ?e"
  let ?m = "scaled n d (k - ?q)"
  have dpos: "0 < real d"
    using d by simp
  from floor_log2_bounds [OF n d]
  have fl: "2 powi (floor_log2 n d) * real d \<le> real n"
    "real n < 2 powi (floor_log2 n d + 1) * real d"
    by simp_all
  have "2 powi (floor_log2 n d) \<le> real n / real d"
    using fl(1) dpos by (simp add: field_simps)
  then have "2 powi (floor_log2 n d) * 2 powi k \<le> real n / real d * 2 powi k"
    by (rule mult_right_mono) (simp add: less_imp_le powi_pos)
  then have lo: "2 powi ?e \<le> ?x"
    by (simp add: powi_add)
  have "real n / real d < 2 powi (floor_log2 n d + 1)"
    using fl(2) dpos by (simp add: field_simps)
  then have "real n / real d * 2 powi k < 2 powi (floor_log2 n d + 1) * 2 powi k"
    by (rule mult_strict_right_mono) (simp add: powi_pos)
  then have up: "?x < 2 powi (?e + 1)"
    by (simp add: powi_add algebra_simps)
  from lo hi have "(2::real) powi ?e < 2 powi (snd fmt)"
    by simp
  then have elt: "?e < snd fmt"
    by (rule powi_less_cancel)
  have r: "round_to fmt s n d k = Finite s (fst (normal_form ?m ?q)) (snd (normal_form ?m ?q))"
    using n elt by (simp add: round_to_def round_at_def pack_def finite_of_def)
  have v: "real (fst (normal_form ?m ?q)) * 2 powi (snd (normal_form ?m ?q)) = real ?m * 2 powi ?q"
    by (rule normal_form_value)
  have se: "\<bar>real ?m - real n / real d * 2 powi (k - ?q)\<bar> \<le> 1 / 2"
    by (rule scaled_error [OF d])
  have "real ?m * 2 powi ?q - ?x = (real ?m - real n / real d * 2 powi (k - ?q)) * 2 powi ?q"
    by (simp add: power_int_diff algebra_simps)
  then have "\<bar>real ?m * 2 powi ?q - ?x\<bar> = \<bar>real ?m - real n / real d * 2 powi (k - ?q)\<bar> * 2 powi ?q"
    by (simp add: abs_mult)
  also have "\<dots> \<le> 1 / 2 * 2 powi ?q"
    using se by (rule mult_right_mono) (simp add: less_imp_le powi_pos)
  also have "\<dots> = 2 powi (?q - 1)"
    by (simp add: powi_pred)
  finally have "\<bar>real ?m * 2 powi ?q - ?x\<bar> \<le> 2 powi (?q - 1)" .
  with r v lo up show ?thesis
    by simp
qed

lemma quantum_bound:
  assumes "2 powi e \<le> x"
  shows "2 powi (quantum fmt e - 1) \<le> unit_roundoff fmt * x + underflow_unit fmt"
proof (cases "1 - snd fmt \<le> e")
  case True
  then have "quantum fmt e - 1 = e + (- int (fst fmt))"
    by (simp add: quantum_def)
  then have "2 powi (quantum fmt e - 1) = unit_roundoff fmt * 2 powi e"
    by (simp only: unit_roundoff_def powi_add mult.commute)
  also have "\<dots> \<le> unit_roundoff fmt * x"
    using assms by (simp add: unit_roundoff_def mult_left_mono less_imp_le powi_pos)
  finally have "2 powi (quantum fmt e - 1) \<le> unit_roundoff fmt * x" .
  moreover have "0 < underflow_unit fmt"
    by (simp add: underflow_unit_def powi_pos)
  ultimately show ?thesis
    by linarith
next
  case False
  then have "quantum fmt e - 1 = 1 - snd fmt - int (fst fmt)"
    by (simp add: quantum_def)
  then have "2 powi (quantum fmt e - 1) = underflow_unit fmt"
    by (simp only: underflow_unit_def)
  moreover have "0 < (2::real) powi e"
    by (rule powi_pos)
  with assms have "0 \<le> x"
    by linarith
  then have "0 \<le> unit_roundoff fmt * x"
    by (simp add: unit_roundoff_def)
  ultimately show ?thesis
    by simp
qed

lemma quantum_bound_normal:
  assumes "2 powi e \<le> x" "1 - snd fmt \<le> e"
  shows "2 powi (quantum fmt e - 1) \<le> unit_roundoff fmt * x"
proof -
  from assms(2) have "quantum fmt e - 1 = e + (- int (fst fmt))"
    by (simp add: quantum_def)
  then have "2 powi (quantum fmt e - 1) = unit_roundoff fmt * 2 powi e"
    by (simp only: unit_roundoff_def powi_add mult.commute)
  also have "\<dots> \<le> unit_roundoff fmt * x"
    using assms(1) by (simp add: unit_roundoff_def mult_left_mono less_imp_le powi_pos)
  finally show ?thesis .
qed

text \<open>Rounding a non-negative rational below the overflow threshold.\<close>

lemma round_to_error:
  assumes d: "0 < d"
    and hi: "real n / real d * 2 powi k < 2 powi (snd fmt)"
  shows "\<exists>m e. round_to fmt s n d k = Finite s m e
           \<and> \<bar>real m * 2 powi e - real n / real d * 2 powi k\<bar>
               \<le> unit_roundoff fmt * (real n / real d * 2 powi k) + underflow_unit fmt"
proof (cases "n = 0")
  case True
  have "0 \<le> underflow_unit fmt"
    by (simp add: underflow_unit_def less_imp_le powi_pos)
  with True show ?thesis
    by (simp add: round_to_def)
next
  case False
  then have n: "0 < n" by simp
  from round_to_core [OF d n hi, of s] obtain m e where
    r: "round_to fmt s n d k = Finite s m e"
    and b: "\<bar>real m * 2 powi e - real n / real d * 2 powi k\<bar>
               \<le> 2 powi (quantum fmt (floor_log2 n d + k) - 1)"
    and lo: "2 powi (floor_log2 n d + k) \<le> real n / real d * 2 powi k"
    by blast
  from quantum_bound [OF lo, of fmt] b r show ?thesis
    by auto
qed

lemma round_to_error_normal:
  assumes d: "0 < d"
    and hi: "real n / real d * 2 powi k < 2 powi (snd fmt)"
    and lo: "2 powi (1 - snd fmt) \<le> real n / real d * 2 powi k"
  shows "\<exists>m e. round_to fmt s n d k = Finite s m e
           \<and> \<bar>real m * 2 powi e - real n / real d * 2 powi k\<bar>
               \<le> unit_roundoff fmt * (real n / real d * 2 powi k)"
proof -
  have "n \<noteq> 0"
    using lo powi_pos [of "1 - snd fmt"] by (cases "n = 0") simp_all
  then have n: "0 < n" by simp
  from round_to_core [OF d n hi, of s] obtain m e where
    r: "round_to fmt s n d k = Finite s m e"
    and b: "\<bar>real m * 2 powi e - real n / real d * 2 powi k\<bar>
               \<le> 2 powi (quantum fmt (floor_log2 n d + k) - 1)"
    and lo': "2 powi (floor_log2 n d + k) \<le> real n / real d * 2 powi k"
    and up: "real n / real d * 2 powi k < 2 powi (floor_log2 n d + k + 1)"
    by blast
  from lo up have "(2::real) powi (1 - snd fmt) < 2 powi (floor_log2 n d + k + 1)"
    by simp
  then have "1 - snd fmt < floor_log2 n d + k + 1"
    by (rule powi_less_cancel)
  then have "1 - snd fmt \<le> floor_log2 n d + k"
    by simp
  from quantum_bound_normal [OF lo' this] b r show ?thesis
    by auto
qed

lemma the_value_sign: "the_value (Finite s m e) = sign_factor s * (real m * 2 powi e)"
  by (simp add: the_value_Finite sign_factor_def)

lemma abs_sign_factor: "\<bar>sign_factor s * x\<bar> = \<bar>x\<bar>"
  by (simp add: sign_factor_def)

lemma sign_factor_xor: "sign_factor (s \<noteq> t) = sign_factor s * sign_factor t"
  by (simp add: sign_factor_def)

lemma sign_factor_less: "sign_factor (v < 0) * real_of_int \<bar>v\<bar> = real_of_int v"
  by (simp add: sign_factor_def)

lemma nat_within_half:
  assumes "\<bar>real a - real b\<bar> \<le> 1 / 2"
  shows "a = b"
proof -
  have "\<bar>int a - int b\<bar> < 1"
  proof -
    have "real_of_int \<bar>int a - int b\<bar> = \<bar>real a - real b\<bar>"
      by simp
    with assms have "real_of_int \<bar>int a - int b\<bar> < 1"
      by linarith
    then show ?thesis
      by linarith
  qed
  then show ?thesis
    by linarith
qed

text \<open>Rounding a value that the format holds returns that value.\<close>

lemma round_to_exact:
  assumes rep: "real n * 2 powi k = real M * 2 powi E" "M < 2 ^ fst fmt"
      "2 - snd fmt - int (fst fmt) \<le> E"
    and hi: "real n * 2 powi k < 2 powi (snd fmt + 1)"
  shows "\<exists>m e. round_to fmt s n 1 k = Finite s m e \<and> real m * 2 powi e = real n * 2 powi k"
proof (cases "n = 0")
  case True
  then show ?thesis
    by (simp add: round_to_def)
next
  case False
  then have n: "0 < n" by simp
  let ?x = "real n * 2 powi k"
  let ?e = "floor_log2 n 1 + k"
  let ?q = "quantum fmt ?e"
  let ?m = "scaled n 1 (k - ?q)"
  from floor_log2_bounds [OF n, of 1]
  have fl: "2 powi (floor_log2 n 1) \<le> real n" "real n < 2 powi (floor_log2 n 1 + 1)"
    by simp_all
  have "2 powi (floor_log2 n 1) * 2 powi k \<le> real n * 2 powi k"
    using fl(1) by (rule mult_right_mono) (simp add: less_imp_le powi_pos)
  then have lo: "2 powi ?e \<le> ?x"
    by (simp add: powi_add)
  have "real n * 2 powi k < 2 powi (floor_log2 n 1 + 1) * 2 powi k"
    using fl(2) by (rule mult_strict_right_mono) (simp add: powi_pos)
  then have up: "?x < 2 powi (?e + 1)"
    by (simp add: powi_add algebra_simps)
  from lo hi have "(2::real) powi ?e < 2 powi (snd fmt + 1)"
    by simp
  then have "?e < snd fmt + 1"
    by (rule powi_less_cancel)
  then have ele: "?e \<le> snd fmt"
    by simp
  have "real M < 2 ^ fst fmt"
    using rep(2) by (metis of_nat_less_iff of_nat_numeral of_nat_power)
  then have "real M * 2 powi E < 2 ^ fst fmt * 2 powi E"
    by (rule mult_strict_right_mono) (simp add: powi_pos)
  also have "\<dots> = 2 powi (int (fst fmt) + E)"
    by (simp add: powi_add)
  finally have "?x < 2 powi (int (fst fmt) + E)"
    by (simp add: rep(1))
  with lo have "(2::real) powi ?e < 2 powi (int (fst fmt) + E)"
    by simp
  then have "?e < int (fst fmt) + E"
    by (rule powi_less_cancel)
  with rep(3) have qE: "?q \<le> E"
    by (simp add: quantum_def)
  have qlo: "?e - (int (fst fmt) - 1) \<le> ?q"
    by (simp add: quantum_def)
  let ?N = "M * 2 ^ nat (E - ?q)"
  have N: "real ?N = ?x * 2 powi (- ?q)"
  proof -
    have "real ?N = real M * 2 powi (E - ?q)"
      using qE by (simp add: powi_nat)
    also have "\<dots> = real M * 2 powi E * 2 powi (- ?q)"
      by (simp add: power_int_diff power_int_minus field_simps)
    finally show ?thesis
      by (simp add: rep(1))
  qed
  have sx: "real n / real 1 * 2 powi (k - ?q) = ?x * 2 powi (- ?q)"
    by (simp add: power_int_diff power_int_minus field_simps)
  have "\<bar>real ?m - real n / real 1 * 2 powi (k - ?q)\<bar> \<le> 1 / 2"
    by (rule scaled_error) simp
  then have "\<bar>real ?m - real ?N\<bar> \<le> 1 / 2"
    by (simp only: sx N)
  then have m: "?m = ?N"
    by (rule nat_within_half)
  have mx: "real ?m = ?x * 2 powi (- ?q)"
    by (simp only: m N)
  have "?x * 2 powi (- ?q) < 2 powi (?e + 1) * 2 powi (- ?q)"
    using up by (rule mult_strict_right_mono) (simp add: powi_pos)
  also have "\<dots> = 2 powi (?e + 1 - ?q)"
    by (simp add: power_int_diff power_int_minus field_simps)
  also have "\<dots> \<le> 2 powi (int (fst fmt))"
    using qlo by (intro powi_mono) simp
  finally have "?x * 2 powi (- ?q) < 2 powi (int (fst fmt))" .
  then have "real ?m < 2 ^ fst fmt"
    by (simp only: mx power_int_of_nat)
  then have "real ?m \<noteq> 2 ^ fst fmt"
    by simp
  then have mne: "?m \<noteq> 2 ^ fst fmt"
    by (metis of_nat_numeral of_nat_power)
  have r: "round_to fmt s n 1 k = Finite s (fst (normal_form ?m ?q)) (snd (normal_form ?m ?q))"
    using n ele mne by (simp add: round_to_def round_at_def pack_def finite_of_def)
  have v: "real (fst (normal_form ?m ?q)) * 2 powi (snd (normal_form ?m ?q)) = real ?m * 2 powi ?q"
    by (rule normal_form_value)
  have one: "2 powi (- ?q) * 2 powi ?q = (1::real)"
    by (simp add: power_int_minus)
  have "real ?m * 2 powi ?q = ?x * (2 powi (- ?q) * 2 powi ?q)"
    by (simp only: mx mult.assoc)
  then have "real ?m * 2 powi ?q = ?x"
    by (simp only: one mult_1_right)
  with v have "real (fst (normal_form ?m ?q)) * 2 powi (snd (normal_form ?m ?q)) = ?x"
    by (simp only:)
  with r show ?thesis
    by blast
qed

lemma exact_in_zero:
  assumes "2 - snd fmt - int (fst fmt) \<le> 0"
  shows "exact_in fmt 0"
  unfolding exact_in_def using assms
  by (intro exI [of _ 0] exI [of _ "0::int"]) (simp add: powi_pos)

lemma representable_exact_in:
  assumes "representable fmt x"
  shows "is_finite x \<and> exact_in fmt (the_value x)"
proof (cases x)
  case (Finite s m e)
  with assms have h: "m < 2 ^ fst fmt" "2 - snd fmt - int (fst fmt) \<le> e"
    "int (bit_length m) + e \<le> snd fmt + 1"
    by (simp_all add: representable_def)
  have "real m * 2 powi e < 2 powi (snd fmt + 1)"
  proof (cases "m = 0")
    case True
    then show ?thesis
      by (simp add: powi_pos)
  next
    case False
    then have "m < 2 ^ bit_length m"
      using bit_length_bounds [of m] by simp
    then have "real m < 2 ^ bit_length m"
      by (metis of_nat_less_iff of_nat_numeral of_nat_power)
    then have "real m * 2 powi e < 2 ^ bit_length m * 2 powi e"
      by (rule mult_strict_right_mono) (simp add: powi_pos)
    also have "\<dots> = 2 powi (int (bit_length m) + e)"
      by (simp add: powi_add)
    also have "\<dots> \<le> 2 powi (snd fmt + 1)"
      using h(3) by (rule powi_mono)
    finally show ?thesis .
  qed
  moreover have "\<bar>the_value x\<bar> = real m * 2 powi e"
    by (simp only: Finite the_value_sign abs_sign_factor) (simp add: abs_mult)
  ultimately have "exact_in fmt (the_value x)"
    unfolding exact_in_def using h(1,2) by (intro exI [of _ m] exI [of _ e]) simp
  then show ?thesis
    by (simp add: Finite is_finite_def)
next
  case (Infinity s)
  with assms show ?thesis
    by (simp add: representable_def)
next
  case NaN
  with assms show ?thesis
    by (simp add: representable_def)
qed

text \<open>Rounding with its sign.\<close>

lemma round_to_signed:
  assumes "0 < d" "real n / real d * 2 powi k < 2 powi (snd fmt)"
  shows "is_finite (round_to fmt s n d k)
         \<and> \<bar>the_value (round_to fmt s n d k) - sign_factor s * (real n / real d * 2 powi k)\<bar>
             \<le> unit_roundoff fmt * (real n / real d * 2 powi k) + underflow_unit fmt"
proof -
  from round_to_error [OF assms, of s] obtain m e where
    r: "round_to fmt s n d k = Finite s m e"
    and b: "\<bar>real m * 2 powi e - real n / real d * 2 powi k\<bar>
               \<le> unit_roundoff fmt * (real n / real d * 2 powi k) + underflow_unit fmt"
    by blast
  have "the_value (round_to fmt s n d k) - sign_factor s * (real n / real d * 2 powi k)
      = sign_factor s * (real m * 2 powi e - real n / real d * 2 powi k)"
    by (simp add: r the_value_sign algebra_simps)
  then show ?thesis
    using b by (simp only: abs_sign_factor r is_finite_def ieee.case simp_thms)
qed

lemma round_to_signed_normal:
  assumes "0 < d" "real n / real d * 2 powi k < 2 powi (snd fmt)"
    "2 powi (1 - snd fmt) \<le> real n / real d * 2 powi k"
  shows "is_finite (round_to fmt s n d k)
         \<and> \<bar>the_value (round_to fmt s n d k) - sign_factor s * (real n / real d * 2 powi k)\<bar>
             \<le> unit_roundoff fmt * (real n / real d * 2 powi k)"
proof -
  from round_to_error_normal [OF assms, of s] obtain m e where
    r: "round_to fmt s n d k = Finite s m e"
    and b: "\<bar>real m * 2 powi e - real n / real d * 2 powi k\<bar>
               \<le> unit_roundoff fmt * (real n / real d * 2 powi k)"
    by blast
  have "the_value (round_to fmt s n d k) - sign_factor s * (real n / real d * 2 powi k)
      = sign_factor s * (real m * 2 powi e - real n / real d * 2 powi k)"
    by (simp add: r the_value_sign algebra_simps)
  then show ?thesis
    using b by (simp only: abs_sign_factor r is_finite_def ieee.case simp_thms)
qed

lemma round_to_signed_exact:
  assumes "exact_in fmt (real n * 2 powi k)"
  shows "is_finite (round_to fmt s n 1 k)
         \<and> the_value (round_to fmt s n 1 k) = sign_factor s * (real n * 2 powi k)"
proof -
  have nn: "\<bar>real n * 2 powi k\<bar> = real n * 2 powi k"
    by (simp add: abs_mult)
  from assms obtain M E where "real n * 2 powi k = real M * 2 powi E" "M < 2 ^ fst fmt"
    "2 - snd fmt - int (fst fmt) \<le> E" "real n * 2 powi k < 2 powi (snd fmt + 1)"
    unfolding exact_in_def nn by blast
  from round_to_exact [OF this, of s] obtain m e where
    "round_to fmt s n 1 k = Finite s m e" "real m * 2 powi e = real n * 2 powi k"
    by blast
  then show ?thesis
    by (simp add: the_value_sign is_finite_def)
qed

lemma abs_sign_value: "\<bar>sign_factor s * (real n * 2 powi k)\<bar> = real n * 2 powi k"
  by (simp only: abs_sign_factor) (simp add: abs_mult)

lemma abs_sign_quotient:
  "\<bar>sign_factor s * (real m / real n * 2 powi k)\<bar> = real m / real n * 2 powi k"
  by (simp only: abs_sign_factor) (simp add: abs_mult)

lemma round_to_signed1:
  assumes "real n * 2 powi k < 2 powi (snd fmt)"
  shows "is_finite (round_to fmt s n 1 k)
         \<and> \<bar>the_value (round_to fmt s n 1 k) - sign_factor s * (real n * 2 powi k)\<bar>
             \<le> unit_roundoff fmt * (real n * 2 powi k) + underflow_unit fmt"
  using round_to_signed [of 1 n k fmt s] assms by simp

lemma round_to_signed1_normal:
  assumes "real n * 2 powi k < 2 powi (snd fmt)" "2 powi (1 - snd fmt) \<le> real n * 2 powi k"
  shows "is_finite (round_to fmt s n 1 k)
         \<and> \<bar>the_value (round_to fmt s n 1 k) - sign_factor s * (real n * 2 powi k)\<bar>
             \<le> unit_roundoff fmt * (real n * 2 powi k)"
  using round_to_signed_normal [of 1 n k fmt s] assms by simp

subsection \<open>The operations\<close>

lemma is_finiteE:
  assumes "is_finite a"
  obtains s m e where "a = Finite s m e"
  using assms by (cases a) (simp_all add: is_finite_def)

lemma is_finite_Finite: "is_finite (Finite s m e)"
  by (simp add: is_finite_def)

lemma abs_the_value: "\<bar>the_value (Finite s m e)\<bar> = real m * 2 powi e"
  by (simp only: the_value_sign abs_sign_value)

lemma mul_value:
  "the_value (Finite s m e) * the_value (Finite t n f)
     = sign_factor (s \<noteq> t) * (real (m * n) * 2 powi (e + f))"
  by (simp only: the_value_sign sign_factor_xor powi_add of_nat_mult) (simp add: algebra_simps)

lemma fp_mul_Finite:
  "fp_mul fmt (Finite s m e) (Finite t n f) = round_to fmt (s \<noteq> t) (m * n) 1 (e + f)"
  by simp

lemma fp_mul_error:
  assumes "is_finite a" "is_finite b"
    and "\<bar>the_value a * the_value b\<bar> < 2 powi (snd fmt)"
  shows "is_finite (fp_mul fmt a b)
         \<and> \<bar>the_value (fp_mul fmt a b) - the_value a * the_value b\<bar>
             \<le> unit_roundoff fmt * \<bar>the_value a * the_value b\<bar> + underflow_unit fmt"
proof -
  from assms(1) obtain s m e where a: "a = Finite s m e" by (rule is_finiteE)
  from assms(2) obtain t n f where b: "b = Finite t n f" by (rule is_finiteE)
  have hi: "real (m * n) * 2 powi (e + f) < 2 powi (snd fmt)"
    using assms(3) unfolding a b mul_value abs_sign_value .
  show ?thesis
    unfolding a b fp_mul_Finite mul_value abs_sign_value by (rule round_to_signed1 [OF hi])
qed

lemma fp_mul_normal:
  assumes "is_finite a" "is_finite b"
    and "\<bar>the_value a * the_value b\<bar> < 2 powi (snd fmt)"
    and "2 powi (1 - snd fmt) \<le> \<bar>the_value a * the_value b\<bar>"
  shows "is_finite (fp_mul fmt a b)
         \<and> \<bar>the_value (fp_mul fmt a b) - the_value a * the_value b\<bar>
             \<le> unit_roundoff fmt * \<bar>the_value a * the_value b\<bar>"
proof -
  from assms(1) obtain s m e where a: "a = Finite s m e" by (rule is_finiteE)
  from assms(2) obtain t n f where b: "b = Finite t n f" by (rule is_finiteE)
  have hi: "real (m * n) * 2 powi (e + f) < 2 powi (snd fmt)"
    using assms(3) unfolding a b mul_value abs_sign_value .
  have lo: "2 powi (1 - snd fmt) \<le> real (m * n) * 2 powi (e + f)"
    using assms(4) unfolding a b mul_value abs_sign_value .
  show ?thesis
    unfolding a b fp_mul_Finite mul_value abs_sign_value
    by (rule round_to_signed1_normal [OF hi lo])
qed

lemma exact_in_abs: "exact_in fmt \<bar>r\<bar> = exact_in fmt r"
  by (simp add: exact_in_def)

lemma exact_in_sign: "exact_in fmt (sign_factor s * r) = exact_in fmt r"
  by (simp add: exact_in_def sign_factor_def)

lemma fp_mul_exact:
  assumes "is_finite a" "is_finite b"
    and "exact_in fmt (the_value a * the_value b)"
  shows "is_finite (fp_mul fmt a b) \<and> the_value (fp_mul fmt a b) = the_value a * the_value b"
proof -
  from assms(1) obtain s m e where a: "a = Finite s m e" by (rule is_finiteE)
  from assms(2) obtain t n f where b: "b = Finite t n f" by (rule is_finiteE)
  have ex: "exact_in fmt (real (m * n) * 2 powi (e + f))"
    using assms(3) unfolding a b mul_value exact_in_sign .
  show ?thesis
    unfolding a b fp_mul_Finite mul_value by (rule round_to_signed_exact [OF ex])
qed

lemma aligned_value:
  assumes "g \<le> e"
  shows "real_of_int (aligned s m e g) * 2 powi g = the_value (Finite s m e)"
proof -
  have p: "(2::real) powi (e - g) * 2 powi g = 2 powi e"
    by (simp add: powi_add [symmetric])
  have "real_of_int (aligned s m e g) = sign_factor s * real m * 2 powi (e - g)"
    using assms by (simp add: aligned_def signed_def sign_factor_def powi_nat)
  then have "real_of_int (aligned s m e g) * 2 powi g
      = sign_factor s * real m * (2 powi (e - g) * 2 powi g)"
    by (simp only: mult.assoc)
  then show ?thesis
    by (simp only: p the_value_sign mult.assoc)
qed

lemma add_value:
  "real_of_int (aligned s m e (min e f) + aligned t n f (min e f)) * 2 powi (min e f)
     = the_value (Finite s m e) + the_value (Finite t n f)"
proof -
  have "real_of_int (aligned s m e (min e f)) * 2 powi (min e f) = the_value (Finite s m e)"
    by (rule aligned_value) simp
  moreover have "real_of_int (aligned t n f (min e f)) * 2 powi (min e f) = the_value (Finite t n f)"
    by (rule aligned_value) simp
  ultimately show ?thesis
    by (simp only: of_int_add distrib_right)
qed

lemma int_sign_abs:
  "real_of_int v * 2 powi g = sign_factor (v < 0) * (real (nat \<bar>v\<bar>) * 2 powi g)"
  by (simp add: sign_factor_def)

lemma round_sum_value:
  assumes "\<bar>real_of_int v * 2 powi g\<bar> < 2 powi (snd fmt)"
  shows "is_finite (round_sum fmt z v g)
         \<and> \<bar>the_value (round_sum fmt z v g) - real_of_int v * 2 powi g\<bar>
             \<le> unit_roundoff fmt * \<bar>real_of_int v * 2 powi g\<bar> + underflow_unit fmt"
proof (cases "v = 0")
  case True
  have "0 \<le> underflow_unit fmt"
    by (simp add: underflow_unit_def less_imp_le powi_pos)
  with True show ?thesis
    by (simp add: round_sum_def the_value_sign is_finite_def)
next
  case False
  have hi: "real (nat \<bar>v\<bar>) * 2 powi g < 2 powi (snd fmt)"
    using assms unfolding int_sign_abs [of v g] abs_sign_value .
  have r: "round_sum fmt z v g = round_to fmt (v < 0) (nat \<bar>v\<bar>) 1 g"
    using False by (simp add: round_sum_def)
  show ?thesis
    unfolding r int_sign_abs [of v g] abs_sign_value by (rule round_to_signed1 [OF hi])
qed

lemma round_sum_exact:
  assumes "exact_in fmt (real_of_int v * 2 powi g)"
  shows "is_finite (round_sum fmt z v g)
         \<and> the_value (round_sum fmt z v g) = real_of_int v * 2 powi g"
proof (cases "v = 0")
  case True
  then show ?thesis
    by (simp add: round_sum_def the_value_sign is_finite_def)
next
  case False
  have ex: "exact_in fmt (real (nat \<bar>v\<bar>) * 2 powi g)"
    using assms unfolding int_sign_abs [of v g] exact_in_sign .
  have r: "round_sum fmt z v g = round_to fmt (v < 0) (nat \<bar>v\<bar>) 1 g"
    using False by (simp add: round_sum_def)
  show ?thesis
    unfolding r int_sign_abs [of v g] by (rule round_to_signed_exact [OF ex])
qed

lemma fp_add_Finite:
  "fp_add fmt (Finite s m e) (Finite t n f) =
     round_sum fmt (s \<and> t) (aligned s m e (min e f) + aligned t n f (min e f)) (min e f)"
  by simp

lemma fp_add_error:
  assumes "is_finite a" "is_finite b"
    and "\<bar>the_value a + the_value b\<bar> < 2 powi (snd fmt)"
  shows "is_finite (fp_add fmt a b)
         \<and> \<bar>the_value (fp_add fmt a b) - (the_value a + the_value b)\<bar>
             \<le> unit_roundoff fmt * \<bar>the_value a + the_value b\<bar> + underflow_unit fmt"
proof -
  from assms(1) obtain s m e where a: "a = Finite s m e" by (rule is_finiteE)
  from assms(2) obtain t n f where b: "b = Finite t n f" by (rule is_finiteE)
  have hi: "\<bar>real_of_int (aligned s m e (min e f) + aligned t n f (min e f)) * 2 powi (min e f)\<bar>
      < 2 powi (snd fmt)"
    using assms(3) unfolding a b add_value .
  show ?thesis
    unfolding a b fp_add_Finite add_value [symmetric] by (rule round_sum_value [OF hi])
qed

lemma fp_add_exact:
  assumes "is_finite a" "is_finite b"
    and "exact_in fmt (the_value a + the_value b)"
  shows "is_finite (fp_add fmt a b) \<and> the_value (fp_add fmt a b) = the_value a + the_value b"
proof -
  from assms(1) obtain s m e where a: "a = Finite s m e" by (rule is_finiteE)
  from assms(2) obtain t n f where b: "b = Finite t n f" by (rule is_finiteE)
  have ex: "exact_in fmt
      (real_of_int (aligned s m e (min e f) + aligned t n f (min e f)) * 2 powi (min e f))"
    using assms(3) unfolding a b add_value .
  show ?thesis
    unfolding a b fp_add_Finite add_value [symmetric] by (rule round_sum_exact [OF ex])
qed

lemma fp_neg_value:
  assumes "is_finite a"
  shows "is_finite (fp_neg a)" and "the_value (fp_neg a) = - the_value a"
  using assms by (cases a; simp add: fp_neg_def the_value_sign sign_factor_def is_finite_def)+

lemma fp_sub_error:
  assumes "is_finite a" "is_finite b"
    and "\<bar>the_value a - the_value b\<bar> < 2 powi (snd fmt)"
  shows "is_finite (fp_sub fmt a b)
         \<and> \<bar>the_value (fp_sub fmt a b) - (the_value a - the_value b)\<bar>
             \<le> unit_roundoff fmt * \<bar>the_value a - the_value b\<bar> + underflow_unit fmt"
proof -
  have n: "is_finite (fp_neg b)" "the_value (fp_neg b) = - the_value b"
    using assms(2) by (rule fp_neg_value)+
  have hi: "\<bar>the_value a + the_value (fp_neg b)\<bar> < 2 powi (snd fmt)"
    using assms(3) by (simp only: n(2) diff_conv_add_uminus)
  from fp_add_error [OF assms(1) n(1) hi] show ?thesis
    by (simp only: n(2) diff_conv_add_uminus fp_sub_def)
qed

lemma fp_sub_exact:
  assumes "is_finite a" "is_finite b"
    and "exact_in fmt (the_value a - the_value b)"
  shows "is_finite (fp_sub fmt a b) \<and> the_value (fp_sub fmt a b) = the_value a - the_value b"
proof -
  have n: "is_finite (fp_neg b)" "the_value (fp_neg b) = - the_value b"
    using assms(2) by (rule fp_neg_value)+
  have ex: "exact_in fmt (the_value a + the_value (fp_neg b))"
    using assms(3) by (simp only: n(2) diff_conv_add_uminus)
  from fp_add_exact [OF assms(1) n(1) ex] show ?thesis
    by (simp only: n(2) diff_conv_add_uminus fp_sub_def)
qed

lemma div_value:
  assumes "n \<noteq> 0"
  shows "the_value (Finite s m e) / the_value (Finite t n f)
     = sign_factor (s \<noteq> t) * (real m / real n * 2 powi (e - f))"
proof -
  have "sign_factor s / sign_factor t = sign_factor s * sign_factor t"
    by (simp add: sign_factor_def)
  then show ?thesis
    unfolding the_value_sign sign_factor_xor power_int_diff [of "2::real" e f, simplified]
    by (simp add: field_simps sign_factor_def)
qed

lemma the_value_zero_iff: "the_value (Finite t n f) = 0 \<longleftrightarrow> n = 0"
  by (simp add: the_value_sign sign_factor_def)

lemma fp_div_Finite:
  "n \<noteq> 0 \<Longrightarrow> fp_div fmt (Finite s m e) (Finite t n f) = round_to fmt (s \<noteq> t) m n (e - f)"
  by simp

lemma fp_div_error:
  assumes "is_finite a" "is_finite b" "the_value b \<noteq> 0"
    and "\<bar>the_value a / the_value b\<bar> < 2 powi (snd fmt)"
  shows "is_finite (fp_div fmt a b)
         \<and> \<bar>the_value (fp_div fmt a b) - the_value a / the_value b\<bar>
             \<le> unit_roundoff fmt * \<bar>the_value a / the_value b\<bar> + underflow_unit fmt"
proof -
  from assms(1) obtain s m e where a: "a = Finite s m e" by (rule is_finiteE)
  from assms(2) obtain t n f where b: "b = Finite t n f" by (rule is_finiteE)
  from assms(3) have n: "n \<noteq> 0"
    by (simp add: b the_value_zero_iff)
  then have npos: "0 < n" by simp
  have hi: "real m / real n * 2 powi (e - f) < 2 powi (snd fmt)"
    using assms(4) unfolding a b div_value [OF n] abs_sign_quotient .
  show ?thesis
    unfolding a b fp_div_Finite [OF n] div_value [OF n] abs_sign_quotient
    by (rule round_to_signed [OF npos hi])
qed

lemma fp_div_normal:
  assumes "is_finite a" "is_finite b" "the_value b \<noteq> 0"
    and "\<bar>the_value a / the_value b\<bar> < 2 powi (snd fmt)"
    and "2 powi (1 - snd fmt) \<le> \<bar>the_value a / the_value b\<bar>"
  shows "is_finite (fp_div fmt a b)
         \<and> \<bar>the_value (fp_div fmt a b) - the_value a / the_value b\<bar>
             \<le> unit_roundoff fmt * \<bar>the_value a / the_value b\<bar>"
proof -
  from assms(1) obtain s m e where a: "a = Finite s m e" by (rule is_finiteE)
  from assms(2) obtain t n f where b: "b = Finite t n f" by (rule is_finiteE)
  from assms(3) have n: "n \<noteq> 0"
    by (simp add: b the_value_zero_iff)
  then have npos: "0 < n" by simp
  have hi: "real m / real n * 2 powi (e - f) < 2 powi (snd fmt)"
    using assms(4) unfolding a b div_value [OF n] abs_sign_quotient .
  have lo: "2 powi (1 - snd fmt) \<le> real m / real n * 2 powi (e - f)"
    using assms(5) unfolding a b div_value [OF n] abs_sign_quotient .
  show ?thesis
    unfolding a b fp_div_Finite [OF n] div_value [OF n] abs_sign_quotient
    by (rule round_to_signed_normal [OF npos hi lo])
qed

lemma narrow_Finite: "narrow (Finite s m e) = round_to binary32 s m 1 e"
  by (simp add: narrow_def)

lemma narrow_error:
  assumes "is_finite a" "\<bar>the_value a\<bar> < 2 powi (snd binary32)"
  shows "is_finite (narrow a)
         \<and> \<bar>the_value (narrow a) - the_value a\<bar>
             \<le> unit_roundoff binary32 * \<bar>the_value a\<bar> + underflow_unit binary32"
proof -
  from assms(1) obtain s m e where a: "a = Finite s m e" by (rule is_finiteE)
  have hi: "real m * 2 powi e < 2 powi (snd binary32)"
    using assms(2) unfolding a the_value_sign abs_sign_value .
  show ?thesis
    unfolding a narrow_Finite the_value_sign [of s m e] abs_sign_value
    by (rule round_to_signed1 [OF hi])
qed

lemma narrow_exact:
  assumes "is_finite a" "exact_in binary32 (the_value a)"
  shows "is_finite (narrow a) \<and> the_value (narrow a) = the_value a"
proof -
  from assms(1) obtain s m e where a: "a = Finite s m e" by (rule is_finiteE)
  have ex: "exact_in binary32 (real m * 2 powi e)"
    using assms(2) unfolding a the_value_sign exact_in_sign .
  show ?thesis
    unfolding a narrow_Finite the_value_sign [of s m e] by (rule round_to_signed_exact [OF ex])
qed

lemma widen_value: "widen a = a"
  by (simp add: widen_def)

lemma dbl_exact:
  assumes "\<bar>i\<bar> < 9007199254740992"
  shows "is_finite (dbl i) \<and> the_value (dbl i) = real_of_int i"
proof -
  have m: "nat \<bar>i\<bar> < 2 ^ 53"
    using assms by simp
  have "real (nat \<bar>i\<bar>) < 9007199254740992"
    using assms by linarith
  also have "(9007199254740992::real) = 2 powi 53"
    by simp
  also have "\<dots> \<le> (2::real) powi 1024"
    by (rule powi_mono) simp
  finally have "real (nat \<bar>i\<bar>) < 2 powi 1024" .
  with m have ex: "exact_in binary64 (real (nat \<bar>i\<bar>) * 2 powi 0)"
    unfolding exact_in_def
    by (intro exI [of _ "nat \<bar>i\<bar>"] exI [of _ "0::int"]) (simp add: binary64_def)
  have v: "real_of_int i = sign_factor (i < 0) * (real (nat \<bar>i\<bar>) * 2 powi 0)"
    by (simp add: sign_factor_def)
  have "is_finite (dbl i) \<and> the_value (dbl i) = sign_factor (i < 0) * (real (nat \<bar>i\<bar>) * 2 powi 0)"
    unfolding dbl_def by (rule round_to_signed_exact [OF ex])
  then show ?thesis
    by (simp only: v [symmetric])
qed

subsection \<open>One entry of a product\<close>

lemma entry_dot4:
  "entry ieee_arith l r i j =
     dot4 (l ! (4 * i)) (r ! j) (l ! (4 * i + 1)) (r ! (4 + j)) (l ! (4 * i + 2)) (r ! (8 + j))
       (l ! (4 * i + 3)) (r ! (12 + j))"
  by (simp only: entry_def dot4_def ieee_arith_simps double_zero widen_value)

lemma u64: "unit_roundoff binary64 = 1 / 9007199254740992"
  by (simp add: unit_roundoff_def binary64_def power_int_minus)

lemma v32: "unit_roundoff binary32 = 1 / 16777216"
  by (simp add: unit_roundoff_def binary32_def power_int_minus)

lemma eta_pos: "0 < underflow_unit fmt"
  by (simp add: underflow_unit_def powi_pos)

lemma eta64_le: "underflow_unit binary64 \<le> underflow_unit binary32"
  unfolding underflow_unit_def by (rule powi_mono) (simp add: binary64_def binary32_def)

lemma eta64_tiny: "underflow_unit binary64 \<le> underflow_unit binary32 / 1024"
proof -
  have "underflow_unit binary64 \<le> 2 powi (- 160)"
    unfolding underflow_unit_def by (rule powi_mono) (simp add: binary64_def)
  also have "(2::real) powi (- 160) = 2 powi (- 150) * 2 powi (- 10)"
    by (simp add: powi_add [symmetric])
  also have "\<dots> = underflow_unit binary32 / 1024"
    by (simp add: underflow_unit_def binary32_def power_int_minus)
  finally show ?thesis .
qed

lemma eta32_small: "underflow_unit binary32 \<le> 1 / 1267650600228229401496703205376"
proof -
  have "underflow_unit binary32 \<le> 2 powi (- 100)"
    unfolding underflow_unit_def by (rule powi_mono) (simp add: binary32_def)
  also have "(2::real) powi (- 100) = 1 / 1267650600228229401496703205376"
    by (simp add: power_int_minus)
  finally show ?thesis .
qed

lemma snd_binary32: "snd binary32 = 127"
  by (simp add: binary32_def)

lemma snd_binary64: "snd binary64 = 1023"
  by (simp add: binary64_def)

lemma big_le_127: "x \<le> 2 ^ 124 \<Longrightarrow> (x::real) < 2 powi 127"
proof -
  assume "x \<le> 2 ^ 124"
  also have "(2::real) ^ 124 = 2 powi 124"
    by simp
  also have "\<dots> < 2 powi 127"
    by (rule power_int_strict_increasing) simp_all
  finally show ?thesis .
qed

lemma big_le_1023: "x \<le> 2 ^ 124 \<Longrightarrow> (x::real) < 2 powi 1023"
proof -
  assume "x \<le> 2 ^ 124"
  also have "(2::real) ^ 124 = 2 powi 124"
    by simp
  also have "\<dots> < 2 powi 1023"
    by (rule power_int_strict_increasing) simp_all
  finally show ?thesis .
qed

lemma value_zero: "the_value (Finite s 0 e) = 0"
  by (simp add: the_value_sign)

text \<open>Distances between real numbers: the steps of an error analysis.\<close>

lemma near_abs:
  fixes x y :: real
  shows "\<bar>y - x\<bar> \<le> d \<Longrightarrow> \<bar>x\<bar> \<le> B \<Longrightarrow> \<bar>y\<bar> \<le> B + d"
  by linarith

lemma near_trans:
  fixes x y z :: real
  shows "\<bar>z - y\<bar> \<le> d2 \<Longrightarrow> \<bar>y - x\<bar> \<le> d1 \<Longrightarrow> \<bar>z - x\<bar> \<le> d1 + d2"
  by linarith

lemma near_add:
  fixes x y p q :: real
  shows "\<bar>y - x\<bar> \<le> d1 \<Longrightarrow> \<bar>q - p\<bar> \<le> d2 \<Longrightarrow> \<bar>(y + q) - (x + p)\<bar> \<le> d1 + d2"
  by linarith

lemma near_sub:
  fixes x y p q :: real
  shows "\<bar>y - x\<bar> \<le> d1 \<Longrightarrow> \<bar>q - p\<bar> \<le> d2 \<Longrightarrow> \<bar>(y - q) - (x - p)\<bar> \<le> d1 + d2"
  by linarith

lemma abs_add_le:
  fixes s p :: real
  shows "\<bar>s\<bar> \<le> A \<Longrightarrow> \<bar>p\<bar> \<le> B \<Longrightarrow> \<bar>s + p\<bar> \<le> A + B"
  by linarith

lemma abs_sub_le:
  fixes s p :: real
  shows "\<bar>s\<bar> \<le> A \<Longrightarrow> \<bar>p\<bar> \<le> B \<Longrightarrow> \<bar>s - p\<bar> \<le> A + B"
  by linarith

lemma rounded_within:
  fixes x y :: real
  assumes "\<bar>y - x\<bar> \<le> c * \<bar>x\<bar> + g" "\<bar>x\<bar> \<le> B" "0 \<le> c"
  shows "\<bar>y - x\<bar> \<le> c * B + g"
proof -
  have "c * \<bar>x\<bar> \<le> c * B"
    using assms(2,3) by (rule mult_left_mono)
  with assms(1) show ?thesis
    by linarith
qed

lemma dot4_error:
  assumes fin: "is_finite a0" "is_finite b0" "is_finite a1" "is_finite b1"
      "is_finite a2" "is_finite b2" "is_finite a3" "is_finite b3"
    and bound: "\<bar>the_value a0 * the_value b0\<bar> \<le> 2 ^ 120" "\<bar>the_value a1 * the_value b1\<bar> \<le> 2 ^ 120"
      "\<bar>the_value a2 * the_value b2\<bar> \<le> 2 ^ 120" "\<bar>the_value a3 * the_value b3\<bar> \<le> 2 ^ 120"
  shows "is_finite (dot4 a0 b0 a1 b1 a2 b2 a3 b3)
         \<and> \<bar>the_value (dot4 a0 b0 a1 b1 a2 b2 a3 b3)
              - (the_value a0 * the_value b0 + the_value a1 * the_value b1
                  + the_value a2 * the_value b2 + the_value a3 * the_value b3)\<bar>
             \<le> 3 / 16777216
                   * (\<bar>the_value a0 * the_value b0\<bar> + \<bar>the_value a1 * the_value b1\<bar>
                      + \<bar>the_value a2 * the_value b2\<bar> + \<bar>the_value a3 * the_value b3\<bar>)
                 + 16 * underflow_unit binary32"
proof -
  define h where "h = underflow_unit binary32"
  define g where "g = underflow_unit binary64"
  define x0 where "x0 = the_value a0 * the_value b0"
  define x1 where "x1 = the_value a1 * the_value b1"
  define x2 where "x2 = the_value a2 * the_value b2"
  define x3 where "x3 = the_value a3 * the_value b3"
  define X0 where "X0 = \<bar>x0\<bar>"
  define X1 where "X1 = \<bar>x1\<bar>"
  define X2 where "X2 = \<bar>x2\<bar>"
  define X3 where "X3 = \<bar>x3\<bar>"
  let ?p0 = "fp_mul binary32 a0 b0" and ?p1 = "fp_mul binary32 a1 b1"
  let ?p2 = "fp_mul binary32 a2 b2" and ?p3 = "fp_mul binary32 a3 b3"
  let ?z = "Finite False 0 0"
  let ?s1 = "fp_add binary64 ?z ?p0"
  let ?s2 = "fp_add binary64 ?s1 ?p1"
  let ?s3 = "fp_add binary64 ?s2 ?p2"
  let ?s4 = "fp_add binary64 ?s3 ?p3"
  define K where "K = (1329227995784915872903807060280344576 :: real)"
  have K: "(2::real) ^ 120 = K" "(2::real) ^ 124 = 16 * K"
    by (simp_all add: K_def)
  have Kpos: "1 \<le> K"
    by (simp add: K_def)
  have hpos: "0 < h" and gpos: "0 < g" and gh: "g \<le> h / 1024" and hs: "h \<le> 1 / 1024"
    using eta_pos [of binary32] eta_pos [of binary64] eta64_tiny eta32_small
    unfolding h_def g_def by linarith+
  have Xb: "X0 \<le> K" "X1 \<le> K" "X2 \<le> K" "X3 \<le> K" "0 \<le> X0" "0 \<le> X1" "0 \<le> X2" "0 \<le> X3"
    using bound unfolding K X0_def X1_def X2_def X3_def x0_def x1_def x2_def x3_def by simp_all
  have mul: "is_finite (fp_mul binary32 a b)
      \<and> \<bar>the_value (fp_mul binary32 a b) - the_value a * the_value b\<bar>
          \<le> 1 / 16777216 * \<bar>the_value a * the_value b\<bar> + h"
    if "is_finite a" "is_finite b" "\<bar>the_value a * the_value b\<bar> \<le> 2 ^ 120" for a b
  proof -
    from that(3) Kpos have "\<bar>the_value a * the_value b\<bar> \<le> 2 ^ 124"
      unfolding K by linarith
    then have "\<bar>the_value a * the_value b\<bar> < 2 powi (snd binary32)"
      unfolding snd_binary32 by (rule big_le_127)
    from fp_mul_error [OF that(1,2) this] show ?thesis
      unfolding v32 h_def .
  qed
  have add: "is_finite (fp_add binary64 a b)
      \<and> \<bar>the_value (fp_add binary64 a b) - (the_value a + the_value b)\<bar>
          \<le> 1 / 9007199254740992 * B + g"
    if "is_finite a" "is_finite b" "\<bar>the_value a + the_value b\<bar> \<le> B" "B \<le> 16 * K" for a b B
  proof -
    from that(3,4) have "\<bar>the_value a + the_value b\<bar> \<le> 2 ^ 124"
      unfolding K by linarith
    then have "\<bar>the_value a + the_value b\<bar> < 2 powi (snd binary64)"
      unfolding snd_binary64 by (rule big_le_1023)
    from fp_add_error [OF that(1,2) this]
    have f: "is_finite (fp_add binary64 a b)"
      and e: "\<bar>the_value (fp_add binary64 a b) - (the_value a + the_value b)\<bar>
          \<le> 1 / 9007199254740992 * \<bar>the_value a + the_value b\<bar> + g"
      unfolding u64 g_def by simp_all
    from rounded_within [OF e that(3)] f show ?thesis
      by simp
  qed
  from mul [OF fin(1,2) bound(1)] have p0: "is_finite ?p0"
    "\<bar>the_value ?p0 - x0\<bar> \<le> 1 / 16777216 * X0 + h"
    unfolding X0_def x0_def by simp_all
  from mul [OF fin(3,4) bound(2)] have p1: "is_finite ?p1"
    "\<bar>the_value ?p1 - x1\<bar> \<le> 1 / 16777216 * X1 + h"
    unfolding X1_def x1_def by simp_all
  from mul [OF fin(5,6) bound(3)] have p2: "is_finite ?p2"
    "\<bar>the_value ?p2 - x2\<bar> \<le> 1 / 16777216 * X2 + h"
    unfolding X2_def x2_def by simp_all
  from mul [OF fin(7,8) bound(4)] have p3: "is_finite ?p3"
    "\<bar>the_value ?p3 - x3\<bar> \<le> 1 / 16777216 * X3 + h"
    unfolding X3_def x3_def by simp_all
  define P0 where "P0 = X0 + (1 / 16777216 * X0 + h)"
  define P1 where "P1 = X1 + (1 / 16777216 * X1 + h)"
  define P2 where "P2 = X2 + (1 / 16777216 * X2 + h)"
  define P3 where "P3 = X3 + (1 / 16777216 * X3 + h)"
  have q: "\<bar>the_value ?p0\<bar> \<le> P0" "\<bar>the_value ?p1\<bar> \<le> P1" "\<bar>the_value ?p2\<bar> \<le> P2"
    "\<bar>the_value ?p3\<bar> \<le> P3"
    unfolding P0_def P1_def P2_def P3_def
    using near_abs [OF p0(2), of X0] near_abs [OF p1(2), of X1] near_abs [OF p2(2), of X2]
      near_abs [OF p3(2), of X3]
    by (simp_all add: X0_def X1_def X2_def X3_def)
  have Pb: "P0 \<le> 3 * K" "P1 \<le> 3 * K" "P2 \<le> 3 * K" "P3 \<le> 3 * K"
    "0 \<le> P0" "0 \<le> P1" "0 \<le> P2" "0 \<le> P3"
    unfolding P0_def P1_def P2_def P3_def using Xb hs hpos Kpos by linarith+
  have z: "the_value ?z = 0" "is_finite ?z"
    by (simp_all add: value_zero is_finite_def)
  define S where "S = X0 + X1 + X2 + X3"
  define P where "P = P0 + P1 + P2 + P3"
  have PS: "P = S + 1 / 16777216 * S + 4 * h"
    unfolding P_def S_def P0_def P1_def P2_def P3_def by (simp add: field_simps)
  have Snn: "0 \<le> S" "S \<le> 4 * K"
    unfolding S_def using Xb by linarith+
  have Pk: "P0 \<le> P" "P0 + P1 \<le> P" "P0 + P1 + P2 \<le> P" "P \<le> 5 * K" "4 * h \<le> P"
    unfolding P_def using Pb Xb hs Kpos PS [unfolded P_def] Snn by linarith+
  have "\<bar>the_value ?z + the_value ?p0\<bar> \<le> P0"
    using q(1) by (simp add: z)
  from add [OF z(2) p0(1) this] Pb Kpos have s1: "is_finite ?s1"
    "\<bar>the_value ?s1 - the_value ?p0\<bar> \<le> 1 / 9007199254740992 * P0 + g"
    by (simp_all add: z)
  define e1 where "e1 = 1 / 9007199254740992 * P0 + g"
  have E1: "e1 \<le> 1 / 9007199254740992 * P + g" "0 \<le> e1"
    unfolding e1_def using Pk(1) Pb gpos by linarith+
  have a1: "\<bar>the_value ?s1\<bar> \<le> P0 + e1"
    using near_abs [OF s1(2) q(1)] by (simp add: e1_def)
  have b2: "\<bar>the_value ?s1 + the_value ?p1\<bar> \<le> P0 + e1 + P1"
    by (rule abs_add_le [OF a1 q(2)])
  have c2: "P0 + e1 + P1 \<le> 2 * P" "2 * P \<le> 16 * K"
    using E1 Pk gh hpos by linarith+
  from c2 have "P0 + e1 + P1 \<le> 16 * K"
    by linarith
  from add [OF s1(1) p1(1) b2 this] have s2: "is_finite ?s2"
    "\<bar>the_value ?s2 - (the_value ?s1 + the_value ?p1)\<bar> \<le> 1 / 9007199254740992 * (P0 + e1 + P1) + g"
    by simp_all
  define r2 where "r2 = 1 / 9007199254740992 * (P0 + e1 + P1) + g"
  have R2: "r2 \<le> 2 / 9007199254740992 * P + g"
  proof -
    have "1 / 9007199254740992 * (P0 + e1 + P1) \<le> 1 / 9007199254740992 * (2 * P)"
      using c2(1) by (intro mult_left_mono) simp_all
    then show ?thesis
      unfolding r2_def by linarith
  qed
  define e2 where "e2 = e1 + r2"
  have E2: "e2 \<le> 3 / 9007199254740992 * P + 2 * g"
    unfolding e2_def using E1 R2 by linarith
  have "\<bar>(the_value ?s1 + the_value ?p1) - (the_value ?p0 + the_value ?p1)\<bar> \<le> e1"
    using s1(2) by (simp add: e1_def)
  from near_trans [OF s2(2) this]
  have t2: "\<bar>the_value ?s2 - (the_value ?p0 + the_value ?p1)\<bar> \<le> e2"
    by (simp add: e2_def r2_def)
  have "\<bar>the_value ?p0 + the_value ?p1\<bar> \<le> P0 + P1"
    by (rule abs_add_le [OF q(1) q(2)])
  from near_abs [OF t2 this] have a2: "\<bar>the_value ?s2\<bar> \<le> P0 + P1 + e2" .
  have b3: "\<bar>the_value ?s2 + the_value ?p2\<bar> \<le> P0 + P1 + e2 + P2"
    by (rule abs_add_le [OF a2 q(3)])
  have c3: "P0 + P1 + e2 + P2 \<le> 2 * P"
    using E2 Pk gh hpos by linarith
  with c2 have "P0 + P1 + e2 + P2 \<le> 16 * K"
    by linarith
  from add [OF s2(1) p2(1) b3 this] have s3: "is_finite ?s3"
    "\<bar>the_value ?s3 - (the_value ?s2 + the_value ?p2)\<bar>
       \<le> 1 / 9007199254740992 * (P0 + P1 + e2 + P2) + g"
    by simp_all
  define r3 where "r3 = 1 / 9007199254740992 * (P0 + P1 + e2 + P2) + g"
  have R3: "r3 \<le> 2 / 9007199254740992 * P + g"
  proof -
    have "1 / 9007199254740992 * (P0 + P1 + e2 + P2) \<le> 1 / 9007199254740992 * (2 * P)"
      using c3 by (intro mult_left_mono) simp_all
    then show ?thesis
      unfolding r3_def by linarith
  qed
  define e3 where "e3 = e2 + r3"
  have E3: "e3 \<le> 5 / 9007199254740992 * P + 3 * g"
    unfolding e3_def using E2 R3 by linarith
  have "\<bar>(the_value ?s2 + the_value ?p2) - (the_value ?p0 + the_value ?p1 + the_value ?p2)\<bar> \<le> e2"
    using t2 by simp
  from near_trans [OF s3(2) this]
  have t3: "\<bar>the_value ?s3 - (the_value ?p0 + the_value ?p1 + the_value ?p2)\<bar> \<le> e3"
    by (simp add: e3_def r3_def)
  have "\<bar>the_value ?p0 + the_value ?p1 + the_value ?p2\<bar> \<le> P0 + P1 + P2"
    by (rule abs_add_le [OF abs_add_le [OF q(1) q(2)] q(3)])
  from near_abs [OF t3 this] have a3: "\<bar>the_value ?s3\<bar> \<le> P0 + P1 + P2 + e3" .
  have b4: "\<bar>the_value ?s3 + the_value ?p3\<bar> \<le> P0 + P1 + P2 + e3 + P3"
    by (rule abs_add_le [OF a3 q(4)])
  have Peq: "P0 + P1 + P2 + P3 = P"
    by (simp add: P_def)
  have c4: "P0 + P1 + P2 + e3 + P3 \<le> 2 * P"
    using E3 Pk gh hpos Peq by linarith
  with c2 have "P0 + P1 + P2 + e3 + P3 \<le> 16 * K"
    by linarith
  from add [OF s3(1) p3(1) b4 this] have s4: "is_finite ?s4"
    "\<bar>the_value ?s4 - (the_value ?s3 + the_value ?p3)\<bar>
       \<le> 1 / 9007199254740992 * (P0 + P1 + P2 + e3 + P3) + g"
    by simp_all
  define r4 where "r4 = 1 / 9007199254740992 * (P0 + P1 + P2 + e3 + P3) + g"
  have R4: "r4 \<le> 2 / 9007199254740992 * P + g"
  proof -
    have "1 / 9007199254740992 * (P0 + P1 + P2 + e3 + P3) \<le> 1 / 9007199254740992 * (2 * P)"
      using c4 by (intro mult_left_mono) simp_all
    then show ?thesis
      unfolding r4_def by linarith
  qed
  define e4 where "e4 = e3 + r4"
  have E4: "e4 \<le> 7 / 9007199254740992 * P + 4 * g"
    unfolding e4_def using E3 R4 by linarith
  have "\<bar>(the_value ?s3 + the_value ?p3)
      - (the_value ?p0 + the_value ?p1 + the_value ?p2 + the_value ?p3)\<bar> \<le> e3"
    using t3 by simp
  from near_trans [OF s4(2) this]
  have t4: "\<bar>the_value ?s4 - (the_value ?p0 + the_value ?p1 + the_value ?p2 + the_value ?p3)\<bar> \<le> e4"
    by (simp add: e4_def r4_def)
  have "\<bar>the_value ?p0 + the_value ?p1 + the_value ?p2 + the_value ?p3\<bar> \<le> P"
    unfolding P_def by (rule abs_add_le [OF abs_add_le [OF abs_add_le [OF q(1) q(2)] q(3)] q(4)])
  from near_abs [OF t4 this] have a4: "\<bar>the_value ?s4\<bar> \<le> P + e4" .
  have c5: "P + e4 \<le> 2 * P"
    using E4 Pk gh hpos by linarith
  with c2 a4 have "\<bar>the_value ?s4\<bar> \<le> 2 ^ 124"
    unfolding K by linarith
  then have "\<bar>the_value ?s4\<bar> < 2 powi (snd binary32)"
    unfolding snd_binary32 by (rule big_le_127)
  from narrow_error [OF s4(1) this] have e: "is_finite (narrow ?s4)"
    "\<bar>the_value (narrow ?s4) - the_value ?s4\<bar> \<le> 1 / 16777216 * \<bar>the_value ?s4\<bar> + h"
    unfolding v32 h_def by simp_all
  from rounded_within [OF e(2) a4]
  have e': "\<bar>the_value (narrow ?s4) - the_value ?s4\<bar> \<le> 1 / 16777216 * (P + e4) + h"
    by simp
  define r5 where "r5 = 1 / 16777216 * (P + e4) + h"
  have R5: "r5 \<le> 1 / 16777216 * P + e4 + h"
  proof -
    have "0 \<le> e4"
      using t4 by linarith
    then have "1 / 16777216 * e4 \<le> 1 * e4"
      by (intro mult_right_mono) simp_all
    then show ?thesis
      unfolding r5_def by (simp add: algebra_simps)
  qed
  have d: "\<bar>(the_value ?p0 + the_value ?p1 + the_value ?p2 + the_value ?p3) - (x0 + x1 + x2 + x3)\<bar>
      \<le> (1 / 16777216 * X0 + h) + (1 / 16777216 * X1 + h) + (1 / 16777216 * X2 + h)
          + (1 / 16777216 * X3 + h)"
    by (rule near_add [OF near_add [OF near_add [OF p0(2) p1(2)] p2(2)] p3(2)])
  have dS: "(1 / 16777216 * X0 + h) + (1 / 16777216 * X1 + h) + (1 / 16777216 * X2 + h)
          + (1 / 16777216 * X3 + h) = 1 / 16777216 * S + 4 * h"
    unfolding S_def by (simp add: field_simps)
  from near_trans [OF near_trans [OF e' t4] d]
  have "\<bar>the_value (narrow ?s4) - (x0 + x1 + x2 + x3)\<bar> \<le> 1 / 16777216 * S + 4 * h + (e4 + r5)"
    unfolding dS r5_def .
  also have "\<dots> \<le> 3 / 16777216 * S + 16 * h"
    using R5 E4 PS Snn gh hpos gpos by linarith
  finally have "\<bar>the_value (narrow ?s4) - (x0 + x1 + x2 + x3)\<bar>
      \<le> 3 / 16777216 * S + 16 * h" .
  with e(1) show ?thesis
    unfolding dot4_def S_def X0_def X1_def X2_def X3_def x0_def x1_def x2_def x3_def h_def by simp
qed

lemma exact_in_widen:
  assumes "exact_in binary32 r"
  shows "exact_in binary64 r"
proof -
  from assms obtain M E where h: "\<bar>r\<bar> = real M * 2 powi E" "M < 2 ^ 24" "- 149 \<le> E"
    "\<bar>r\<bar> < 2 powi 128"
    unfolding exact_in_def by (auto simp: binary32_def)
  have "M < 2 ^ 53"
    using h(2) by simp
  moreover have "\<bar>r\<bar> < 2 powi 1024"
    using h(4) powi_mono [of 128 1024] by simp
  ultimately show ?thesis
    unfolding exact_in_def using h(1,3)
    by (intro exI [of _ M] exI [of _ E]) (simp add: binary64_def)
qed

lemma exact_in_zero32: "exact_in binary32 0"
  by (rule exact_in_zero) (simp add: binary32_def)

lemma exact_in_zero64: "exact_in binary64 0"
  by (rule exact_in_zero) (simp add: binary64_def)

lemma dot4_exact:
  assumes fin: "is_finite a0" "is_finite b0" "is_finite a1" "is_finite b1"
      "is_finite a2" "is_finite b2" "is_finite a3" "is_finite b3"
    and prod: "exact_in binary32 (the_value a0 * the_value b0)"
      "exact_in binary32 (the_value a1 * the_value b1)"
      "exact_in binary32 (the_value a2 * the_value b2)"
      "exact_in binary32 (the_value a3 * the_value b3)"
    and sums: "exact_in binary64 (the_value a0 * the_value b0 + the_value a1 * the_value b1)"
      "exact_in binary64
         (the_value a0 * the_value b0 + the_value a1 * the_value b1 + the_value a2 * the_value b2)"
      "exact_in binary32
         (the_value a0 * the_value b0 + the_value a1 * the_value b1 + the_value a2 * the_value b2
            + the_value a3 * the_value b3)"
  shows "is_finite (dot4 a0 b0 a1 b1 a2 b2 a3 b3)
         \<and> the_value (dot4 a0 b0 a1 b1 a2 b2 a3 b3)
             = the_value a0 * the_value b0 + the_value a1 * the_value b1
                 + the_value a2 * the_value b2 + the_value a3 * the_value b3"
proof -
  let ?p0 = "fp_mul binary32 a0 b0" and ?p1 = "fp_mul binary32 a1 b1"
  let ?p2 = "fp_mul binary32 a2 b2" and ?p3 = "fp_mul binary32 a3 b3"
  let ?z = "Finite False 0 0"
  let ?s1 = "fp_add binary64 ?z ?p0"
  let ?s2 = "fp_add binary64 ?s1 ?p1"
  let ?s3 = "fp_add binary64 ?s2 ?p2"
  let ?s4 = "fp_add binary64 ?s3 ?p3"
  from fp_mul_exact [OF fin(1,2) prod(1)] have p0: "is_finite ?p0"
    "the_value ?p0 = the_value a0 * the_value b0" by simp_all
  from fp_mul_exact [OF fin(3,4) prod(2)] have p1: "is_finite ?p1"
    "the_value ?p1 = the_value a1 * the_value b1" by simp_all
  from fp_mul_exact [OF fin(5,6) prod(3)] have p2: "is_finite ?p2"
    "the_value ?p2 = the_value a2 * the_value b2" by simp_all
  from fp_mul_exact [OF fin(7,8) prod(4)] have p3: "is_finite ?p3"
    "the_value ?p3 = the_value a3 * the_value b3" by simp_all
  have z: "the_value ?z = 0" "is_finite ?z"
    by (simp_all add: value_zero is_finite_def)
  have "exact_in binary64 (the_value ?z + the_value ?p0)"
    using exact_in_widen [OF prod(1)] by (simp add: z p0)
  from fp_add_exact [OF z(2) p0(1) this] have s1: "is_finite ?s1"
    "the_value ?s1 = the_value a0 * the_value b0"
    by (simp_all add: z p0)
  have "exact_in binary64 (the_value ?s1 + the_value ?p1)"
    using sums(1) by (simp only: s1 p1)
  from fp_add_exact [OF s1(1) p1(1) this] have s2: "is_finite ?s2"
    "the_value ?s2 = the_value a0 * the_value b0 + the_value a1 * the_value b1"
    by (simp_all only: s1 p1)
  have "exact_in binary64 (the_value ?s2 + the_value ?p2)"
    using sums(2) by (simp only: s2 p2)
  from fp_add_exact [OF s2(1) p2(1) this] have s3: "is_finite ?s3"
    "the_value ?s3 = the_value a0 * the_value b0 + the_value a1 * the_value b1
        + the_value a2 * the_value b2"
    by (simp_all only: s2 p2)
  have "exact_in binary64 (the_value ?s3 + the_value ?p3)"
    using exact_in_widen [OF sums(3)] by (simp only: s3 p3)
  from fp_add_exact [OF s3(1) p3(1) this] have s4: "is_finite ?s4"
    "the_value ?s4 = the_value a0 * the_value b0 + the_value a1 * the_value b1
        + the_value a2 * the_value b2 + the_value a3 * the_value b3"
    by (simp_all only: s3 p3)
  have "exact_in binary32 (the_value ?s4)"
    using sums(3) by (simp only: s4)
  from narrow_exact [OF s4(1) this] show ?thesis
    unfolding dot4_def by (simp only: s4)
qed

text \<open>A sum with one term that is not zero.\<close>

lemma single_term:
  fixes x0 x1 x2 x3 r :: real
  assumes "(x0 = r \<and> x1 = 0 \<and> x2 = 0 \<and> x3 = 0) \<or> (x0 = 0 \<and> x1 = r \<and> x2 = 0 \<and> x3 = 0)
      \<or> (x0 = 0 \<and> x1 = 0 \<and> x2 = r \<and> x3 = 0) \<or> (x0 = 0 \<and> x1 = 0 \<and> x2 = 0 \<and> x3 = r)"
    and "exact_in binary32 r"
  shows "exact_in binary32 x0" "exact_in binary32 x1" "exact_in binary32 x2" "exact_in binary32 x3"
    "exact_in binary64 (x0 + x1)" "exact_in binary64 (x0 + x1 + x2)"
    "exact_in binary32 (x0 + x1 + x2 + x3)" "x0 + x1 + x2 + x3 = r"
  using assms exact_in_widen [OF assms(2)] exact_in_zero32 exact_in_zero64
  by (elim disjE conjE; simp)+

lemma dot4_single:
  assumes fin: "is_finite a0" "is_finite b0" "is_finite a1" "is_finite b1"
      "is_finite a2" "is_finite b2" "is_finite a3" "is_finite b3"
    and one: "(the_value a0 * the_value b0 = r \<and> the_value a1 * the_value b1 = 0
               \<and> the_value a2 * the_value b2 = 0 \<and> the_value a3 * the_value b3 = 0)
            \<or> (the_value a0 * the_value b0 = 0 \<and> the_value a1 * the_value b1 = r
               \<and> the_value a2 * the_value b2 = 0 \<and> the_value a3 * the_value b3 = 0)
            \<or> (the_value a0 * the_value b0 = 0 \<and> the_value a1 * the_value b1 = 0
               \<and> the_value a2 * the_value b2 = r \<and> the_value a3 * the_value b3 = 0)
            \<or> (the_value a0 * the_value b0 = 0 \<and> the_value a1 * the_value b1 = 0
               \<and> the_value a2 * the_value b2 = 0 \<and> the_value a3 * the_value b3 = r)"
    and r: "exact_in binary32 r"
  shows "is_finite (dot4 a0 b0 a1 b1 a2 b2 a3 b3)
         \<and> the_value (dot4 a0 b0 a1 b1 a2 b2 a3 b3) = r"
proof -
  note s = single_term [OF one r]
  from dot4_exact [OF fin s(1-7)] show ?thesis
    by (simp only: s(8))
qed

section \<open>Algebra of \<open>multiply4x4Matrices\<close>\<close>

subsection \<open>The identity matrix\<close>

lemma value_one: "the_value (Finite False 1 0) = 1"
  by (simp add: the_value_sign sign_factor_def)

lemma value_one_Suc: "the_value (Finite False (Suc 0) 0) = 1"
  by (simp add: the_value_sign sign_factor_def)

lemma matmul_nth:
  assumes "n < 16"
  shows "matmul A l r ! n = entry A l r (n div 4) (n mod 4)"
  using assms by (simp add: matmul_def)

lemma index_cases:
  assumes "n < (16::nat)"
  obtains "n div 4 = 0" | "n div 4 = 1" | "n div 4 = 2" | "n div 4 = 3"
  using assms by (cases "n div 4 = 0"; cases "n div 4 = 1"; cases "n div 4 = 2") auto

lemma mod_cases:
  obtains "n mod 4 = 0" | "n mod 4 = 1" | "n mod 4 = 2" | "n mod (4::nat) = 3"
  by (cases "n mod 4 = 0"; cases "n mod 4 = 1"; cases "n mod 4 = 2") auto

lemma identity_left_entry:
  assumes len: "length m = 16" and rep: "list_all (representable binary32) m" and n: "n < 16"
  shows "is_finite (matmul ieee_arith identity_matrix m ! n)
         \<and> the_value (matmul ieee_arith identity_matrix m ! n) = the_value (m ! n)"
proof -
  let ?i = "n div 4" and ?j = "n mod 4"
  have j: "?j < 4" by simp
  have nij: "n = 4 * ?i + ?j" by simp
  have r: "representable binary32 (m ! k)" if "k < 16" for k
    using rep len that by (simp add: list_all_length)
  have f: "is_finite (m ! k)" "exact_in binary32 (the_value (m ! k))" if "k < 16" for k
    using representable_exact_in [OF r [OF that]] by simp_all
  have fi: "is_finite (identity_matrix ! k)" if "k < 16" for k
  proof -
    have "list_all is_finite identity_matrix"
      by (simp add: identity_matrix_def is_finite_def)
    then show ?thesis
      using that by (simp add: list_all_length identity_matrix_def)
  qed
  have fm: "is_finite (m ! ?j)" "is_finite (m ! (4 + ?j))" "is_finite (m ! (8 + ?j))"
    "is_finite (m ! (12 + ?j))"
    using j by (auto intro!: f(1))
  have i4: "?i < 4"
    using n by simp
  have fI: "is_finite (identity_matrix ! (4 * ?i))" "is_finite (identity_matrix ! (4 * ?i + 1))"
    "is_finite (identity_matrix ! (4 * ?i + 2))" "is_finite (identity_matrix ! (4 * ?i + 3))"
    using i4 by (auto intro!: fi)
  have e: "exact_in binary32 (the_value (m ! n))"
    by (rule f(2) [OF n])
  have one: "(the_value (identity_matrix ! (4 * ?i)) * the_value (m ! ?j) = the_value (m ! n)
        \<and> the_value (identity_matrix ! (4 * ?i + 1)) * the_value (m ! (4 + ?j)) = 0
        \<and> the_value (identity_matrix ! (4 * ?i + 2)) * the_value (m ! (8 + ?j)) = 0
        \<and> the_value (identity_matrix ! (4 * ?i + 3)) * the_value (m ! (12 + ?j)) = 0)
      \<or> (the_value (identity_matrix ! (4 * ?i)) * the_value (m ! ?j) = 0
        \<and> the_value (identity_matrix ! (4 * ?i + 1)) * the_value (m ! (4 + ?j)) = the_value (m ! n)
        \<and> the_value (identity_matrix ! (4 * ?i + 2)) * the_value (m ! (8 + ?j)) = 0
        \<and> the_value (identity_matrix ! (4 * ?i + 3)) * the_value (m ! (12 + ?j)) = 0)
      \<or> (the_value (identity_matrix ! (4 * ?i)) * the_value (m ! ?j) = 0
        \<and> the_value (identity_matrix ! (4 * ?i + 1)) * the_value (m ! (4 + ?j)) = 0
        \<and> the_value (identity_matrix ! (4 * ?i + 2)) * the_value (m ! (8 + ?j)) = the_value (m ! n)
        \<and> the_value (identity_matrix ! (4 * ?i + 3)) * the_value (m ! (12 + ?j)) = 0)
      \<or> (the_value (identity_matrix ! (4 * ?i)) * the_value (m ! ?j) = 0
        \<and> the_value (identity_matrix ! (4 * ?i + 1)) * the_value (m ! (4 + ?j)) = 0
        \<and> the_value (identity_matrix ! (4 * ?i + 2)) * the_value (m ! (8 + ?j)) = 0
        \<and> the_value (identity_matrix ! (4 * ?i + 3)) * the_value (m ! (12 + ?j)) = the_value (m ! n))"
  proof (rule index_cases [OF n])
    assume i: "?i = 0"
    then have "n = ?j" using nij by simp
    then have "m ! ?j = m ! n" by simp
    then show ?thesis
      by (simp add: i identity_matrix_def value_one value_one_Suc value_zero)
  next
    assume i: "?i = 1"
    then have "n = 4 + ?j" using nij by simp
    then have "m ! (4 + ?j) = m ! n" by simp
    then show ?thesis
      by (simp add: i identity_matrix_def value_one value_one_Suc value_zero)
  next
    assume i: "?i = 2"
    then have "n = 8 + ?j" using nij by simp
    then have "m ! (8 + ?j) = m ! n" by simp
    then show ?thesis
      by (simp add: i identity_matrix_def value_one value_one_Suc value_zero)
  next
    assume i: "?i = 3"
    then have "n = 12 + ?j" using nij by simp
    then have "m ! (12 + ?j) = m ! n" by simp
    then show ?thesis
      by (simp add: i identity_matrix_def value_one value_one_Suc value_zero)
  qed
  from dot4_single [OF fI(1) fm(1) fI(2) fm(2) fI(3) fm(3) fI(4) fm(4) one e] show ?thesis
    by (simp only: matmul_nth [OF n] entry_dot4)
qed

lemma identity_right_entry:
  assumes len: "length m = 16" and rep: "list_all (representable binary32) m" and n: "n < 16"
  shows "is_finite (matmul ieee_arith m identity_matrix ! n)
         \<and> the_value (matmul ieee_arith m identity_matrix ! n) = the_value (m ! n)"
proof -
  let ?i = "n div 4" and ?j = "n mod 4"
  have j: "?j < 4" by simp
  have nij: "n = 4 * ?i + ?j" by simp
  have r: "representable binary32 (m ! k)" if "k < 16" for k
    using rep len that by (simp add: list_all_length)
  have f: "is_finite (m ! k)" "exact_in binary32 (the_value (m ! k))" if "k < 16" for k
    using representable_exact_in [OF r [OF that]] by simp_all
  have fi: "is_finite (identity_matrix ! k)" if "k < 16" for k
  proof -
    have "list_all is_finite identity_matrix"
      by (simp add: identity_matrix_def is_finite_def)
    then show ?thesis
      using that by (simp add: list_all_length identity_matrix_def)
  qed
  have i4: "?i < 4"
    using n by simp
  have fm: "is_finite (m ! (4 * ?i))" "is_finite (m ! (4 * ?i + 1))" "is_finite (m ! (4 * ?i + 2))"
    "is_finite (m ! (4 * ?i + 3))"
    using i4 by (auto intro!: f(1))
  have fI: "is_finite (identity_matrix ! ?j)" "is_finite (identity_matrix ! (4 + ?j))"
    "is_finite (identity_matrix ! (8 + ?j))" "is_finite (identity_matrix ! (12 + ?j))"
    using j by (auto intro!: fi)
  have e: "exact_in binary32 (the_value (m ! n))"
    by (rule f(2) [OF n])
  have one: "(the_value (m ! (4 * ?i)) * the_value (identity_matrix ! ?j) = the_value (m ! n)
        \<and> the_value (m ! (4 * ?i + 1)) * the_value (identity_matrix ! (4 + ?j)) = 0
        \<and> the_value (m ! (4 * ?i + 2)) * the_value (identity_matrix ! (8 + ?j)) = 0
        \<and> the_value (m ! (4 * ?i + 3)) * the_value (identity_matrix ! (12 + ?j)) = 0)
      \<or> (the_value (m ! (4 * ?i)) * the_value (identity_matrix ! ?j) = 0
        \<and> the_value (m ! (4 * ?i + 1)) * the_value (identity_matrix ! (4 + ?j)) = the_value (m ! n)
        \<and> the_value (m ! (4 * ?i + 2)) * the_value (identity_matrix ! (8 + ?j)) = 0
        \<and> the_value (m ! (4 * ?i + 3)) * the_value (identity_matrix ! (12 + ?j)) = 0)
      \<or> (the_value (m ! (4 * ?i)) * the_value (identity_matrix ! ?j) = 0
        \<and> the_value (m ! (4 * ?i + 1)) * the_value (identity_matrix ! (4 + ?j)) = 0
        \<and> the_value (m ! (4 * ?i + 2)) * the_value (identity_matrix ! (8 + ?j)) = the_value (m ! n)
        \<and> the_value (m ! (4 * ?i + 3)) * the_value (identity_matrix ! (12 + ?j)) = 0)
      \<or> (the_value (m ! (4 * ?i)) * the_value (identity_matrix ! ?j) = 0
        \<and> the_value (m ! (4 * ?i + 1)) * the_value (identity_matrix ! (4 + ?j)) = 0
        \<and> the_value (m ! (4 * ?i + 2)) * the_value (identity_matrix ! (8 + ?j)) = 0
        \<and> the_value (m ! (4 * ?i + 3)) * the_value (identity_matrix ! (12 + ?j)) = the_value (m ! n))"
  proof (rule mod_cases [of n])
    assume j: "?j = 0"
    then have "n = 4 * ?i" using nij by simp
    then have "m ! (4 * ?i) = m ! n" by simp
    then show ?thesis
      by (simp add: j identity_matrix_def value_one value_one_Suc value_zero)
  next
    assume j: "?j = 1"
    then have "n = 4 * ?i + 1" using nij by simp
    then have "m ! (4 * ?i + 1) = m ! n" by simp
    then show ?thesis
      by (simp add: j identity_matrix_def value_one value_one_Suc value_zero)
  next
    assume j: "?j = 2"
    then have "n = 4 * ?i + 2" using nij by simp
    then have "m ! (4 * ?i + 2) = m ! n" by simp
    then show ?thesis
      by (simp add: j identity_matrix_def value_one value_one_Suc value_zero)
  next
    assume j: "?j = 3"
    then have "n = 4 * ?i + 3" using nij by simp
    then have "m ! (4 * ?i + 3) = m ! n" by simp
    then show ?thesis
      by (simp add: j identity_matrix_def value_one value_one_Suc value_zero)
  qed
  from dot4_single [OF fm(1) fI(1) fm(2) fI(2) fm(3) fI(3) fm(4) fI(4) one e] show ?thesis
    by (simp only: matmul_nth [OF n] entry_dot4)
qed

lemma multiply_identity_values:
  assumes len: "length m = 16" and rep: "list_all (representable binary32) m"
  shows "(\<exists>r. multiply4x4Matrices ieee_arith identity_matrix m = Inr r
            \<and> list_all is_finite r \<and> map the_value r = map the_value m)
         \<and> (\<exists>r. multiply4x4Matrices ieee_arith m identity_matrix = Inr r
            \<and> list_all is_finite r \<and> map the_value r = map the_value m)"
proof -
  have li: "length identity_matrix = 16"
    by (simp add: identity_matrix_def)
  have l: "multiply4x4Matrices ieee_arith identity_matrix m = Inr (matmul ieee_arith identity_matrix m)"
    by (rule multiply_matmul [OF li len])
  have r: "multiply4x4Matrices ieee_arith m identity_matrix = Inr (matmul ieee_arith m identity_matrix)"
    by (rule multiply_matmul [OF len li])
  have vl: "map the_value (matmul ieee_arith identity_matrix m) = map the_value m"
    using identity_left_entry [OF len rep] len
    by (intro nth_equalityI) (simp_all add: length_matmul)
  have vr: "map the_value (matmul ieee_arith m identity_matrix) = map the_value m"
    using identity_right_entry [OF len rep] len
    by (intro nth_equalityI) (simp_all add: length_matmul)
  have fl: "list_all is_finite (matmul ieee_arith identity_matrix m)"
    using identity_left_entry [OF len rep] by (simp add: list_all_length length_matmul)
  have fr: "list_all is_finite (matmul ieee_arith m identity_matrix)"
    using identity_right_entry [OF len rep] by (simp add: list_all_length length_matmul)
  show ?thesis
    using l r vl vr fl fr by blast
qed

subsection \<open>Associativity up to rounding\<close>

lemma bounded_byD:
  assumes "bounded_by K m" "k < length m"
  shows "is_finite (m ! k)" "\<bar>the_value (m ! k)\<bar> \<le> K"
  using assms by (simp_all add: bounded_by_def list_all_length)

lemma entry_exact_value:
  "entry exact_arith L R i j =
     L ! (4 * i) * R ! j + L ! (4 * i + 1) * R ! (4 + j) + L ! (4 * i + 2) * R ! (8 + j)
       + L ! (4 * i + 3) * R ! (12 + j)"
  by (simp add: entry_def exact_arith_simps)

lemma abs_prod_le:
  fixes x y :: real
  assumes "\<bar>x\<bar> \<le> A" "\<bar>y\<bar> \<le> B"
  shows "\<bar>x * y\<bar> \<le> A * B"
proof -
  have "\<bar>x\<bar> * \<bar>y\<bar> \<le> A * B"
    using assms by (intro mult_mono) simp_all
  then show ?thesis
    by (simp add: abs_mult)
qed

lemma sum4_le:
  fixes x0 x1 x2 x3 :: real
  assumes "\<bar>x0\<bar> \<le> M" "\<bar>x1\<bar> \<le> M" "\<bar>x2\<bar> \<le> M" "\<bar>x3\<bar> \<le> M"
  shows "\<bar>x0 + x1 + x2 + x3\<bar> \<le> 4 * M" "\<bar>x0\<bar> + \<bar>x1\<bar> + \<bar>x2\<bar> + \<bar>x3\<bar> \<le> 4 * M"
  using assms by linarith+

lemma index_bounds:
  assumes "n < (16::nat)"
  shows "4 * (n div 4) < 16" "4 * (n div 4) + 1 < 16" "4 * (n div 4) + 2 < 16"
    "4 * (n div 4) + 3 < 16" "n mod 4 < 16" "4 + n mod 4 < 16" "8 + n mod 4 < 16"
    "12 + n mod 4 < 16"
proof -
  have "n div 4 < 4" using assms by simp
  then show "4 * (n div 4) < 16" "4 * (n div 4) + 1 < 16" "4 * (n div 4) + 2 < 16"
    "4 * (n div 4) + 3 < 16"
    by linarith+
  have "n mod 4 < 4" by simp
  then show "n mod 4 < 16" "4 + n mod 4 < 16" "8 + n mod 4 < 16" "12 + n mod 4 < 16"
    by linarith+
qed

text \<open>One entry of the product in the arithmetic of the program, against the exact one.\<close>

lemma product_entry_near:
  assumes len: "length l = 16" "length r = 16"
    and bl: "bounded_by A l" and br: "bounded_by B r"
    and AB: "A * B \<le> 2 ^ 120"
    and n: "n < 16"
  shows "is_finite (matmul ieee_arith l r ! n)"
    and "\<bar>the_value (matmul ieee_arith l r ! n)
           - matmul exact_arith (map the_value l) (map the_value r) ! n\<bar>
         \<le> 12 / 16777216 * (A * B) + 16 * underflow_unit binary32"
    and "\<bar>matmul exact_arith (map the_value l) (map the_value r) ! n\<bar> \<le> 4 * (A * B)"
proof -
  let ?i = "n div 4" and ?j = "n mod 4"
  note ix = index_bounds [OF n]
  have il: "4 * ?i < length l" "4 * ?i + 1 < length l" "4 * ?i + 2 < length l" "4 * ?i + 3 < length l"
    using ix len by simp_all
  have ir: "?j < length r" "4 + ?j < length r" "8 + ?j < length r" "12 + ?j < length r"
    using ix len by simp_all
  note fl = bounded_byD [OF bl il(1)] bounded_byD [OF bl il(2)] bounded_byD [OF bl il(3)]
    bounded_byD [OF bl il(4)]
  note fr = bounded_byD [OF br ir(1)] bounded_byD [OF br ir(2)] bounded_byD [OF br ir(3)]
    bounded_byD [OF br ir(4)]
  let ?x0 = "the_value (l ! (4 * ?i)) * the_value (r ! ?j)"
  let ?x1 = "the_value (l ! (4 * ?i + 1)) * the_value (r ! (4 + ?j))"
  let ?x2 = "the_value (l ! (4 * ?i + 2)) * the_value (r ! (8 + ?j))"
  let ?x3 = "the_value (l ! (4 * ?i + 3)) * the_value (r ! (12 + ?j))"
  have x: "\<bar>?x0\<bar> \<le> A * B" "\<bar>?x1\<bar> \<le> A * B" "\<bar>?x2\<bar> \<le> A * B" "\<bar>?x3\<bar> \<le> A * B"
    by (rule abs_prod_le [OF fl(2) fr(2)] abs_prod_le [OF fl(4) fr(4)]
        abs_prod_le [OF fl(6) fr(6)] abs_prod_le [OF fl(8) fr(8)])+
  have xb: "\<bar>?x0\<bar> \<le> 2 ^ 120" "\<bar>?x1\<bar> \<le> 2 ^ 120" "\<bar>?x2\<bar> \<le> 2 ^ 120" "\<bar>?x3\<bar> \<le> 2 ^ 120"
    using x AB by linarith+
  have ex: "matmul exact_arith (map the_value l) (map the_value r) ! n = ?x0 + ?x1 + ?x2 + ?x3"
    using il ir by (simp add: matmul_nth [OF n] entry_exact_value)
  from dot4_error [OF fl(1) fr(1) fl(3) fr(3) fl(5) fr(5) fl(7) fr(7) xb]
  have d: "is_finite (matmul ieee_arith l r ! n)"
    "\<bar>the_value (matmul ieee_arith l r ! n) - (?x0 + ?x1 + ?x2 + ?x3)\<bar>
       \<le> 3 / 16777216 * (\<bar>?x0\<bar> + \<bar>?x1\<bar> + \<bar>?x2\<bar> + \<bar>?x3\<bar>) + 16 * underflow_unit binary32"
    by (simp_all only: matmul_nth [OF n] entry_dot4)
  show "is_finite (matmul ieee_arith l r ! n)"
    by (rule d(1))
  have "3 / 16777216 * (\<bar>?x0\<bar> + \<bar>?x1\<bar> + \<bar>?x2\<bar> + \<bar>?x3\<bar>) \<le> 3 / 16777216 * (4 * (A * B))"
    using sum4_le(2) [OF x] by (intro mult_left_mono) simp_all
  with d(2) show "\<bar>the_value (matmul ieee_arith l r ! n)
           - matmul exact_arith (map the_value l) (map the_value r) ! n\<bar>
         \<le> 12 / 16777216 * (A * B) + 16 * underflow_unit binary32"
    unfolding ex by linarith
  show "\<bar>matmul exact_arith (map the_value l) (map the_value r) ! n\<bar> \<le> 4 * (A * B)"
    unfolding ex by (rule sum4_le(1) [OF x])
qed

text \<open>An exact product changes little when one factor changes little.\<close>

lemma exact_entry_left_near:
  assumes len: "length X = 16" "length Y = 16" "length C = 16"
    and near: "\<forall>k<16. \<bar>X ! k - Y ! k\<bar> \<le> E" and bc: "\<forall>k<16. \<bar>C ! k\<bar> \<le> K"
    and n: "n < 16"
  shows "\<bar>matmul exact_arith X C ! n - matmul exact_arith Y C ! n\<bar> \<le> 4 * (E * K)"
proof -
  let ?i = "n div 4" and ?j = "n mod 4"
  note ix = index_bounds [OF n]
  have d: "\<bar>X ! (4 * ?i) - Y ! (4 * ?i)\<bar> \<le> E" "\<bar>X ! (4 * ?i + 1) - Y ! (4 * ?i + 1)\<bar> \<le> E"
    "\<bar>X ! (4 * ?i + 2) - Y ! (4 * ?i + 2)\<bar> \<le> E" "\<bar>X ! (4 * ?i + 3) - Y ! (4 * ?i + 3)\<bar> \<le> E"
    using near ix by simp_all
  have c: "\<bar>C ! ?j\<bar> \<le> K" "\<bar>C ! (4 + ?j)\<bar> \<le> K" "\<bar>C ! (8 + ?j)\<bar> \<le> K" "\<bar>C ! (12 + ?j)\<bar> \<le> K"
    using bc ix by simp_all
  note p = abs_prod_le [OF d(1) c(1)] abs_prod_le [OF d(2) c(2)] abs_prod_le [OF d(3) c(3)]
    abs_prod_le [OF d(4) c(4)]
  have "matmul exact_arith X C ! n - matmul exact_arith Y C ! n
      = (X ! (4 * ?i) - Y ! (4 * ?i)) * C ! ?j
        + (X ! (4 * ?i + 1) - Y ! (4 * ?i + 1)) * C ! (4 + ?j)
        + (X ! (4 * ?i + 2) - Y ! (4 * ?i + 2)) * C ! (8 + ?j)
        + (X ! (4 * ?i + 3) - Y ! (4 * ?i + 3)) * C ! (12 + ?j)"
    by (simp add: matmul_nth [OF n] entry_exact_value algebra_simps)
  then show ?thesis
    using sum4_le(1) [OF p] by simp
qed

lemma exact_entry_right_near:
  assumes len: "length A = 16" "length X = 16" "length Y = 16"
    and near: "\<forall>k<16. \<bar>X ! k - Y ! k\<bar> \<le> E" and ba: "\<forall>k<16. \<bar>A ! k\<bar> \<le> K"
    and n: "n < 16"
  shows "\<bar>matmul exact_arith A X ! n - matmul exact_arith A Y ! n\<bar> \<le> 4 * (K * E)"
proof -
  let ?i = "n div 4" and ?j = "n mod 4"
  note ix = index_bounds [OF n]
  have d: "\<bar>X ! ?j - Y ! ?j\<bar> \<le> E" "\<bar>X ! (4 + ?j) - Y ! (4 + ?j)\<bar> \<le> E"
    "\<bar>X ! (8 + ?j) - Y ! (8 + ?j)\<bar> \<le> E" "\<bar>X ! (12 + ?j) - Y ! (12 + ?j)\<bar> \<le> E"
    using near ix by simp_all
  have c: "\<bar>A ! (4 * ?i)\<bar> \<le> K" "\<bar>A ! (4 * ?i + 1)\<bar> \<le> K" "\<bar>A ! (4 * ?i + 2)\<bar> \<le> K"
    "\<bar>A ! (4 * ?i + 3)\<bar> \<le> K"
    using ba ix by simp_all
  note p = abs_prod_le [OF c(1) d(1)] abs_prod_le [OF c(2) d(2)] abs_prod_le [OF c(3) d(3)]
    abs_prod_le [OF c(4) d(4)]
  have "matmul exact_arith A X ! n - matmul exact_arith A Y ! n
      = A ! (4 * ?i) * (X ! ?j - Y ! ?j)
        + A ! (4 * ?i + 1) * (X ! (4 + ?j) - Y ! (4 + ?j))
        + A ! (4 * ?i + 2) * (X ! (8 + ?j) - Y ! (8 + ?j))
        + A ! (4 * ?i + 3) * (X ! (12 + ?j) - Y ! (12 + ?j))"
    by (simp add: matmul_nth [OF n] entry_exact_value algebra_simps)
  then show ?thesis
    using sum4_le(1) [OF p] by simp
qed

lemma product_bounded:
  assumes len: "length l = 16" "length r = 16"
    and bl: "bounded_by A l" and br: "bounded_by B r"
    and AB: "A * B \<le> 2 ^ 120" and big: "1 \<le> A * B"
  shows "bounded_by (6 * (A * B)) (matmul ieee_arith l r)"
proof -
  have hs: "underflow_unit binary32 \<le> 1 / 1267650600228229401496703205376"
    by (rule eta32_small)
  have "is_finite (matmul ieee_arith l r ! n) \<and> \<bar>the_value (matmul ieee_arith l r ! n)\<bar> \<le> 6 * (A * B)"
    if n: "n < 16" for n
  proof -
    note p = product_entry_near [OF len bl br AB n]
    from near_abs [OF p(2) p(3)]
    have "\<bar>the_value (matmul ieee_arith l r ! n)\<bar>
        \<le> 4 * (A * B) + (12 / 16777216 * (A * B) + 16 * underflow_unit binary32)" .
    with hs big have "\<bar>the_value (matmul ieee_arith l r ! n)\<bar> \<le> 6 * (A * B)"
      by linarith
    with p(1) show ?thesis
      by simp
  qed
  then show ?thesis
    by (simp add: bounded_by_def list_all_length length_matmul)
qed

lemma bounded_values:
  assumes "bounded_by K m" "length m = 16"
  shows "\<forall>k<16. \<bar>map the_value m ! k\<bar> \<le> K"
  using assms by (simp add: bounded_by_def list_all_length)

lemma power_bounds:
  fixes K :: real
  assumes "1 \<le> K" "K \<le> 1073741824"
  shows "K * K \<le> 2 ^ 120" "1 \<le> K * K" "6 * (K * K) * K \<le> 2 ^ 120" "K * (6 * (K * K)) \<le> 2 ^ 120"
    "1 \<le> K * K * K" "K \<le> K * K * K"
proof -
  have k0: "0 \<le> K" using assms by simp
  have k2: "K * K \<le> 1073741824 * 1073741824"
    using assms k0 by (intro mult_mono) simp_all
  have k2l: "1 * 1 \<le> K * K"
    using assms by (intro mult_mono) simp_all
  then show "1 \<le> K * K" by simp
  have k3: "K * K * K \<le> 1073741824 * 1073741824 * 1073741824"
    using assms k0 k2 by (intro mult_mono) simp_all
  have big: "(2::real) ^ 120 = 1329227995784915872903807060280344576"
    by simp
  show "K * K \<le> 2 ^ 120"
    unfolding big using k2 by linarith
  show "6 * (K * K) * K \<le> 2 ^ 120"
    unfolding big using k3 by (simp add: algebra_simps)
  show "K * (6 * (K * K)) \<le> 2 ^ 120"
    unfolding big using k3 by (simp add: algebra_simps)
  have "1 * 1 * 1 \<le> K * K * K"
    using assms k2l by (intro mult_mono) simp_all
  then show "1 \<le> K * K * K" by simp
  have "K * (1 * 1) \<le> K * (K * K)"
    using k2l k0 by (intro mult_left_mono) simp_all
  then show "K \<le> K * K * K"
    by (simp add: mult.assoc)
qed

lemma multiply_assoc_near:
  assumes len: "length a = 16" "length b = 16" "length c = 16"
    and bd: "bounded_by K a" "bounded_by K b" "bounded_by K c"
    and K: "1 \<le> K" "K \<le> 1073741824"
    and n: "n < 16"
  shows "is_finite (matmul ieee_arith (matmul ieee_arith a b) c ! n)"
    and "is_finite (matmul ieee_arith a (matmul ieee_arith b c) ! n)"
    and "\<bar>the_value (matmul ieee_arith (matmul ieee_arith a b) c ! n)
          - the_value (matmul ieee_arith a (matmul ieee_arith b c) ! n)\<bar> \<le> K * K * K / 65536"
proof -
  define h where "h = underflow_unit binary32"
  have hs: "h \<le> 1 / 1267650600228229401496703205376" and hpos: "0 < h"
    unfolding h_def by (rule eta32_small eta_pos)+
  note pw = power_bounds [OF K]
  let ?X = "matmul ieee_arith a b" and ?Z = "matmul ieee_arith b c"
  let ?Va = "map the_value a" and ?Vb = "map the_value b" and ?Vc = "map the_value c"
  define E where "E = 12 / 16777216 * (K * K) + 16 * h"
  have lX: "length ?X = 16" and lZ: "length ?Z = 16"
    by (simp_all add: length_matmul)
  have bX: "bounded_by (6 * (K * K)) ?X"
    by (rule product_bounded [OF len(1,2) bd(1,2) pw(1,2)])
  have bZ: "bounded_by (6 * (K * K)) ?Z"
    by (rule product_bounded [OF len(2,3) bd(2,3) pw(1,2)])
  have nX: "\<forall>k<16. \<bar>map the_value ?X ! k - matmul exact_arith ?Va ?Vb ! k\<bar> \<le> E"
    using product_entry_near(2) [OF len(1,2) bd(1,2) pw(1)] lX unfolding E_def h_def by simp
  have nZ: "\<forall>k<16. \<bar>map the_value ?Z ! k - matmul exact_arith ?Vb ?Vc ! k\<bar> \<le> E"
    using product_entry_near(2) [OF len(2,3) bd(2,3) pw(1)] lZ unfolding E_def h_def by simp
  note y = product_entry_near [OF lX len(3) bX bd(3) pw(3) n]
  note w = product_entry_near [OF len(1) lZ bd(1) bZ pw(4) n]
  show "is_finite (matmul ieee_arith ?X c ! n)"
    by (rule y(1))
  show "is_finite (matmul ieee_arith a ?Z ! n)"
    by (rule w(1))
  have dl: "\<bar>matmul exact_arith (map the_value ?X) ?Vc ! n
      - matmul exact_arith (matmul exact_arith ?Va ?Vb) ?Vc ! n\<bar> \<le> 4 * (E * K)"
    by (rule exact_entry_left_near [OF _ _ _ nX bounded_values [OF bd(3) len(3)] n])
      (simp_all add: lX len length_matmul)
  have dr: "\<bar>matmul exact_arith ?Va (map the_value ?Z) ! n
      - matmul exact_arith ?Va (matmul exact_arith ?Vb ?Vc) ! n\<bar> \<le> 4 * (K * E)"
    by (rule exact_entry_right_near [OF _ _ _ nZ bounded_values [OF bd(1) len(1)] n])
      (simp_all add: lZ len length_matmul)
  have assoc: "matmul exact_arith (matmul exact_arith ?Va ?Vb) ?Vc
      = matmul exact_arith ?Va (matmul exact_arith ?Vb ?Vc)"
    by (rule matmul_exact_assoc) (simp_all add: len)
  define t where "t = matmul exact_arith ?Va (matmul exact_arith ?Vb ?Vc) ! n"
  from near_trans [OF y(2) dl]
  have l: "\<bar>the_value (matmul ieee_arith ?X c ! n) - t\<bar>
      \<le> 4 * (E * K) + (12 / 16777216 * (6 * (K * K) * K) + 16 * h)"
    unfolding assoc t_def h_def .
  from near_trans [OF w(2) dr]
  have r: "\<bar>the_value (matmul ieee_arith a ?Z ! n) - t\<bar>
      \<le> 4 * (K * E) + (12 / 16777216 * (K * (6 * (K * K))) + 16 * h)"
    unfolding t_def h_def .
  define K3 where "K3 = K * K * K"
  define q where "q = h * K"
  have hK: "q \<le> 1 / 1267650600228229401496703205376 * K"
    unfolding q_def using hs K(1) by (intro mult_right_mono) simp_all
  have K3b: "1 \<le> K3" "K \<le> K3"
    unfolding K3_def by (rule pw(5) pw(6))+
  have "\<bar>the_value (matmul ieee_arith ?X c ! n) - the_value (matmul ieee_arith a ?Z ! n)\<bar>
      \<le> (4 * (E * K) + (12 / 16777216 * (6 * (K * K) * K) + 16 * h))
        + (4 * (K * E) + (12 / 16777216 * (K * (6 * (K * K))) + 16 * h))"
    using l r by linarith
  also have "\<dots> = 240 / 16777216 * K3 + 128 * q + 32 * h"
    unfolding E_def K3_def q_def by (simp add: algebra_simps)
  also have "\<dots> \<le> K3 / 65536"
    using hK hs hpos K3b K(1) by linarith
  finally show "\<bar>the_value (matmul ieee_arith ?X c ! n) - the_value (matmul ieee_arith a ?Z ! n)\<bar>
      \<le> K * K * K / 65536"
    unfolding K3_def .
qed

subsection \<open>Associativity and identity\<close>

lemma infinity_product_value:
  "matmul ieee_arith identity_matrix infinity_example = infinity_product"
  apply (simp only: matmul_entries entry_def identity_matrix_def infinity_example_def
      infinity_product_def ieee_arith_simps double_zero)
  apply (simp add: fp_simps)
  done

text \<open>
  C5: over the real numbers the product is associative and the identity matrix is a unit on
  both sides. In the arithmetic of the program, multiplying a matrix of 16 \<open>float\<close> values
  by the identity matrix, on either side, returns finite entries with the same values; and
  for matrices of finite entries of magnitude at most \<open>K\<close>, with \<open>1 \<le> K \<le> 2^30\<close>, each
  entry of \<open>(x * y) * z\<close> differs from the same entry of \<open>x * (y * z)\<close> by at most
  \<open>K^3 / 65536\<close>.
\<close>

theorem multiply4x4Matrices_algebra:
  "(length a = 16 \<and> length b = 16 \<and> length c = 16
      \<longrightarrow> (\<exists>ab bc l r.
            multiply4x4Matrices exact_arith a b = Inr ab
            \<and> multiply4x4Matrices exact_arith ab c = Inr l
            \<and> multiply4x4Matrices exact_arith b c = Inr bc
            \<and> multiply4x4Matrices exact_arith a bc = Inr r
            \<and> l = r)
        \<and> multiply4x4Matrices exact_arith (affine 1 0 0 0 1 0) a = Inr a
        \<and> multiply4x4Matrices exact_arith a (affine 1 0 0 0 1 0) = Inr a)
   \<and> (length m = 16 \<and> list_all (representable binary32) m
      \<longrightarrow> (\<exists>r. multiply4x4Matrices ieee_arith identity_matrix m = Inr r
              \<and> list_all is_finite r \<and> map the_value r = map the_value m)
        \<and> (\<exists>r. multiply4x4Matrices ieee_arith m identity_matrix = Inr r
              \<and> list_all is_finite r \<and> map the_value r = map the_value m))
   \<and> (length x = 16 \<and> length y = 16 \<and> length z = 16
        \<and> bounded_by K x \<and> bounded_by K y \<and> bounded_by K z \<and> 1 \<le> K \<and> K \<le> 1073741824
      \<longrightarrow> (\<exists>xy yz l r.
            multiply4x4Matrices ieee_arith x y = Inr xy
            \<and> multiply4x4Matrices ieee_arith xy z = Inr l
            \<and> multiply4x4Matrices ieee_arith y z = Inr yz
            \<and> multiply4x4Matrices ieee_arith x yz = Inr r
            \<and> list_all is_finite l \<and> list_all is_finite r
            \<and> (\<forall>n<16. \<bar>the_value (l ! n) - the_value (r ! n)\<bar> \<le> K * K * K / 65536)))"
proof (intro conjI impI)
  assume "length a = 16 \<and> length b = 16 \<and> length c = 16"
  then have len: "length a = 16" "length b = 16" "length c = 16"
    by simp_all
  have m: "multiply4x4Matrices exact_arith a b = Inr (matmul exact_arith a b)"
    "multiply4x4Matrices exact_arith (matmul exact_arith a b) c
       = Inr (matmul exact_arith (matmul exact_arith a b) c)"
    "multiply4x4Matrices exact_arith b c = Inr (matmul exact_arith b c)"
    "multiply4x4Matrices exact_arith a (matmul exact_arith b c)
       = Inr (matmul exact_arith a (matmul exact_arith b c))"
    by (simp_all add: multiply_matmul len length_matmul)
  from m matmul_exact_assoc [OF len]
  show "\<exists>ab bc l r.
            multiply4x4Matrices exact_arith a b = Inr ab
            \<and> multiply4x4Matrices exact_arith ab c = Inr l
            \<and> multiply4x4Matrices exact_arith b c = Inr bc
            \<and> multiply4x4Matrices exact_arith a bc = Inr r
            \<and> l = r"
    by blast
  have la: "length (affine 1 0 0 0 1 0) = 16"
    by (simp add: affine_def)
  show "multiply4x4Matrices exact_arith (affine 1 0 0 0 1 0) a = Inr a"
    by (simp add: multiply_matmul [OF la len(1)] matmul_exact_identity(2) [OF len(1)])
  show "multiply4x4Matrices exact_arith a (affine 1 0 0 0 1 0) = Inr a"
    by (simp add: multiply_matmul [OF len(1) la] matmul_exact_identity(1) [OF len(1)])
next
  assume h: "length m = 16 \<and> list_all (representable binary32) m"
  then have "length m = 16" "list_all (representable binary32) m"
    by simp_all
  from multiply_identity_values [OF this]
  show "\<exists>r. multiply4x4Matrices ieee_arith identity_matrix m = Inr r
              \<and> list_all is_finite r \<and> map the_value r = map the_value m"
    and "\<exists>r. multiply4x4Matrices ieee_arith m identity_matrix = Inr r
              \<and> list_all is_finite r \<and> map the_value r = map the_value m"
    by simp_all
next
  assume "length x = 16 \<and> length y = 16 \<and> length z = 16
        \<and> bounded_by K x \<and> bounded_by K y \<and> bounded_by K z \<and> 1 \<le> K \<and> K \<le> 1073741824"
  then have len: "length x = 16" "length y = 16" "length z = 16"
    and bd: "bounded_by K x" "bounded_by K y" "bounded_by K z"
    and K: "1 \<le> K" "K \<le> 1073741824"
    by simp_all
  let ?l = "matmul ieee_arith (matmul ieee_arith x y) z"
  let ?r = "matmul ieee_arith x (matmul ieee_arith y z)"
  have m: "multiply4x4Matrices ieee_arith x y = Inr (matmul ieee_arith x y)"
    "multiply4x4Matrices ieee_arith (matmul ieee_arith x y) z = Inr ?l"
    "multiply4x4Matrices ieee_arith y z = Inr (matmul ieee_arith y z)"
    "multiply4x4Matrices ieee_arith x (matmul ieee_arith y z) = Inr ?r"
    by (simp_all add: multiply_matmul len length_matmul)
  note a = multiply_assoc_near [OF len bd K]
  have fl: "list_all is_finite ?l" "list_all is_finite ?r"
    using a(1,2) by (simp_all add: list_all_length length_matmul)
  have "\<forall>n<16. \<bar>the_value (?l ! n) - the_value (?r ! n)\<bar> \<le> K * K * K / 65536"
    using a(3) by blast
  with m fl show "\<exists>xy yz l r.
            multiply4x4Matrices ieee_arith x y = Inr xy
            \<and> multiply4x4Matrices ieee_arith xy z = Inr l
            \<and> multiply4x4Matrices ieee_arith y z = Inr yz
            \<and> multiply4x4Matrices ieee_arith x yz = Inr r
            \<and> list_all is_finite l \<and> list_all is_finite r
            \<and> (\<forall>n<16. \<bar>the_value (l ! n) - the_value (r ! n)\<bar> \<le> K * K * K / 65536)"
    by blast
qed

lemma full_map_example_bounded: "bounded_by 2 full_map_example"
  by (simp add: bounded_by_def full_map_example_def is_finite_def the_value_def)

lemma full_map_example_representable: "list_all (representable binary32) full_map_example"
  by (simp add: representable_def full_map_example_def binary32_def bit_length_numeral)

text \<open>
  The theorem at the full-map matrix of the scenario, whose entries are at most 2 in
  magnitude.
\<close>

theorem multiply4x4Matrices_algebra_witness:
  "length full_map_example = 16
   \<and> list_all (representable binary32) full_map_example
   \<and> bounded_by 2 full_map_example \<and> (1::real) \<le> 2 \<and> (2::real) \<le> 1073741824
   \<and> (\<exists>ab bc l r.
        multiply4x4Matrices exact_arith (map the_value full_map_example)
            (map the_value full_map_example) = Inr ab
        \<and> multiply4x4Matrices exact_arith ab (map the_value full_map_example) = Inr l
        \<and> multiply4x4Matrices exact_arith (map the_value full_map_example)
            (map the_value full_map_example) = Inr bc
        \<and> multiply4x4Matrices exact_arith (map the_value full_map_example) bc = Inr r
        \<and> l = r)
   \<and> (\<exists>r. multiply4x4Matrices ieee_arith identity_matrix full_map_example = Inr r
          \<and> list_all is_finite r \<and> map the_value r = map the_value full_map_example)
   \<and> (\<exists>r. multiply4x4Matrices ieee_arith full_map_example identity_matrix = Inr r
          \<and> list_all is_finite r \<and> map the_value r = map the_value full_map_example)
   \<and> (\<exists>xy yz l r.
        multiply4x4Matrices ieee_arith full_map_example full_map_example = Inr xy
        \<and> multiply4x4Matrices ieee_arith xy full_map_example = Inr l
        \<and> multiply4x4Matrices ieee_arith full_map_example full_map_example = Inr yz
        \<and> multiply4x4Matrices ieee_arith full_map_example yz = Inr r
        \<and> list_all is_finite l \<and> list_all is_finite r
        \<and> \<bar>the_value (l ! 3) - the_value (r ! 3)\<bar> \<le> 8 / 65536)"
proof -
  have len: "length full_map_example = 16" "length (map the_value full_map_example) = 16"
    by (simp_all add: full_map_example_def)
  have k: "(1::real) \<le> 2" "(2::real) \<le> 1073741824"
    by simp_all
  note t = multiply4x4Matrices_algebra [where a = "map the_value full_map_example"
      and b = "map the_value full_map_example" and c = "map the_value full_map_example"
      and m = full_map_example and x = full_map_example and y = full_map_example
      and z = full_map_example and K = 2]
  from t len have e: "\<exists>ab bc l r.
        multiply4x4Matrices exact_arith (map the_value full_map_example)
            (map the_value full_map_example) = Inr ab
        \<and> multiply4x4Matrices exact_arith ab (map the_value full_map_example) = Inr l
        \<and> multiply4x4Matrices exact_arith (map the_value full_map_example)
            (map the_value full_map_example) = Inr bc
        \<and> multiply4x4Matrices exact_arith (map the_value full_map_example) bc = Inr r
        \<and> l = r"
    by blast
  from t len full_map_example_representable
  have i: "\<exists>r. multiply4x4Matrices ieee_arith identity_matrix full_map_example = Inr r
          \<and> list_all is_finite r \<and> map the_value r = map the_value full_map_example"
    "\<exists>r. multiply4x4Matrices ieee_arith full_map_example identity_matrix = Inr r
          \<and> list_all is_finite r \<and> map the_value r = map the_value full_map_example"
    by blast+
  from t len full_map_example_bounded k obtain xy yz l r where
    a: "multiply4x4Matrices ieee_arith full_map_example full_map_example = Inr xy"
      "multiply4x4Matrices ieee_arith xy full_map_example = Inr l"
      "multiply4x4Matrices ieee_arith full_map_example full_map_example = Inr yz"
      "multiply4x4Matrices ieee_arith full_map_example yz = Inr r"
      "list_all is_finite l" "list_all is_finite r"
      "\<forall>n<16. \<bar>the_value (l ! n) - the_value (r ! n)\<bar> \<le> 2 * 2 * 2 / 65536"
    by blast
  from a(7) have "\<bar>the_value (l ! 3) - the_value (r ! 3)\<bar> \<le> 8 / 65536"
    by simp
  with a(1-6) have "\<exists>xy yz l r.
        multiply4x4Matrices ieee_arith full_map_example full_map_example = Inr xy
        \<and> multiply4x4Matrices ieee_arith xy full_map_example = Inr l
        \<and> multiply4x4Matrices ieee_arith full_map_example full_map_example = Inr yz
        \<and> multiply4x4Matrices ieee_arith full_map_example yz = Inr r
        \<and> list_all is_finite l \<and> list_all is_finite r
        \<and> \<bar>the_value (l ! 3) - the_value (r ! 3)\<bar> \<le> 8 / 65536"
    by blast
  with len(1) full_map_example_representable full_map_example_bounded k e i show ?thesis
    by blast
qed

text \<open>
  C5 as stated fails for a matrix with an infinite entry: the identity matrix times it has
  \<open>NaN\<close> where the products \<open>0 * Infinity\<close> enter, so the matrix does not come back
  unchanged.
\<close>

theorem multiply4x4Matrices_identity_counterexample:
  "multiply4x4Matrices ieee_arith identity_matrix infinity_example = Inr infinity_product
   \<and> infinity_product \<noteq> infinity_example"
proof -
  have "multiply4x4Matrices ieee_arith identity_matrix infinity_example
      = Inr (matmul ieee_arith identity_matrix infinity_example)"
    by (rule multiply_matmul) (simp_all add: identity_matrix_def infinity_example_def)
  then show ?thesis
    by (simp add: infinity_product_value) (simp add: infinity_product_def infinity_example_def)
qed

end
